(* ===== verification/Prelude.thy ===== *)
theory Prelude
  imports Complex_Main "HOL-Library.Word" "HOL-Library.Finite_Map" "HOL-Library.State_Monad"
begin

text \<open>
  Shared vocabulary of the development: the collection of helper definitions the
  component theories add to, the Go error values, and the scan interface (a loop that
  keeps the best element seen so far), which the pod conversion and the offender ranking
  both instantiate.
\<close>

named_theorems go_defs \<open>definitions of small helpers that are unfolded in proofs\<close>

subsection \<open>Go error values\<close>

text \<open>
  A Go error is either a value handed out by code outside the repository (classified by
  the predicates of that code, such as \<open>apierrors.IsNotFound\<close>), or the result of
  \<open>fmt.Errorf\<close> with a prefix and the verb that wraps another error.
\<close>

datatype goerr = Ext string string | Wrap string goerr

fun err_text :: "goerr \<Rightarrow> string" where
  "err_text (Ext kind msg) = msg"
| "err_text (Wrap prefix e) = prefix @ '': '' @ err_text e"

subsection \<open>The scan loop\<close>

text \<open>
  \<open>best := nil; for x in xs: if best == nil || better(x, best) then best = x\<close>.
\<close>

definition scan_step :: "('a \<Rightarrow> 'a \<Rightarrow> bool) \<Rightarrow> 'a option \<Rightarrow> 'a \<Rightarrow> 'a option" where
  "scan_step better best x =
     (case best of None \<Rightarrow> Some x | Some b \<Rightarrow> if better x b then Some x else Some b)"

definition scan :: "('a \<Rightarrow> 'a \<Rightarrow> bool) \<Rightarrow> 'a list \<Rightarrow> 'a option" where
  "scan better xs = foldl (scan_step better) None xs"

lemma scan_Nil [simp]: "scan better [] = None"
  by (simp add: scan_def)

lemma scan_snoc: "scan better (xs @ [x]) = scan_step better (scan better xs) x"
  by (simp add: scan_def)

lemma scan_None [simp]: "scan better xs = None \<longleftrightarrow> xs = []"
proof (induction xs rule: rev_induct)
  case (snoc x xs)
  then show ?case by (simp add: scan_snoc scan_step_def split: option.splits)
qed simp

lemma scan_in_set: "scan better xs = Some b \<Longrightarrow> b \<in> set xs"
proof (induction xs arbitrary: b rule: rev_induct)
  case (snoc x xs)
  then show ?case by (auto simp: scan_snoc scan_step_def split: option.splits if_splits)
qed simp

text \<open>
  The contract under which the loop finds a best element: on the elements it meets, the
  comparison is a strict weak order.
\<close>

locale strict_weak_order =
  fixes carrier :: "'a \<Rightarrow> bool" and better :: "'a \<Rightarrow> 'a \<Rightarrow> bool"
  assumes irreflexive: "carrier x \<Longrightarrow> \<not> better x x"
    and transitive: "carrier x \<Longrightarrow> carrier y \<Longrightarrow> carrier z \<Longrightarrow>
      better x y \<Longrightarrow> better y z \<Longrightarrow> better x z"
    and neg_transitive: "carrier x \<Longrightarrow> carrier y \<Longrightarrow> carrier z \<Longrightarrow>
      \<not> better x y \<Longrightarrow> \<not> better y z \<Longrightarrow> \<not> better x z"
begin

lemma asymmetric: "carrier x \<Longrightarrow> carrier y \<Longrightarrow> better x y \<Longrightarrow> \<not> better y x"
  using irreflexive transitive by blast

lemma scan_best:
  assumes "\<forall>x \<in> set xs. carrier x" and "scan better xs = Some b" and "y \<in> set xs"
  shows "\<not> better y b"
  using assms
proof (induction xs arbitrary: b y rule: rev_induct)
  case Nil
  then show ?case by simp
next
  case (snoc x xs)
  show ?case
  proof (cases "scan better xs")
    case None
    with snoc.prems show ?thesis
      by (auto simp: scan_snoc scan_step_def irreflexive)
  next
    case (Some c)
    have c: "carrier c" using Some snoc.prems(1) by (auto dest: scan_in_set)
    have IH: "\<not> better z c" if "z \<in> set xs" for z
      using snoc.IH [OF _ Some that] snoc.prems(1) by simp
    have x: "carrier x" using snoc.prems(1) by simp
    show ?thesis
    proof (cases "better x c")
      case True
      then have b: "b = x" using Some snoc.prems(2) by (simp add: scan_snoc scan_step_def)
      show ?thesis
      proof (cases "y \<in> set xs")
        case True
        then have "carrier y" using snoc.prems(1) by simp
        moreover have "\<not> better y c" using IH True by blast
        moreover have "\<not> better c x" using \<open>better x c\<close> asymmetric c x by blast
        ultimately show ?thesis using neg_transitive c x b by blast
      next
        case False
        then show ?thesis using snoc.prems(3) b irreflexive x by simp
      qed
    next
      case False
      then have "b = c" using Some snoc.prems(2) by (simp add: scan_snoc scan_step_def)
      then show ?thesis using snoc.prems(3) IH False by auto
    qed
  qed
qed

end

text \<open>The two orders on a linearly ordered type: earliest and latest.\<close>

interpretation earliest_order: strict_weak_order "\<lambda>_. True" "(<) :: int \<Rightarrow> int \<Rightarrow> bool"
  by unfold_locales auto

interpretation latest_order: strict_weak_order "\<lambda>_. True" "(>) :: int \<Rightarrow> int \<Rightarrow> bool"
  by unfold_locales auto

lemma scan_less_Some:
  assumes "scan (<) (xs :: int list) = Some b"
  shows "b \<in> set xs" and "x \<in> set xs \<Longrightarrow> b \<le> x"
  using scan_in_set [OF assms] earliest_order.scan_best [OF _ assms] by (auto simp: not_less)

lemma scan_greater_Some:
  assumes "scan (>) (xs :: int list) = Some b"
  shows "b \<in> set xs" and "x \<in> set xs \<Longrightarrow> x \<le> b"
  using scan_in_set [OF assms] latest_order.scan_best [OF _ assms] by (auto simp: not_less)

end
