(* ===== verification/Float64.thy ===== *)
theory Float64
  imports Prelude
begin

text \<open>
  Go's \<open>float64\<close>: IEEE 754 binary64 with round to nearest, ties to even. A value is a
  NaN, an infinity, the negative zero, or a finite number kept as its exact rational value
  (\<open>Fin 0\<close> is the positive zero). Every operation computes the exact result and rounds
  it once; operations are not fused. \<open>wf64\<close> says that a finite value lies on the
  binary64 grid, which every operation keeps.
\<close>

datatype float64 = NaN | PInf | NInf | NegZero | Fin rat

subsection \<open>Rounding to the grid\<close>

text \<open>Round to the nearest integer, ties to even.\<close>

definition round_even :: "rat \<Rightarrow> int" where
  "round_even x =
     (let f = \<lfloor>x\<rfloor>; d = x - of_int f
      in if d < 1 / 2 then f else if 1 / 2 < d then f + 1 else if even f then f else f + 1)"

text \<open>The number of binary digits of a positive integer.\<close>

function bit_length :: "int \<Rightarrow> int" where
  "bit_length n = (if n \<le> 0 then 0 else 1 + bit_length (n div 2))"
  by pat_completeness auto
termination
  by (relation "measure nat") auto

declare bit_length.simps [simp del]

text \<open>The binary exponent of a positive rational: \<open>2 ^ ilog2 x \<le> x < 2 ^ (ilog2 x + 1)\<close>.\<close>

definition ilog2 :: "rat \<Rightarrow> int" where
  "ilog2 x =
     (let (p, q) = quotient_of x;
          k = bit_length p - bit_length q
      in if x < 2 powi k then k - 1 else k)"

text \<open>The exponent of the last place: 53 significant bits, subnormals below \<open>2 ^ -1022\<close>.\<close>

definition lastexp :: "rat \<Rightarrow> int" where
  "lastexp x = max (ilog2 \<bar>x\<bar> - 52) (- 1074)"

definition round_grid :: "rat \<Rightarrow> rat" where
  "round_grid x =
     (if x = 0 then 0 else of_int (round_even (x / 2 powi lastexp x)) * 2 powi lastexp x)"

text \<open>Overflow goes to an infinity; a negative value that underflows goes to \<open>-0\<close>.\<close>

definition round64 :: "rat \<Rightarrow> float64" where
  "round64 x =
     (if x = 0 then Fin 0
      else let v = round_grid x
        in if v = 0 then (if x < 0 then NegZero else Fin 0)
           else if 2 ^ 1024 \<le> v then PInf
           else if v \<le> - (2 ^ 1024) then NInf
           else Fin v)"

definition rep64 :: "rat \<Rightarrow> bool" where
  "rep64 x \<longleftrightarrow> round_grid x = x \<and> \<bar>x\<bar> < 2 ^ 1024"

fun wf64 :: "float64 \<Rightarrow> bool" where
  "wf64 (Fin x) = rep64 x"
| "wf64 _ = True"

subsection \<open>Operations\<close>

fun fval :: "float64 \<Rightarrow> rat" where
  "fval (Fin x) = x"
| "fval _ = 0"

fun fneg_bit :: "float64 \<Rightarrow> bool" where
  "fneg_bit (Fin x) = (x < 0)"
| "fneg_bit NegZero = True"
| "fneg_bit NInf = True"
| "fneg_bit _ = False"

fun fneg :: "float64 \<Rightarrow> float64" where
  "fneg NaN = NaN"
| "fneg PInf = NInf"
| "fneg NInf = PInf"
| "fneg NegZero = Fin 0"
| "fneg (Fin x) = (if x = 0 then NegZero else Fin (- x))"

fun fadd :: "float64 \<Rightarrow> float64 \<Rightarrow> float64" where
  "fadd NaN b = NaN"
| "fadd a NaN = NaN"
| "fadd PInf b = (if b = NInf then NaN else PInf)"
| "fadd NInf b = (if b = PInf then NaN else NInf)"
| "fadd a PInf = PInf"
| "fadd a NInf = NInf"
| "fadd NegZero NegZero = NegZero"
| "fadd a b = round64 (fval a + fval b)"

definition fsub :: "float64 \<Rightarrow> float64 \<Rightarrow> float64" where
  "fsub a b = fadd a (fneg b)"

definition signed_inf :: "bool \<Rightarrow> float64" where
  "signed_inf s = (if s then NInf else PInf)"

definition signed_zero :: "bool \<Rightarrow> float64" where
  "signed_zero s = (if s then NegZero else Fin 0)"

definition is_inf :: "float64 \<Rightarrow> bool" where
  "is_inf a \<longleftrightarrow> a = PInf \<or> a = NInf"

definition is_zero64 :: "float64 \<Rightarrow> bool" where
  "is_zero64 a \<longleftrightarrow> a = NegZero \<or> a = Fin 0"

definition fmul :: "float64 \<Rightarrow> float64 \<Rightarrow> float64" where
  "fmul a b =
     (let s = (fneg_bit a \<noteq> fneg_bit b)
      in if a = NaN \<or> b = NaN then NaN
         else if is_inf a then (if is_zero64 b then NaN else signed_inf s)
         else if is_inf b then (if is_zero64 a then NaN else signed_inf s)
         else if fval a * fval b = 0 then signed_zero s
         else round64 (fval a * fval b))"

definition fdiv :: "float64 \<Rightarrow> float64 \<Rightarrow> float64" where
  "fdiv a b =
     (let s = (fneg_bit a \<noteq> fneg_bit b)
      in if a = NaN \<or> b = NaN then NaN
         else if is_inf a then (if is_inf b then NaN else signed_inf s)
         else if is_inf b then signed_zero s
         else if is_zero64 b then (if is_zero64 a then NaN else signed_inf s)
         else if fval a = 0 then signed_zero s
         else round64 (fval a / fval b))"

subsection \<open>Comparisons: false when an operand is a NaN\<close>

fun flt :: "float64 \<Rightarrow> float64 \<Rightarrow> bool" where
  "flt NaN b = False"
| "flt a NaN = False"
| "flt PInf b = False"
| "flt a NInf = False"
| "flt NInf b = True"
| "flt a PInf = True"
| "flt a b = (fval a < fval b)"

fun feq :: "float64 \<Rightarrow> float64 \<Rightarrow> bool" where
  "feq NaN b = False"
| "feq a NaN = False"
| "feq PInf b = (b = PInf)"
| "feq NInf b = (b = NInf)"
| "feq a PInf = False"
| "feq a NInf = False"
| "feq a b = (fval a = fval b)"

definition fle :: "float64 \<Rightarrow> float64 \<Rightarrow> bool" where
  "fle a b \<longleftrightarrow> flt a b \<or> feq a b"

subsection \<open>Conversions\<close>

text \<open>\<open>float64(i)\<close> for a signed 64-bit integer \<open>i\<close>.\<close>

definition float_of_int64 :: "64 word \<Rightarrow> float64" where
  "float_of_int64 i = round64 (of_int (sint i))"

text \<open>
  \<open>int64(f)\<close> truncates towards zero. Go leaves the result implementation-dependent when
  the truncated value does not fit (or \<open>f\<close> is a NaN): the parameter \<open>oor\<close> gives it.
\<close>

definition trunc_rat :: "rat \<Rightarrow> int" where
  "trunc_rat x = (if 0 \<le> x then \<lfloor>x\<rfloor> else \<lceil>x\<rceil>)"

definition int64_of_float :: "(float64 \<Rightarrow> 64 word) \<Rightarrow> float64 \<Rightarrow> 64 word" where
  "int64_of_float oor f =
     (if f = NaN \<or> is_inf f then oor f
      else let n = trunc_rat (fval f)
        in if - (2 ^ 63) \<le> n \<and> n < 2 ^ 63 then word_of_int n else oor f)"

subsection \<open>Decimal output\<close>

text \<open>
  The verb \<open>%.nf\<close> of \<open>fmt\<close>: the exact value rounded to \<open>n\<close> decimals, ties to even.
\<close>

function decimal :: "int \<Rightarrow> string" where
  "decimal n =
     (if n < 10 then [char_of (48 + n)] else decimal (n div 10) @ [char_of (48 + n mod 10)])"
  by pat_completeness auto
termination
  by (relation "measure nat") auto

declare decimal.simps [simp del]

definition pad_zeros :: "nat \<Rightarrow> string \<Rightarrow> string" where
  "pad_zeros n s = replicate (n - length s) (CHR ''0'') @ s"

definition format_decimal :: "nat \<Rightarrow> rat \<Rightarrow> string" where
  "format_decimal n x =
     (let v = round_even (x * 10 ^ n)
      in decimal (v div 10 ^ n) @
         (if n = 0 then [] else ''.'' @ pad_zeros n (decimal (v mod 10 ^ n))))"

fun format_fixed :: "nat \<Rightarrow> float64 \<Rightarrow> string" where
  "format_fixed n NaN = ''NaN''"
| "format_fixed n PInf = ''+Inf''"
| "format_fixed n NInf = ''-Inf''"
| "format_fixed n NegZero = ''-'' @ format_decimal n 0"
| "format_fixed n (Fin x) = (if x < 0 then ''-'' @ format_decimal n (- x) else format_decimal n x)"

end
