(* ===== verification/Float64_Laws.thy ===== *)
theory Float64_Laws
  imports Float64
begin

text \<open>
  Laws of the binary64 model: rounding is monotone, symmetric and exact on the grid;
  sums and products of non-negative values are non-negative, monotone and never lose what
  is already there; a difference of distinct grid values never rounds to zero; the relative
  error of one rounding is at most \<open>2 ^ -53\<close> away from the subnormal range.
\<close>

subsection \<open>Rounding to an integer\<close>

lemma round_even_of_int [simp]: "round_even (of_int n) = n"
  by (simp add: round_even_def)

lemma round_even_cases: "round_even x = \<lfloor>x\<rfloor> \<or> round_even x = \<lfloor>x\<rfloor> + 1"
  by (auto simp: round_even_def Let_def)

lemma round_even_mono: "x \<le> y \<Longrightarrow> round_even x \<le> round_even y"
proof -
  assume le: "x \<le> y"
  then have fl: "\<lfloor>x\<rfloor> \<le> \<lfloor>y\<rfloor>" by (rule floor_mono)
  show ?thesis
  proof (cases "\<lfloor>x\<rfloor> = \<lfloor>y\<rfloor>")
    case True
    with le show ?thesis by (auto simp: round_even_def Let_def)
  next
    case False
    with fl have "\<lfloor>x\<rfloor> + 1 \<le> \<lfloor>y\<rfloor>" by linarith
    with round_even_cases [of x] round_even_cases [of y] show ?thesis by linarith
  qed
qed

lemma round_even_error: "\<bar>of_int (round_even x) - x\<bar> \<le> 1 / 2"
proof -
  have "of_int \<lfloor>x\<rfloor> \<le> x" "x < of_int \<lfloor>x\<rfloor> + 1" by linarith+
  then show ?thesis by (auto simp: round_even_def Let_def abs_le_iff)
qed

lemma round_even_minus: "round_even (- x) = - round_even x"
proof (cases "x = of_int \<lfloor>x\<rfloor>")
  case True
  then have "- x = of_int (- \<lfloor>x\<rfloor>)" by simp
  then show ?thesis using True by (metis round_even_of_int)
next
  case False
  have "\<lfloor>- x\<rfloor> = - \<lfloor>x\<rfloor> - 1"
    using False by (simp add: floor_minus ceiling_altdef)
  then show ?thesis by (auto simp: round_even_def Let_def)
qed

subsection \<open>The binary exponent\<close>

lemma powi_two_pos [simp]: "(0 :: rat) < 2 powi n"
  by simp

lemma powi_two_mono: "m \<le> n \<Longrightarrow> (2 :: rat) powi m \<le> 2 powi n"
  by (rule power_int_increasing) auto

lemma powi_two_strict: "(2 :: rat) powi m < 2 powi n \<longleftrightarrow> m < n"
  by (metis linorder_not_le powi_two_mono power_int_strict_increasing one_less_numeral_iff semiring_norm(76))

lemma powi_two_add1: "(2 :: rat) powi (n + 1) = 2 * 2 powi n"
  by (simp add: power_int_add)

lemma bit_length_nonneg: "0 \<le> bit_length n"
  by (induction n rule: bit_length.induct) (subst bit_length.simps, simp)

lemma bit_length_bounds:
  "0 < n \<Longrightarrow> 2 powi (bit_length n - 1) \<le> (of_int n :: rat) \<and> (of_int n :: rat) < 2 powi bit_length n"
proof (induction n rule: bit_length.induct)
  case (1 n)
  have step: "bit_length n = 1 + bit_length (n div 2)" using "1.prems" by (simp add: bit_length.simps)
  have split: "(of_int n :: rat) = 2 * of_int (n div 2) + of_int (n mod 2)"
    by (metis mult_div_mod_eq of_int_add of_int_mult of_int_numeral)
  show ?case
  proof (cases "n = 1")
    case True
    then show ?thesis by (simp add: bit_length.simps)
  next
    case False
    with "1.prems" have pos: "0 < n div 2" by linarith
    have IH: "2 powi (bit_length (n div 2) - 1) \<le> (of_int (n div 2) :: rat)"
      "(of_int (n div 2) :: rat) < 2 powi bit_length (n div 2)"
      using "1.IH" pos "1.prems" by auto
    have lo: "(2 :: rat) powi (bit_length n - 1) = 2 * 2 powi (bit_length (n div 2) - 1)"
      by (simp add: step power_int_diff)
    have up: "(2 :: rat) powi bit_length n = 2 * 2 powi bit_length (n div 2)"
      by (simp add: step power_int_add)
    obtain k where k: "bit_length (n div 2) = int k"
      using pos by (metis bit_length_nonneg nonneg_int_cases)
    have "(of_int (n div 2) :: rat) < of_int (2 ^ k)" using IH(2) by (simp add: k)
    then have "n div 2 + 1 \<le> 2 ^ k" by (simp only: of_int_less_iff)
    then have "(of_int (n div 2 + 1) :: rat) \<le> of_int (2 ^ k)" by (simp only: of_int_le_iff)
    then have "of_int (n div 2) + 1 \<le> (2 powi bit_length (n div 2) :: rat)" by (simp add: k)
    moreover have "0 \<le> n mod 2 \<and> n mod 2 < 2" by auto
    ultimately show ?thesis unfolding lo up split using IH by auto
  qed
qed

lemma ilog2_bounds:
  assumes "0 < x"
  shows "2 powi ilog2 x \<le> x" and "x < 2 powi (ilog2 x + 1)"
proof -
  obtain p q where pq: "quotient_of x = (p, q)" by force
  have q: "0 < q" and x: "x = of_int p / of_int q"
    using quotient_of_denom_pos [OF pq] quotient_of_div [OF pq] by auto
  have p: "0 < p" using assms x q by (simp add: zero_less_divide_iff)
  define a where "a = bit_length p"
  define b where "b = bit_length q"
  have ap: "2 powi (a - 1) \<le> (of_int p :: rat)" "(of_int p :: rat) < 2 powi a"
    using bit_length_bounds [OF p] by (simp_all add: a_def)
  have bq: "2 powi (b - 1) \<le> (of_int q :: rat)" "(of_int q :: rat) < 2 powi b"
    using bit_length_bounds [OF q] by (simp_all add: b_def)
  have qpos: "(0 :: rat) < of_int q" using q by simp
  have "2 powi (a - b - 1) = (2 powi (a - 1) / 2 powi b :: rat)"
    by (simp add: power_int_diff power_int_add field_simps)
  also have "\<dots> \<le> x" unfolding x
    using ap bq qpos p by (intro frac_le) auto
  finally have lo: "2 powi (a - b - 1) \<le> x" .
  have "x < 2 powi a / 2 powi (b - 1)" unfolding x
    using ap bq qpos p by (intro frac_less) auto
  also have "\<dots> = 2 powi (a - b + 1)"
    by (simp add: power_int_diff power_int_add field_simps)
  finally have hi: "x < 2 powi (a - b + 1)" .
  have il: "ilog2 x = (if x < 2 powi (a - b) then a - b - 1 else a - b)"
    by (simp add: ilog2_def pq a_def b_def Let_def)
  show "2 powi ilog2 x \<le> x" using lo il by (auto split: if_splits)
  show "x < 2 powi (ilog2 x + 1)" using hi il by (auto split: if_splits)
qed

lemma ilog2_unique:
  assumes "2 powi k \<le> x" and "x < 2 powi (k + 1)"
  shows "ilog2 x = k"
proof -
  have x: "0 < x" using assms(1) powi_two_pos [of k] by linarith
  have "(2 :: rat) powi k < 2 powi (ilog2 x + 1)" "(2 :: rat) powi ilog2 x < 2 powi (k + 1)"
    using assms ilog2_bounds [OF x] by linarith+
  then show ?thesis by (simp add: powi_two_strict)
qed

lemma ilog2_mono:
  assumes "0 < x" and "x \<le> y"
  shows "ilog2 x \<le> ilog2 y"
proof -
  have "(2 :: rat) powi ilog2 x < 2 powi (ilog2 y + 1)"
    using assms ilog2_bounds(1) [of x] ilog2_bounds(2) [of y] by linarith
  then show ?thesis by (simp add: powi_two_strict)
qed

lemma lastexp_mono: "0 < x \<Longrightarrow> x \<le> y \<Longrightarrow> lastexp x \<le> lastexp y"
  using ilog2_mono [of x y] by (simp add: lastexp_def)

lemma lastexp_ge: "- 1074 \<le> lastexp x"
  by (simp add: lastexp_def)

lemma lastexp_minus [simp]: "lastexp (- x) = lastexp x"
  by (simp add: lastexp_def)

subsection \<open>Rounding to the grid\<close>

lemma round_grid_0 [simp]: "round_grid 0 = 0"
  by (simp add: round_grid_def)

lemma round_grid_minus: "round_grid (- x) = - round_grid x"
  using round_even_minus [of "x / 2 powi lastexp x"] by (simp add: round_grid_def)

lemma round_grid_nonneg: "0 \<le> x \<Longrightarrow> 0 \<le> round_grid x"
  using round_even_mono [of 0 "x / 2 powi lastexp x"] round_even_of_int [of 0]
  by (simp add: round_grid_def)

lemma powi_two_split: "m \<le> n \<Longrightarrow> (2 :: rat) powi n = of_int (2 ^ nat (n - m)) * 2 powi m"
proof -
  assume "m \<le> n"
  have "(2 :: rat) powi n = 2 powi ((n - m) + m)" by simp
  also have "\<dots> = 2 powi (n - m) * 2 powi m" by (rule power_int_add) simp
  also have "(2 :: rat) powi (n - m) = 2 ^ nat (n - m)"
    using \<open>m \<le> n\<close> by (simp add: power_int_def)
  finally show ?thesis by simp
qed

text \<open>A multiple of the last place of \<open>x\<close> is never jumped over by the rounding of \<open>x\<close>.\<close>

lemma round_grid_le_multiple:
  assumes "0 < x" and "x \<le> of_int m * 2 powi lastexp x"
  shows "round_grid x \<le> of_int m * 2 powi lastexp x"
proof -
  have "x / 2 powi lastexp x \<le> of_int m" using assms(2) by (simp add: divide_le_eq)
  then have "round_even (x / 2 powi lastexp x) \<le> m"
    by (metis round_even_mono round_even_of_int)
  then have "(of_int (round_even (x / 2 powi lastexp x)) :: rat) \<le> of_int m" by simp
  then show ?thesis using assms(1) by (simp add: round_grid_def mult_right_mono)
qed

lemma round_grid_ge_multiple:
  assumes "0 < x" and "of_int m * 2 powi lastexp x \<le> x"
  shows "of_int m * 2 powi lastexp x \<le> round_grid x"
proof -
  have "of_int m \<le> x / 2 powi lastexp x" using assms(2) by (simp add: le_divide_eq)
  then have "m \<le> round_even (x / 2 powi lastexp x)"
    by (metis round_even_mono round_even_of_int)
  then have "(of_int m :: rat) \<le> of_int (round_even (x / 2 powi lastexp x))" by simp
  then show ?thesis using assms(1) by (simp add: round_grid_def mult_right_mono)
qed

lemma round_grid_mono_pos:
  assumes x: "0 < x" and xy: "x \<le> y"
  shows "round_grid x \<le> round_grid y"
proof (cases "lastexp x = lastexp y")
  case True
  have "x / 2 powi lastexp x \<le> y / 2 powi lastexp y"
    using True xy by (simp add: divide_right_mono)
  then have "(of_int (round_even (x / 2 powi lastexp x)) :: rat)
      \<le> of_int (round_even (y / 2 powi lastexp y))"
    using round_even_mono by simp
  then show ?thesis using True x xy by (simp add: round_grid_def mult_right_mono)
next
  case False
  let ?k = "ilog2 y"
  have y: "0 < y" using x xy by linarith
  have lt: "lastexp x < lastexp y" using False lastexp_mono [OF x xy] by linarith
  then have ly: "lastexp y = ?k - 52" using y lastexp_ge [of x] by (auto simp: lastexp_def max_def split: if_splits)
  have il: "ilog2 x < ?k" using lt x y by (auto simp: lastexp_def)
  have lower: "(2 :: rat) powi ?k \<le> y" using ilog2_bounds y by blast
  have "x < 2 powi (ilog2 x + 1)" using ilog2_bounds x by blast
  also have "\<dots> \<le> 2 powi ?k" using il by (intro powi_two_mono) linarith
  finally have upper: "x \<le> 2 powi ?k" by simp
  have sx: "(2 :: rat) powi ?k = of_int (2 ^ nat (?k - lastexp x)) * 2 powi lastexp x"
    using lt ly by (intro powi_two_split) linarith
  have sy: "(2 :: rat) powi ?k = of_int (2 ^ nat (?k - lastexp y)) * 2 powi lastexp y"
    using ly by (intro powi_two_split) linarith
  have "round_grid x \<le> 2 powi ?k"
    using round_grid_le_multiple [OF x] upper by (simp only: sx)
  also have "\<dots> \<le> round_grid y"
    using round_grid_ge_multiple [OF y] lower by (simp only: sy)
  finally show ?thesis .
qed

lemma round_grid_mono: "x \<le> y \<Longrightarrow> round_grid x \<le> round_grid y"
proof -
  assume le: "x \<le> y"
  consider "0 < x" | "x \<le> 0" "0 \<le> y" | "y < 0" by linarith
  then show ?thesis
  proof cases
    case 1
    then show ?thesis using le by (rule round_grid_mono_pos)
  next
    case 2
    then have "0 \<le> round_grid y" and "0 \<le> round_grid (- x)" by (auto intro: round_grid_nonneg)
    then show ?thesis by (simp add: round_grid_minus)
  next
    case 3
    then have "round_grid (- y) \<le> round_grid (- x)"
      using le by (intro round_grid_mono_pos) auto
    then show ?thesis by (simp add: round_grid_minus)
  qed
qed

text \<open>Exactness: every value with 53 significant bits above the smallest exponent is kept.\<close>

lemma round_grid_exact_pos:
  assumes m: "0 < m" "m \<le> 2 ^ 53" and e: "- 1074 \<le> e"
  shows "round_grid (of_int m * 2 powi e) = of_int m * 2 powi e"
proof -
  define x :: rat where "x = of_int m * 2 powi e"
  have x: "0 < x" using m(1) by (simp add: x_def)
  have scaled: "round_grid x = x" if "lastexp x \<le> e"
  proof -
    have "x = of_int (m * 2 ^ nat (e - lastexp x)) * 2 powi lastexp x"
      using powi_two_split [OF that] by (simp add: x_def)
    then show ?thesis
      using round_grid_le_multiple [OF x] round_grid_ge_multiple [OF x] by (metis order_antisym order_refl)
  qed
  have "(of_int m :: rat) \<le> 2 ^ 53" using m(2) by (metis of_int_le_iff of_int_numeral of_int_power)
  show ?thesis
  proof (cases "m = 2 ^ 53")
    case True
    have px: "x = 2 powi (53 + e)" unfolding x_def True by (simp add: power_int_add)
    have "ilog2 x = 53 + e"
      by (rule ilog2_unique) (auto simp: px intro: powi_two_mono simp: powi_two_strict)
    then have le: "lastexp x = e + 1" using x e by (simp add: lastexp_def)
    have "x = of_int (2 ^ 52) * 2 powi lastexp x" unfolding le by (simp add: px power_int_add)
    then show ?thesis
      using round_grid_le_multiple [OF x] round_grid_ge_multiple [OF x]
      by (metis x_def order_antisym order_refl)
  next
    case False
    then have "m < 2 ^ 53" using m(2) by simp
    then have "(of_int m :: rat) < of_int (2 ^ 53)" by (simp only: of_int_less_iff)
    then have "x < 2 ^ 53 * 2 powi e" by (simp add: x_def)
    also have "\<dots> = 2 powi (53 + e)" by (simp add: power_int_add)
    finally have "x < 2 powi (53 + e)" .
    then have "(2 :: rat) powi ilog2 x < 2 powi (53 + e)" using ilog2_bounds(1) [OF x] by linarith
    then have "ilog2 x < 53 + e" by (simp add: powi_two_strict)
    then have "lastexp x \<le> e" using x e by (simp add: lastexp_def)
    then show ?thesis using scaled x_def by simp
  qed
qed

lemma round_grid_exact:
  assumes "\<bar>m\<bar> \<le> 2 ^ 53" and "- 1074 \<le> e"
  shows "round_grid (of_int m * 2 powi e) = of_int m * 2 powi e"
proof -
  consider "m = 0" | "0 < m" | "m < 0" by linarith
  then show ?thesis
  proof cases
    case 2
    then show ?thesis using assms by (intro round_grid_exact_pos) auto
  next
    case 3
    have "round_grid (of_int (- m) * 2 powi e) = of_int (- m) * 2 powi e"
      using 3 assms by (intro round_grid_exact_pos) auto
    then show ?thesis using round_grid_minus [of "of_int (- m) * 2 powi e"] by simp
  qed simp
qed

lemma round_grid_int: "\<bar>n\<bar> \<le> 2 ^ 53 \<Longrightarrow> round_grid (of_int n) = of_int n"
  using round_grid_exact [of n 0] by simp

text \<open>The result of a rounding has 53 bits, so rounding twice changes nothing.\<close>

lemma round_grid_form_pos:
  assumes "0 < x"
  shows "\<exists>m. round_grid x = of_int m * 2 powi lastexp x \<and> \<bar>m\<bar> \<le> 2 ^ 53"
proof -
  have "x < 2 powi (ilog2 x + 1)" using ilog2_bounds assms by blast
  also have "\<dots> \<le> 2 powi (53 + lastexp x)" using assms by (intro powi_two_mono) (simp add: lastexp_def)
  also have "\<dots> = of_int (2 ^ 53) * 2 powi lastexp x" by (simp add: power_int_add)
  finally have "x / 2 powi lastexp x \<le> of_int (2 ^ 53)" by (simp add: divide_le_eq)
  then have u: "round_even (x / 2 powi lastexp x) \<le> 2 ^ 53"
    by (metis round_even_mono round_even_of_int)
  have "(of_int 0 :: rat) \<le> x / 2 powi lastexp x" using assms by simp
  then have "0 \<le> round_even (x / 2 powi lastexp x)" by (metis round_even_mono round_even_of_int)
  then show ?thesis using u assms
    by (intro exI [of _ "round_even (x / 2 powi lastexp x)"]) (simp add: round_grid_def)
qed

lemma round_grid_idem [simp]: "round_grid (round_grid x) = round_grid x"
proof -
  have pos: "round_grid (round_grid y) = round_grid y" if "0 < y" for y
    using round_grid_form_pos [OF that] round_grid_exact lastexp_ge by metis
  consider "x = 0" | "0 < x" | "0 < - x" by linarith
  then show ?thesis
  proof cases
    case 3
    then show ?thesis using pos [OF 3] by (simp add: round_grid_minus)
  qed (simp_all add: pos)
qed

subsection \<open>Values on the grid\<close>

lemma rep64_round_grid: "rep64 x \<Longrightarrow> round_grid x = x"
  by (simp add: rep64_def)

lemma rep64_0 [simp]: "rep64 0"
  by (simp add: rep64_def)

lemma rep64_uminus [simp]: "rep64 (- x) \<longleftrightarrow> rep64 x"
  by (simp add: rep64_def round_grid_minus)

lemma rep64_int: "\<bar>n\<bar> \<le> 2 ^ 53 \<Longrightarrow> rep64 (of_int n)"
proof -
  assume n: "\<bar>n\<bar> \<le> 2 ^ 53"
  have "\<bar>of_int n :: rat\<bar> = of_int \<bar>n\<bar>" by simp
  also have "\<dots> \<le> of_int (2 ^ 53)" using n by (simp only: of_int_le_iff)
  also have "(of_int (2 ^ 53) :: rat) < 2 ^ 1024" by simp
  finally show ?thesis using n by (simp add: rep64_def round_grid_int)
qed

lemma rep64_numeral: "numeral k \<le> (2 :: int) ^ 53 \<Longrightarrow> rep64 (numeral k)"
  using rep64_int [of "numeral k"] by simp

text \<open>Every grid value is a multiple of the smallest subnormal.\<close>

lemma round_grid_multiple: "\<exists>m :: int. round_grid x = of_int m * 2 powi (- 1074)"
proof (cases "x = 0")
  case False
  have "(2 :: rat) powi lastexp x = of_int (2 ^ nat (lastexp x + 1074)) * 2 powi (- 1074)"
    using powi_two_split [OF lastexp_ge [of x]] by simp
  then have "round_grid x =
      of_int (round_even (x / 2 powi lastexp x) * 2 ^ nat (lastexp x + 1074)) * 2 powi (- 1074)"
    using False by (simp add: round_grid_def)
  then show ?thesis by blast
qed (auto intro: exI [of _ 0])

lemma round_grid_smallest: "2 powi (- 1074) \<le> x \<Longrightarrow> 2 powi (- 1074) \<le> round_grid x"
  using round_grid_mono [of "2 powi (- 1074)" x] round_grid_exact [of 1 "- 1074"] by simp

text \<open>Gradual underflow: distinct grid values have a non-zero rounded difference.\<close>

lemma round_grid_diff_pos:
  assumes "rep64 x" and "rep64 y" and "y < x"
  shows "0 < round_grid (x - y)"
proof -
  obtain m n where m: "x = of_int m * 2 powi (- 1074)" and n: "y = of_int n * 2 powi (- 1074)"
    using assms round_grid_multiple rep64_round_grid by metis
  have d: "x - y = of_int (m - n) * 2 powi (- 1074)" by (simp add: m n algebra_simps)
  then have "(0 :: rat) < of_int (m - n) * 2 powi (- 1074)" using assms(3) by linarith
  then have "0 < m - n" by (simp add: zero_less_mult_iff)
  then have "(1 :: rat) \<le> of_int (m - n)" by (metis of_int_1_le_iff int_one_le_iff_zero_less)
  then have "2 powi (- 1074) \<le> of_int (m - n) * (2 powi (- 1074) :: rat)"
    by (metis mult_right_mono mult_1 less_imp_le powi_two_pos)
  then have "2 powi (- 1074) \<le> round_grid (x - y)"
    unfolding d by (rule round_grid_smallest)
  then show ?thesis using powi_two_pos [of "- 1074"] by linarith
qed

subsection \<open>Relative error of one rounding\<close>

lemma round_grid_error: "x \<noteq> 0 \<Longrightarrow> \<bar>round_grid x - x\<bar> \<le> 2 powi lastexp x / 2"
proof -
  assume "x \<noteq> 0"
  let ?u = "2 powi lastexp x :: rat"
  have "round_grid x - x = (of_int (round_even (x / ?u)) - x / ?u) * ?u"
    using \<open>x \<noteq> 0\<close> by (simp add: round_grid_def algebra_simps)
  then have "\<bar>round_grid x - x\<bar> = \<bar>of_int (round_even (x / ?u)) - x / ?u\<bar> * ?u"
    by (simp add: abs_mult)
  also have "\<dots> \<le> (1 / 2) * ?u"
    using round_even_error by (intro mult_right_mono) auto
  finally show ?thesis by simp
qed

lemma round_grid_rel_error:
  assumes "2 powi (- 1022) \<le> \<bar>x\<bar>"
  shows "\<bar>round_grid x - x\<bar> \<le> \<bar>x\<bar> / 2 ^ 53"
proof -
  have x: "0 < \<bar>x\<bar>" using assms powi_two_pos [of "- 1022"] by linarith
  have "(2 :: rat) powi (- 1022) < 2 powi (ilog2 \<bar>x\<bar> + 1)"
    using assms ilog2_bounds(2) [OF x] by linarith
  then have "- 1022 \<le> ilog2 \<bar>x\<bar>" unfolding powi_two_strict by simp
  then have le: "lastexp x = ilog2 \<bar>x\<bar> - 52" by (simp add: lastexp_def)
  have "(2 :: rat) powi lastexp x / 2 = 2 powi ilog2 \<bar>x\<bar> / 2 ^ 53"
    by (simp add: le power_int_diff field_simps)
  also have "\<dots> \<le> \<bar>x\<bar> / 2 ^ 53" using ilog2_bounds(1) [OF x] by (simp add: divide_right_mono)
  finally show ?thesis using round_grid_error [of x] x by force
qed

subsection \<open>Rounding to a float\<close>

lemma rep64_limit: "rep64 x \<Longrightarrow> - (2 ^ 1024) < x \<and> x < 2 ^ 1024"
  by (auto simp: rep64_def abs_less_iff)

lemma wf64_round64 [simp]: "wf64 (round64 x)"
  by (simp add: round64_def rep64_def Let_def abs_less_iff)

lemma round64_rep64: "rep64 x \<Longrightarrow> round64 x = Fin x"
  using rep64_limit [of x] by (auto simp: round64_def rep64_round_grid Let_def)

lemma round64_0 [simp]: "round64 0 = Fin 0"
  by (simp add: round64_def)

lemma round64_not_NaN [simp]: "round64 x \<noteq> NaN"
  by (simp add: round64_def Let_def)

lemma fle_NaN [simp]: "\<not> fle NaN a" "\<not> fle a NaN"
  by (cases a; simp add: fle_def)+

lemma fle_PInf [simp]: "fle a PInf \<longleftrightarrow> a \<noteq> NaN" "fle PInf a \<longleftrightarrow> a = PInf"
  by (cases a; simp add: fle_def)+

lemma fle_NInf [simp]: "fle NInf a \<longleftrightarrow> a \<noteq> NaN" "fle a NInf \<longleftrightarrow> a = NInf"
  by (cases a; simp add: fle_def)+

lemma fle_finite [simp]:
  "fle (Fin x) (Fin y) \<longleftrightarrow> x \<le> y"
  "fle NegZero (Fin y) \<longleftrightarrow> 0 \<le> y"
  "fle (Fin x) NegZero \<longleftrightarrow> x \<le> 0"
  "fle NegZero NegZero"
  by (auto simp: fle_def)

lemma fle_refl: "a \<noteq> NaN \<Longrightarrow> fle a a"
  by (cases a) auto

lemma fle_trans: "fle a b \<Longrightarrow> fle b c \<Longrightarrow> fle a c"
  by (cases a; cases b; cases c) auto

lemma fle_total: "a \<noteq> NaN \<Longrightarrow> b \<noteq> NaN \<Longrightarrow> fle a b \<or> fle b a"
  by (cases a; cases b) auto

lemma flt_iff_not_fle: "a \<noteq> NaN \<Longrightarrow> b \<noteq> NaN \<Longrightarrow> flt a b \<longleftrightarrow> \<not> fle b a"
  by (cases a; cases b) auto

lemma flt_fle: "flt a b \<Longrightarrow> fle a b"
  by (simp add: fle_def)

lemma feq_iff_fle: "feq a b \<longleftrightarrow> fle a b \<and> fle b a"
  by (cases a; cases b) auto

lemma flt_not_NaN: "flt a b \<Longrightarrow> a \<noteq> NaN \<and> b \<noteq> NaN"
  by (cases a; cases b) auto

lemma fle_not_NaN: "fle a b \<Longrightarrow> a \<noteq> NaN \<and> b \<noteq> NaN"
  by auto

lemma round64_mono: "x \<le> y \<Longrightarrow> fle (round64 x) (round64 y)"
  using round_grid_mono [of x y] round_grid_mono [of 0 y] round_grid_mono [of x 0]
  by (auto simp: round64_def Let_def not_le not_less)

subsection \<open>Non-negative floats: sums and products\<close>

definition nonneg64 :: "float64 \<Rightarrow> bool" where
  "nonneg64 a \<longleftrightarrow> wf64 a \<and> fle (Fin 0) a"

lemma nonneg64_cases:
  assumes "nonneg64 a"
  obtains (inf) "a = PInf" | (nzero) "a = NegZero" | (fin) x where "a = Fin x" "0 \<le> x" "rep64 x"
  using assms by (cases a) (auto simp: nonneg64_def)

lemma nonneg64_simps [simp]:
  "nonneg64 PInf" "nonneg64 NegZero" "\<not> nonneg64 NaN" "\<not> nonneg64 NInf"
  "nonneg64 (Fin x) \<longleftrightarrow> 0 \<le> x \<and> rep64 x"
  by (auto simp: nonneg64_def)

lemma nonneg64_not_NaN: "nonneg64 a \<Longrightarrow> a \<noteq> NaN"
  by auto

lemma nonneg64_round64: "0 \<le> x \<Longrightarrow> nonneg64 (round64 x)"
  using round64_mono [of 0 x] by (simp add: nonneg64_def)

lemma fadd_wf64 [simp]: "wf64 a \<Longrightarrow> wf64 b \<Longrightarrow> wf64 (fadd a b)"
  by (cases "(a, b)" rule: fadd.cases) auto

lemma fadd_Fin_0: "nonneg64 a \<Longrightarrow> fadd (Fin 0) a = (if a = NegZero then Fin 0 else a)"
  by (erule nonneg64_cases) (auto simp: round64_rep64)

lemma fadd_nonneg64: "nonneg64 a \<Longrightarrow> nonneg64 b \<Longrightarrow> nonneg64 (fadd a b)"
  by (elim nonneg64_cases) (auto simp: nonneg64_round64 round64_rep64)

lemma fadd_nonneg_eq:
  "nonneg64 a \<Longrightarrow> nonneg64 b \<Longrightarrow> fadd a b =
    (if a = PInf \<or> b = PInf then PInf
     else if a = NegZero \<and> b = NegZero then NegZero else round64 (fval a + fval b))"
  by (elim nonneg64_cases) auto

lemma fle_fval: "nonneg64 a \<Longrightarrow> nonneg64 b \<Longrightarrow> b \<noteq> PInf \<Longrightarrow>
    fle a b \<longleftrightarrow> a \<noteq> PInf \<and> fval a \<le> fval b"
  by (elim nonneg64_cases) auto

lemma fval_nonneg: "nonneg64 a \<Longrightarrow> 0 \<le> fval a"
  by (elim nonneg64_cases) auto

lemma fle_zero_round64: "0 \<le> x \<Longrightarrow> fle NegZero (round64 x)"
  using nonneg64_round64 [of x] by (metis fle_finite(2) fle_trans nonneg64_def order_refl)

lemma fadd_mono:
  assumes nn: "nonneg64 a" "nonneg64 b" "nonneg64 a'" "nonneg64 b'"
    and le: "fle a a'" "fle b b'"
  shows "fle (fadd a b) (fadd a' b')"
proof (cases "a' = PInf \<or> b' = PInf")
  case True
  then have "fadd a' b' = PInf" using nn by (simp add: fadd_nonneg_eq)
  then show ?thesis using fadd_nonneg64 [OF nn(1,2)] by auto
next
  case False
  then have v: "fval a + fval b \<le> fval a' + fval b'" and f: "a \<noteq> PInf" "b \<noteq> PInf"
    using nn le by (auto simp: fle_fval intro: add_mono)
  have z: "0 \<le> fval a' + fval b'" using nn by (simp add: fval_nonneg)
  have r: "fle (round64 (fval a + fval b)) (round64 (fval a' + fval b'))"
    using v by (rule round64_mono)
  have nz: "fle (round64 (fval a + fval b)) NegZero" if "a' = NegZero" "b' = NegZero"
    using r that by (simp add: fle_trans)
  show ?thesis using False f nn r nz z by (auto simp: fadd_nonneg_eq fle_zero_round64)
qed

lemma fadd_ge_operand:
  assumes "nonneg64 a" and "nonneg64 b"
  shows "fle a (fadd a b)" and "fle b (fadd a b)"
proof -
  have "fle a (fadd a (Fin 0))" "fle b (fadd (Fin 0) b)"
    using assms by (auto elim!: nonneg64_cases simp: round64_rep64)
  moreover have "fle (fadd a (Fin 0)) (fadd a b)" "fle (fadd (Fin 0) b) (fadd a b)"
    using assms by (auto intro!: fadd_mono simp: fle_refl nonneg64_not_NaN) (auto simp: nonneg64_def)
  ultimately show "fle a (fadd a b)" and "fle b (fadd a b)" by (auto intro: fle_trans)
qed

lemma fmul_wf64 [simp]: "wf64 (fmul a b)"
  by (simp add: fmul_def Let_def signed_inf_def signed_zero_def)

lemma fdiv_wf64 [simp]: "wf64 (fdiv a b)"
  by (simp add: fdiv_def Let_def signed_inf_def signed_zero_def)

text \<open>A finite non-negative factor and a positive one: no NaN can arise.\<close>

lemma fmul_nonneg64:
  "nonneg64 a \<Longrightarrow> flt (Fin 0) b \<Longrightarrow> b \<noteq> PInf \<Longrightarrow> nonneg64 (fmul a b)"
  by (erule nonneg64_cases; cases b)
    (auto simp: fmul_def Let_def is_inf_def is_zero64_def signed_inf_def signed_zero_def
      intro: nonneg64_round64)

lemma fmul_mono_right:
  assumes "flt (Fin 0) a" and "0 \<le> x" and "x \<le> y" and "0 < y"
  shows "fle (fmul a (Fin x)) (fmul a (Fin y)) \<or> (a = PInf \<and> x = 0)"
proof (cases a)
  case (Fin g)
  then have "0 < g" using assms(1) by simp
  then have "g * x \<le> g * y" using assms(3) by (simp add: mult_left_mono)
  then show ?thesis using Fin \<open>0 < g\<close> assms round64_mono [of "g * x" "g * y"] round64_mono [of 0 "g * y"]
    by (auto simp: fmul_def Let_def is_inf_def is_zero64_def signed_zero_def)
qed (use assms in \<open>auto simp: fmul_def Let_def is_inf_def is_zero64_def signed_inf_def\<close>)

lemma fdiv_Fin: "rep64 y \<Longrightarrow> 0 < y \<Longrightarrow> 0 \<le> x \<Longrightarrow> fdiv (Fin x) (Fin y) = round64 (x / y)"
  by (simp add: fdiv_def Let_def is_inf_def is_zero64_def signed_zero_def)

subsection \<open>Differences: no underflow to zero\<close>

lemma fneg_wf64 [simp]: "wf64 (fneg a) \<longleftrightarrow> wf64 a"
  by (cases a) auto

lemma fsub_wf64 [simp]: "wf64 a \<Longrightarrow> wf64 b \<Longrightarrow> wf64 (fsub a b)"
  by (simp add: fsub_def)

lemma fsub_Fin: "fsub (Fin x) (Fin y) = round64 (x - y)"
  by (simp add: fsub_def)

lemma round64_pos: "0 < round_grid x \<Longrightarrow> flt (Fin 0) (round64 x)"
  using round_grid_mono [of x 0] by (auto simp: round64_def Let_def)

lemma fsub_sign:
  assumes "wf64 a" and "wf64 b" and "a \<noteq> NaN" and "b \<noteq> NaN"
    and "\<not> (a = PInf \<and> b = PInf)" and "\<not> (a = NInf \<and> b = NInf)"
  shows "flt (Fin 0) (fsub a b) \<longleftrightarrow> flt b a" and "flt (fsub a b) (Fin 0) \<longleftrightarrow> flt a b"
proof -
  have pos: "flt (Fin 0) (round64 (x - y))" if "rep64 x" "rep64 y" "y < x" for x y
    using round_grid_diff_pos [OF that] by (rule round64_pos)
  have neg: "flt (round64 (x - y)) (Fin 0)" if "rep64 x" "rep64 y" "x < y" for x y
  proof -
    have "round_grid (x - y) < 0"
      using round_grid_diff_pos [OF that(2,1,3)] round_grid_minus [of "y - x"] by simp
    then show ?thesis using that(3) round_grid_0 by (auto simp: round64_def Let_def)
  qed
  have p': "flt (Fin 0) (round64 (x - y)) \<longleftrightarrow> y < x" if "rep64 x" "rep64 y" for x y
    using pos [OF that] round64_mono [of "x - y" 0] that
    by (metis diff_gt_0_iff_gt diff_le_0_iff_le flt_iff_not_fle float64.distinct(7) linorder_not_le round64_0 round64_not_NaN)
  have n': "flt (round64 (x - y)) (Fin 0) \<longleftrightarrow> x < y" if "rep64 x" "rep64 y" for x y
    using neg [OF that] round64_mono [of 0 "x - y"] that
    by (metis diff_ge_0_iff_ge flt_iff_not_fle float64.distinct(7) linorder_not_le round64_0 round64_not_NaN)
  show "flt (Fin 0) (fsub a b) \<longleftrightarrow> flt b a"
    using assms p' [of "fval a" "fval b"]
    by (cases a; cases b) (auto simp: fsub_def round64_rep64 split: if_splits)
  show "flt (fsub a b) (Fin 0) \<longleftrightarrow> flt a b"
    using assms n' [of "fval a" "fval b"]
    by (cases a; cases b) (auto simp: fsub_def round64_rep64 split: if_splits)
qed

subsection \<open>Integers\<close>

lemma float_of_int64_exact: "\<bar>sint i\<bar> \<le> 2 ^ 53 \<Longrightarrow> float_of_int64 i = Fin (of_int (sint i))"
  using round64_rep64 [OF rep64_int [of "sint i"]] by (simp add: float_of_int64_def)

lemma trunc_rat_mono: "x \<le> y \<Longrightarrow> trunc_rat x \<le> trunc_rat y"
proof -
  assume "x \<le> y"
  moreover have "\<lceil>x\<rceil> \<le> 0" if "x < 0" using that by (simp add: ceiling_le_iff)
  ultimately show ?thesis
    by (auto simp: trunc_rat_def floor_mono ceiling_mono intro: order_trans [of _ 0])
qed

lemma sint_word_of_int64: "- (2 ^ 63) \<le> n \<Longrightarrow> n < 2 ^ 63 \<Longrightarrow> sint (word_of_int n :: 64 word) = n"
  by (simp add: int_word_sint)

end
