(* ===== verification/GoTime.thy ===== *)
theory GoTime
  imports Float64_Laws "HOL-Library.Signed_Division"
begin

text \<open>
  What the program uses of Go's \<open>time\<close> package. A \<open>time.Time\<close> is the number of
  nanoseconds since the zero time (January 1 of year 1, UTC), so \<open>time.Time{}\<close> is 0; a
  \<open>time.Duration\<close> is a signed 64-bit count of nanoseconds, so products and negations
  wrap and \<open>Time.Sub\<close> saturates. Kubernetes timestamps lie in the years 0 to 9999, far
  inside the range of Go's 64-bit seconds, so instants themselves do not wrap here.
\<close>

type_synonym gotime = int
type_synonym duration = "64 word"

subsection \<open>Instants and durations\<close>

definition zero_time :: gotime where
  "zero_time = 0"

definition IsZero :: "gotime \<Rightarrow> bool" where
  "IsZero t \<longleftrightarrow> t = zero_time"

definition Before :: "gotime \<Rightarrow> gotime \<Rightarrow> bool" where
  "Before t u \<longleftrightarrow> t < u"

definition After :: "gotime \<Rightarrow> gotime \<Rightarrow> bool" where
  "After t u \<longleftrightarrow> u < t"

definition Add :: "gotime \<Rightarrow> duration \<Rightarrow> gotime" where
  "Add t d = t + sint d"

text \<open>The difference of two instants saturates at the ends of the duration range.\<close>

definition Sub :: "gotime \<Rightarrow> gotime \<Rightarrow> duration" where
  "Sub t u =
     (if t - u < - (2 ^ 63) then word_of_int (- (2 ^ 63))
      else if 2 ^ 63 \<le> t - u then word_of_int (2 ^ 63 - 1)
      else word_of_int (t - u))"

definition Second :: duration where
  "Second = 1000000000"

definition Hour :: duration where
  "Hour = 3600000000000"

text \<open>\<open>Duration.Hours\<close>: whole hours plus the rest as a fraction, each converted to float64.\<close>

definition Hours :: "duration \<Rightarrow> float64" where
  "Hours d =
     (let h = sint d sdiv 3600000000000; nsec = sint d smod 3600000000000
      in fadd (round64 (of_int h)) (fdiv (round64 (of_int nsec)) (Fin 3600000000000)))"

definition Seconds :: "duration \<Rightarrow> float64" where
  "Seconds d =
     (let s = sint d sdiv 1000000000; nsec = sint d smod 1000000000
      in fadd (round64 (of_int s)) (fdiv (round64 (of_int nsec)) (Fin 1000000000)))"

lemmas time_defs [go_defs] = zero_time_def IsZero_def Before_def After_def Add_def

lemma sint64_bounds: "- (2 ^ 63) \<le> sint (d :: 64 word)" "sint (d :: 64 word) < 2 ^ 63"
  using sint_greater_eq [of d] sint_less [of d] by simp_all

lemma sint_Sub: "sint (Sub t u) = max (- (2 ^ 63)) (min (2 ^ 63 - 1) (t - u))"
  by (auto simp: Sub_def sint_word_of_int64 min_def max_def simp del: of_int_diff)

lemma sint_Sub_pos: "u < t \<Longrightarrow> 0 < sint (Sub t u)"
  by (simp add: sint_Sub)

lemma sint_Sub_mono: "t - u \<le> t' - u' \<Longrightarrow> sint (Sub t u) \<le> sint (Sub t' u')"
  by (auto simp: sint_Sub max_def min_def)

subsection \<open>The RFC 3339 format\<close>

text \<open>
  \<open>t.UTC().Format(time.RFC3339)\<close>: the proleptic Gregorian date of a day count (days
  since January 1 of year 1, counted in eras of 400 years that start in March), then the
  time of day in whole seconds.
\<close>

definition civil_date :: "int \<Rightarrow> int \<times> int \<times> int" where
  "civil_date days =
     (let z = days + 306;
          era = z div 146097;
          doe = z mod 146097;
          yoe = (doe - doe div 1460 + doe div 36524 - doe div 146096) div 365;
          doy = doe - (365 * yoe + yoe div 4 - yoe div 100);
          mp = (5 * doy + 2) div 153;
          d = doy - (153 * mp + 2) div 5 + 1;
          m = (if mp < 10 then mp + 3 else mp - 9);
          y = yoe + era * 400 + (if m \<le> 2 then 1 else 0)
      in (y, m, d))"

definition format_RFC3339 :: "gotime \<Rightarrow> string" where
  "format_RFC3339 t =
     (let secs = t div 1000000000; sod = secs mod 86400; (y, m, d) = civil_date (secs div 86400);
          two = (\<lambda>n. pad_zeros 2 (decimal n))
      in (if y < 0 then ''-'' else []) @ pad_zeros 4 (decimal \<bar>y\<bar>) @ ''-'' @ two m @ ''-'' @ two d
         @ ''T'' @ two (sod div 3600) @ '':'' @ two (sod div 60 mod 60) @ '':'' @ two (sod mod 60)
         @ ''Z'')"

subsection \<open>Hours of a positive duration\<close>

lemma Hours_nonneg_eq:
  assumes "0 \<le> sint d"
  shows "Hours d =
    round64 (of_int (sint d div 3600000000000) +
      fval (round64 (of_int (sint d mod 3600000000000) / 3600000000000)))"
    and "\<exists>x. round64 (of_int (sint d mod 3600000000000) / 3600000000000) = Fin x
      \<and> 0 \<le> x \<and> x \<le> 1 \<and> rep64 x"
proof -
  let ?h = "sint d div 3600000000000" and ?n = "sint d mod 3600000000000"
  have q: "sint d sdiv 3600000000000 = ?h" and r: "sint d smod 3600000000000 = ?n"
    using assms by (auto simp: signed_divide_int_def signed_modulo_int_def sgn_if)
  have h: "0 \<le> ?h" "?h \<le> 2 ^ 53" using assms sint64_bounds [of d] by auto
  have n: "0 \<le> ?n" "?n < 3600000000000" by auto
  have rh: "round64 (of_int ?h) = Fin (of_int ?h)"
    using h by (intro round64_rep64 rep64_int) auto
  have rn: "round64 (of_int ?n) = Fin (of_int ?n)"
    using n by (intro round64_rep64 rep64_int) auto
  have dv: "fdiv (round64 (of_int ?n)) (Fin 3600000000000) = round64 (of_int ?n / 3600000000000)"
    unfolding rn using n(1) by (intro fdiv_Fin) (auto intro: rep64_numeral)
  have lt1: "(of_int ?n :: rat) / 3600000000000 \<le> 1" and ge0: "(0 :: rat) \<le> of_int ?n / 3600000000000"
    using n by (simp_all add: divide_le_eq)
  have one: "round64 1 = Fin 1" using round64_rep64 [OF rep64_int [of 1]] by simp
  have le: "fle (round64 (of_int ?n / 3600000000000)) (Fin 1)"
    using round64_mono [OF lt1] by (simp only: one)
  have nn: "nonneg64 (round64 (of_int ?n / 3600000000000))" using ge0 by (rule nonneg64_round64)
  have notz: "round64 (of_int ?n / 3600000000000) \<noteq> NegZero"
    using ge0 by (auto simp: round64_def Let_def)
  show ex: "\<exists>x. round64 (of_int ?n / 3600000000000) = Fin x \<and> 0 \<le> x \<and> x \<le> 1 \<and> rep64 x"
    using nn le notz by (elim nonneg64_cases) auto
  show "Hours d = round64 (of_int ?h + fval (round64 (of_int ?n / 3600000000000)))"
    using ex by (auto simp: Hours_def Let_def q r dv rh)
qed

lemma Hours_pos:
  assumes "0 < sint d"
  shows "\<exists>x. Hours d = Fin x \<and> 0 < x \<and> x \<le> 2562048 \<and> rep64 x"
proof -
  let ?h = "sint d div 3600000000000" and ?n = "sint d mod 3600000000000"
  obtain x where x: "round64 (of_int ?n / 3600000000000) = Fin x" "0 \<le> x" "x \<le> 1" "rep64 x"
    using Hours_nonneg_eq(2) [of d] assms by auto
  have eq: "Hours d = round64 (of_int ?h + x)" using Hours_nonneg_eq(1) [of d] assms x by simp
  have h: "0 \<le> ?h" "?h \<le> 2562047" using assms sint64_bounds [of d] by auto
  have up: "of_int ?h + x \<le> 2562048" using h x(3) by linarith
  have big: "round64 2562048 = Fin 2562048"
    using round64_rep64 [OF rep64_numeral] by simp
  have nn: "nonneg64 (Hours d)" unfolding eq using h x by (intro nonneg64_round64) auto
  have le: "fle (Hours d) (Fin 2562048)" unfolding eq using round64_mono [OF up] by (simp only: big)
  have pos: "flt (Fin 0) (Hours d)"
  proof (cases "?h = 0")
    case True
    then have n: "0 < ?n" using assms by (metis mult_zero_right add_0 mult_div_mod_eq)
    have "(1 / 3600000000000 :: rat) \<le> of_int ?n / 3600000000000"
      using n by (simp add: divide_right_mono)
    moreover have "2 powi (- 1074) \<le> (1 / 3600000000000 :: rat)" by simp
    ultimately have "2 powi (- 1074) \<le> (of_int ?n / 3600000000000 :: rat)" by (rule order_trans [rotated])
    then have "2 powi (- 1074) \<le> round_grid (of_int ?n / 3600000000000)" by (rule round_grid_smallest)
    then have "0 < round_grid (of_int ?n / 3600000000000)"
      using powi_two_pos [of "- 1074"] by linarith
    then have "flt (Fin 0) (Fin x)" using round64_pos x(1) by metis
    then show ?thesis using True x(4) by (simp add: eq round64_rep64)
  next
    case False
    then have "1 \<le> of_int ?h + x" using h x(2) by linarith
    then have "fle (Fin 1) (Hours d)"
      using round64_mono [of 1] round64_rep64 [OF rep64_int [of 1]] eq by simp
    then show ?thesis by (cases "Hours d") auto
  qed
  show ?thesis using nn le pos by (elim nonneg64_cases) auto
qed

lemma Hours_mono:
  assumes "0 < sint d" and "sint d \<le> sint d'"
  shows "fle (Hours d) (Hours d')"
proof -
  let ?k = "3600000000000 :: int"
  let ?h = "sint d div ?k" and ?h' = "sint d' div ?k"
  let ?f = "\<lambda>e. fval (round64 (of_int (sint e mod ?k) / 3600000000000))"
  have nn: "0 \<le> sint d" "0 \<le> sint d'" using assms by auto
  have hh: "?h \<le> ?h'" using assms(2) by (intro zdiv_mono1) auto
  have fr: "0 \<le> ?f d" "?f d \<le> 1" "0 \<le> ?f d'" "?f d' \<le> 1"
    using Hours_nonneg_eq(2) [OF nn(1)] Hours_nonneg_eq(2) [OF nn(2)] by auto
  have "of_int ?h + ?f d \<le> of_int ?h' + ?f d'"
  proof (cases "?h = ?h'")
    case True
    then have "sint d mod ?k \<le> sint d' mod ?k"
      using assms(2) by (simp add: minus_div_mult_eq_mod [symmetric])
    then have "(of_int (sint d mod ?k) / 3600000000000 :: rat) \<le> of_int (sint d' mod ?k) / 3600000000000"
      by (simp add: divide_right_mono)
    then have "fle (round64 (of_int (sint d mod ?k) / 3600000000000))
        (round64 (of_int (sint d' mod ?k) / 3600000000000))" by (rule round64_mono)
    then have "?f d \<le> ?f d'"
      using Hours_nonneg_eq(2) [OF nn(1)] Hours_nonneg_eq(2) [OF nn(2)] by auto
    then show ?thesis using True by simp
  next
    case False
    then have "?h + 1 \<le> ?h'" using hh by linarith
    then have "(of_int ?h + 1 :: rat) \<le> of_int ?h'" by linarith
    then show ?thesis using fr by linarith
  qed
  then show ?thesis
    unfolding Hours_nonneg_eq(1) [OF nn(1)] Hours_nonneg_eq(1) [OF nn(2)] by (rule round64_mono)
qed

lemma Hours_whole:
  assumes "sint d = n * 3600000000000" and "0 \<le> n"
  shows "Hours d = Fin (of_int n)"
proof -
  have "n \<le> 2 ^ 53" using assms sint64_bounds [of d] by auto
  then have "round64 (of_int n) = Fin (of_int n)" using assms(2) by (intro round64_rep64 rep64_int) auto
  then show ?thesis using Hours_nonneg_eq(1) [of d] assms by simp
qed

end
