(* ===== verification/K8sApi.thy ===== *)
theory K8sApi
  imports GoTime
begin

text \<open>
  The API types of the repository (\<open>api/v1alpha1\<close>), the parts of the Kubernetes types
  its code reads, and the boundary to code outside the repository: a record of pure library
  functions, a record of calls to the API server and the clocks over an opaque state of the
  outside world, and a log of every call together with its response. The type parameters
  are \<open>'q\<close> for \<open>resource.Quantity\<close>, \<open>'s\<close> for \<open>labels.Selector\<close> and \<open>'w\<close> for the
  outside world.
\<close>

subsection \<open>Budget types (api/v1alpha1/gpuworkloadbudget\_types.go)\<close>

type_synonym labels = "(string, string) fmap"

record label_selector_requirement =
  req_key :: string
  req_operator :: string
  req_values :: "string list"

record label_selector =
  matchLabels :: labels
  matchExpressions :: "label_selector_requirement list"

definition ActionEvict :: string where "ActionEvict = ''Evict''"
definition ActionPause :: string where "ActionPause = ''Pause''"
definition ActionAlertOnly :: string where "ActionAlertOnly = ''AlertOnly''"

definition ConditionReady :: string where "ConditionReady = ''Ready''"
definition ConditionQuotaExceeded :: string where "ConditionQuotaExceeded = ''QuotaExceeded''"
definition ConditionDegraded :: string where "ConditionDegraded = ''Degraded''"

definition ConditionTrue :: string where "ConditionTrue = ''True''"
definition ConditionFalse :: string where "ConditionFalse = ''False''"

lemmas name_defs [go_defs] = ActionEvict_def ActionPause_def ActionAlertOnly_def
  ConditionReady_def ConditionQuotaExceeded_def ConditionDegraded_def
  ConditionTrue_def ConditionFalse_def

lemma names_distinct [simp]:
  "ActionEvict \<noteq> ActionPause" "ActionEvict \<noteq> ActionAlertOnly" "ActionPause \<noteq> ActionAlertOnly"
  "ActionPause \<noteq> ActionEvict" "ActionAlertOnly \<noteq> ActionEvict" "ActionAlertOnly \<noteq> ActionPause"
  "ConditionReady \<noteq> ConditionQuotaExceeded" "ConditionQuotaExceeded \<noteq> ConditionReady"
  "ConditionReady \<noteq> ConditionDegraded" "ConditionDegraded \<noteq> ConditionReady"
  "ConditionQuotaExceeded \<noteq> ConditionDegraded" "ConditionDegraded \<noteq> ConditionQuotaExceeded"
  "ConditionTrue \<noteq> ConditionFalse" "ConditionFalse \<noteq> ConditionTrue"
  by (simp_all add: name_defs)

record 'q quota =
  gpuHours :: 'q
  windowHours :: "32 word"

record enforcement =
  action :: string
  gracePeriodSeconds :: "32 word"

record 'q budget_spec =
  selector :: label_selector
  quota :: "'q quota"
  enforcement :: enforcement
  gpuResourceName :: string

record condition =
  cond_type :: string
  cond_status :: string
  cond_reason :: string
  cond_message :: string
  lastTransitionTime :: gotime

record 'q budget_status =
  consumedGpuHours :: 'q
  remainingGpuHours :: 'q
  trackedPods :: "32 word"
  lastEnforcementAt :: "gotime option"
  observedGeneration :: "64 word"
  conditions :: "condition list"

record 'q budget =
  budget_name :: string
  budget_namespace :: string
  generation :: "64 word"
  deletionTimestamp :: "gotime option"
  finalizers :: "string list"
  spec :: "'q budget_spec"
  status :: "'q budget_status"

subsection \<open>The fields of corev1.Pod that the program reads\<close>

record container_terminated =
  startedAt :: gotime
  finishedAt :: gotime

record container_status =
  state_running :: "gotime option"
  state_terminated :: "container_terminated option"
  last_terminated :: "container_terminated option"

record 'q container =
  requests :: "(string, 'q) fmap"

record 'q pod =
  pod_name :: string
  pod_namespace :: string
  pod_uid :: string
  pod_labels :: labels
  pod_annotations :: labels
  pod_deletionTimestamp :: "gotime option"
  containers :: "'q container list"
  phase :: string
  startTime :: "gotime option"
  containerStatuses :: "container_status list"

subsection \<open>Pure functions of code outside the repository\<close>

text \<open>
  \<open>setStatusCondition now cs c\<close> is \<open>meta.SetStatusCondition\<close> at wall-clock time \<open>now\<close>.
  \<open>int64OutOfRange\<close> is the value the Go implementation gives a conversion to \<open>int64\<close> of
  a float that does not fit.
\<close>

record ('q, 's) k8s =
  asApproximateFloat64 :: "'q \<Rightarrow> float64"
  quantitySign :: "'q \<Rightarrow> int"
  quantityString :: "'q \<Rightarrow> string"
  newMilliQuantity :: "64 word \<Rightarrow> 'q"
  labelSelectorAsSelector :: "label_selector \<Rightarrow> goerr + 's"
  selectorMatches :: "'s \<Rightarrow> labels \<Rightarrow> bool"
  containsFinalizer :: "string list \<Rightarrow> string \<Rightarrow> bool"
  addFinalizer :: "string list \<Rightarrow> string \<Rightarrow> string list"
  removeFinalizer :: "string list \<Rightarrow> string \<Rightarrow> string list"
  setStatusCondition :: "gotime \<Rightarrow> condition list \<Rightarrow> condition \<Rightarrow> condition list"
  findStatusCondition :: "condition list \<Rightarrow> string \<Rightarrow> condition option"
  isNotFound :: "goerr \<Rightarrow> bool"
  isTooManyRequests :: "goerr \<Rightarrow> bool"
  int64OutOfRange :: "float64 \<Rightarrow> 64 word"

subsection \<open>Calls to the outside world, and the log of them\<close>

text \<open>Each entry holds the arguments of the call and what came back.\<close>

datatype ('q, 's) call =
    GetBudget string string "goerr + 'q budget"
  | UpdateBudget "'q budget" "goerr + 'q budget"
  | PatchStatus "'q budget" "'q budget" "goerr + 'q budget"
  | ListPods string 's "goerr + 'q pod list"
  | ListBudgets string "goerr + 'q budget list"
  | PatchPod "'q pod" "'q pod" "goerr + 'q pod"
  | EvictPod string string "64 word" "goerr option"
  | RecordEvent string string string string string
  | GaugeSet string "string list" float64
  | CounterInc string "string list"
  | DeleteLabelValues string "string list"
  | ReadClock gotime

record ('q, 's, 'w) api =
  getBudget :: "string \<Rightarrow> string \<Rightarrow> 'w \<Rightarrow> (goerr + 'q budget) \<times> 'w"
  updateBudget :: "'q budget \<Rightarrow> 'w \<Rightarrow> (goerr + 'q budget) \<times> 'w"
  patchStatus :: "'q budget \<Rightarrow> 'q budget \<Rightarrow> 'w \<Rightarrow> (goerr + 'q budget) \<times> 'w"
  listPods :: "string \<Rightarrow> 's \<Rightarrow> 'w \<Rightarrow> (goerr + 'q pod list) \<times> 'w"
  listBudgets :: "string \<Rightarrow> 'w \<Rightarrow> (goerr + 'q budget list) \<times> 'w"
  patchPod :: "'q pod \<Rightarrow> 'q pod \<Rightarrow> 'w \<Rightarrow> (goerr + 'q pod) \<times> 'w"
  evict :: "string \<Rightarrow> string \<Rightarrow> 64 word \<Rightarrow> 'w \<Rightarrow> goerr option \<times> 'w"
  clock :: "('w \<Rightarrow> gotime \<times> 'w) option"
  wallClock :: "'w \<Rightarrow> gotime \<times> 'w"

record ('q, 's, 'w) world =
  env :: 'w
  log :: "('q, 's) call list"

type_synonym ('q, 's, 'w, 'a) io = "(('q, 's, 'w) world, 'a) state"

definition perform :: "('a \<Rightarrow> ('q, 's) call) \<Rightarrow> ('w \<Rightarrow> 'a \<times> 'w) \<Rightarrow> ('q, 's, 'w, 'a) io" where
  "perform entry f = State (\<lambda>w. case f (env w) of (r, e) \<Rightarrow>
     (r, w\<lparr>env := e, log := log w @ [entry r]\<rparr>))"

definition emit :: "('q, 's) call \<Rightarrow> ('q, 's, 'w, unit) io" where
  "emit c = perform (\<lambda>_. c) (Pair ())"

definition do_get :: "('q, 's, 'w) api \<Rightarrow> string \<Rightarrow> string \<Rightarrow> ('q, 's, 'w, goerr + 'q budget) io" where
  "do_get A ns n = perform (GetBudget ns n) (getBudget A ns n)"

definition do_update :: "('q, 's, 'w) api \<Rightarrow> 'q budget \<Rightarrow> ('q, 's, 'w, goerr + 'q budget) io" where
  "do_update A b = perform (UpdateBudget b) (updateBudget A b)"

definition do_patch_status ::
    "('q, 's, 'w) api \<Rightarrow> 'q budget \<Rightarrow> 'q budget \<Rightarrow> ('q, 's, 'w, goerr + 'q budget) io" where
  "do_patch_status A base b = perform (PatchStatus base b) (patchStatus A base b)"

definition do_list_pods ::
    "('q, 's, 'w) api \<Rightarrow> string \<Rightarrow> 's \<Rightarrow> ('q, 's, 'w, goerr + 'q pod list) io" where
  "do_list_pods A ns sel = perform (ListPods ns sel) (listPods A ns sel)"

definition do_list_budgets ::
    "('q, 's, 'w) api \<Rightarrow> string \<Rightarrow> ('q, 's, 'w, goerr + 'q budget list) io" where
  "do_list_budgets A ns = perform (ListBudgets ns) (listBudgets A ns)"

definition do_patch_pod ::
    "('q, 's, 'w) api \<Rightarrow> 'q pod \<Rightarrow> 'q pod \<Rightarrow> ('q, 's, 'w, goerr + 'q pod) io" where
  "do_patch_pod A base p = perform (PatchPod base p) (patchPod A base p)"

definition do_evict ::
    "('q, 's, 'w) api \<Rightarrow> string \<Rightarrow> string \<Rightarrow> 64 word \<Rightarrow> ('q, 's, 'w, goerr option) io" where
  "do_evict A ns n grace = perform (EvictPod ns n grace) (evict A ns n grace)"

text \<open>The wall clock that library code reads on its own; the program does not see it.\<close>

definition do_wall :: "('q, 's, 'w) api \<Rightarrow> ('q, 's, 'w, gotime) io" where
  "do_wall A = State (\<lambda>w. case wallClock A (env w) of (t, e) \<Rightarrow> (t, w\<lparr>env := e\<rparr>))"

lemmas io_defs = emit_def do_get_def do_update_def do_patch_status_def do_list_pods_def
  do_list_budgets_def do_patch_pod_def do_evict_def

subsection \<open>Trace specifications\<close>

text \<open>
  \<open>emits m Q\<close>: in every world, whatever the outside answers, the run of \<open>m\<close> appends to
  the log a list of calls that stands in relation \<open>Q\<close> to the result.
\<close>

definition emits :: "('q, 's, 'w, 'a) io \<Rightarrow> ('a \<Rightarrow> ('q, 's) call list \<Rightarrow> bool) \<Rightarrow> bool" where
  "emits m Q \<longleftrightarrow> (\<forall>w. \<exists>cs. log (snd (run_state m w)) = log w @ cs \<and> Q (fst (run_state m w)) cs)"

lemma emits_conseq: "emits m R \<Longrightarrow> (\<And>x cs. R x cs \<Longrightarrow> Q x cs) \<Longrightarrow> emits m Q"
  unfolding emits_def by blast

lemma emits_conj: "emits m P \<Longrightarrow> emits m Q \<Longrightarrow> emits m (\<lambda>x cs. P x cs \<and> Q x cs)"
  unfolding emits_def by (metis same_append_eq)

lemma emits_return: "Q x [] \<Longrightarrow> emits (State_Monad.return x) Q"
  by (simp add: emits_def)

lemma emits_bind:
  assumes "emits m (\<lambda>x cs. emits (f x) (\<lambda>y ds. Q y (cs @ ds)))"
  shows "emits (State_Monad.bind m f) Q"
  unfolding emits_def
proof
  fix w
  obtain x w1 where m: "run_state m w = (x, w1)" by force
  obtain y w2 where f: "run_state (f x) w1 = (y, w2)" by force
  from assms m obtain cs where cs: "log w1 = log w @ cs" "emits (f x) (\<lambda>y ds. Q y (cs @ ds))"
    unfolding emits_def by (metis fst_conv snd_conv)
  from cs(2) f obtain ds where "log w2 = log w1 @ ds" "Q y (cs @ ds)"
    unfolding emits_def by (metis fst_conv snd_conv)
  with cs(1) m f show "\<exists>cs. log (snd (run_state (State_Monad.bind m f) w)) = log w @ cs \<and>
      Q (fst (run_state (State_Monad.bind m f) w)) cs" by auto
qed

lemma emits_perform: "(\<And>r. Q r [entry r]) \<Longrightarrow> emits (perform entry f) Q"
  by (simp add: emits_def perform_def split: prod.splits)

lemma emits_wall: "(\<And>t. Q t []) \<Longrightarrow> emits (do_wall A) Q"
  by (simp add: emits_def do_wall_def split: prod.splits)

lemma emits_emit: "Q () [c] \<Longrightarrow> emits (emit c) Q"
  unfolding emit_def by (rule emits_perform) simp

lemma emits_if: "(b \<Longrightarrow> emits m Q) \<Longrightarrow> (\<not> b \<Longrightarrow> emits n Q) \<Longrightarrow> emits (if b then m else n) Q"
  by simp

lemma emits_sum:
  "(\<And>e. r = Inl e \<Longrightarrow> emits (f e) Q) \<Longrightarrow> (\<And>x. r = Inr x \<Longrightarrow> emits (g x) Q) \<Longrightarrow>
    emits (case r of Inl e \<Rightarrow> f e | Inr x \<Rightarrow> g x) Q"
  by (cases r) auto

lemma emits_option:
  "(r = None \<Longrightarrow> emits f Q) \<Longrightarrow> (\<And>x. r = Some x \<Longrightarrow> emits (g x) Q) \<Longrightarrow>
    emits (case r of None \<Rightarrow> f | Some x \<Rightarrow> g x) Q"
  by (cases r) auto

lemma emits_run:
  assumes "emits m Q" and "run_state m w = (x, w')"
  obtains cs where "log w' = log w @ cs" and "Q x cs"
  using assms unfolding emits_def by (metis fst_conv snd_conv)

lemmas emits_rules = emits_return emits_bind emits_emit emits_perform emits_wall emits_if emits_sum
  emits_option

end
