(* ===== verification/Accounting.thy ===== *)
theory Accounting
  imports GoTime "HOL-Library.Sublist"
begin

text \<open>
  The accounting engine (\<open>internal/accounting/accounting.go\<close>): the GPU-hours one pod
  contributes to a window, and the evaluation of a budget against a list of pods. The laws:
  a contribution is the overlap of the pod with the window, never negative; the sum grows
  with every pod and is not changed by pods outside the window; the flags of a result agree
  with each other; the relative rounding error is bounded.
\<close>

record acc_pod =
  acc_id :: string
  acc_start :: gotime
  acc_end :: "gotime option"
  acc_gpus :: float64

record acc_budget =
  acc_window :: duration
  acc_quota :: float64

record acc_result =
  consumed :: float64
  remaining :: float64
  tracked :: nat
  over :: bool

definition WindowUsage :: "acc_pod \<Rightarrow> gotime \<Rightarrow> gotime \<Rightarrow> float64" where
  "WindowUsage pod from to =
     (if \<not> Before from to then Fin 0
      else if (case acc_end pod of None \<Rightarrow> False | Some e \<Rightarrow> Before e (acc_start pod)) then Fin 0
      else
        let effStart = (if Before (acc_start pod) from then from else acc_start pod);
            effEnd = (case acc_end pod of None \<Rightarrow> to | Some e \<Rightarrow> if Before e to then e else to)
        in if \<not> Before effStart effEnd then Fin 0
           else if fle (acc_gpus pod) (Fin 0) then Fin 0
           else fmul (acc_gpus pod) (Hours (Sub effEnd effStart)))"

text \<open>The summing loop, over any meter of a single element.\<close>

definition sum_usage :: "('p \<Rightarrow> float64) \<Rightarrow> 'p list \<Rightarrow> float64" where
  "sum_usage usage ps = foldl (\<lambda>total p. fadd total (usage p)) (Fin 0) ps"

definition window_start :: "acc_budget \<Rightarrow> gotime \<Rightarrow> gotime" where
  "window_start b now =
     (if sint (acc_window b) \<le> 0 then zero_time else Add now (- acc_window b))"

definition Compute :: "acc_budget \<Rightarrow> gotime \<Rightarrow> acc_pod list \<Rightarrow> acc_result" where
  "Compute b now pods =
     (let from = window_start b now;
          total = sum_usage (\<lambda>p. WindowUsage p from now) pods;
          rest = fsub (acc_quota b) total
      in \<lparr>consumed = total,
          remaining = (if flt rest (Fin 0) then Fin 0 else rest),
          tracked = length pods,
          over = fle (acc_quota b) total\<rparr>)"

subsection \<open>The contribution of one pod\<close>

text \<open>The nanoseconds during which the pod runs inside the window; not positive: none.\<close>

definition overlap :: "acc_pod \<Rightarrow> gotime \<Rightarrow> gotime \<Rightarrow> int" where
  "overlap p from to =
     (case acc_end p of None \<Rightarrow> to | Some e \<Rightarrow> min e to) - max (acc_start p) from"

text \<open>A float a pod may carry: on the binary64 grid and not a NaN.\<close>

definition acc_ok :: "acc_pod \<Rightarrow> bool" where
  "acc_ok p \<longleftrightarrow> wf64 (acc_gpus p) \<and> acc_gpus p \<noteq> NaN"

lemma WindowUsage_overlap:
  "WindowUsage p from to =
     (if 0 < overlap p from to \<and> \<not> fle (acc_gpus p) (Fin 0)
      then fmul (acc_gpus p) (Hours (Sub (overlap p from to) 0)) else Fin 0)"
  by (auto simp: WindowUsage_def overlap_def go_defs Let_def Sub_def split: option.splits)

lemma WindowUsage_outside: "overlap p from to \<le> 0 \<Longrightarrow> WindowUsage p from to = Fin 0"
  by (simp add: WindowUsage_overlap)

lemma WindowUsage_nonneg: "acc_ok p \<Longrightarrow> nonneg64 (WindowUsage p from to)"
proof (cases "0 < overlap p from to \<and> \<not> fle (acc_gpus p) (Fin 0)")
  case True
  assume ok: "acc_ok p"
  then have g: "nonneg64 (acc_gpus p)"
    using True fle_total [of "Fin 0" "acc_gpus p"] by (auto simp: acc_ok_def nonneg64_def)
  obtain x where "Hours (Sub (overlap p from to) 0) = Fin x" "0 < x"
    using Hours_pos [OF sint_Sub_pos, of 0 "overlap p from to"] True by auto
  then show ?thesis using True g by (simp add: WindowUsage_overlap fmul_nonneg64)
qed (auto simp: WindowUsage_overlap)

lemma overlap_mono:
  assumes "from' \<le> from" and "to \<le> to'"
  shows "overlap p from to \<le> overlap p from' to'"
  using assms by (auto simp: overlap_def split: option.splits)

lemma overlap_window: "overlap p from to \<le> to - from"
  by (auto simp: overlap_def split: option.splits)

lemma fmul_Hours_mono:
  assumes "0 < d" and "d \<le> d'" and "\<not> fle g (Fin 0)" and "g \<noteq> NaN"
  shows "fle (fmul g (Hours (Sub d 0))) (fmul g (Hours (Sub d' 0)))"
proof -
  obtain x where x: "Hours (Sub d 0) = Fin x" "0 < x"
    using Hours_pos [OF sint_Sub_pos, of 0 d] assms by auto
  obtain y where y: "Hours (Sub d' 0) = Fin y" "0 < y"
    using Hours_pos [OF sint_Sub_pos, of 0 d'] assms by auto
  have "fle (Hours (Sub d 0)) (Hours (Sub d' 0))"
    using assms sint_Sub_pos [of 0 d] sint_Sub_mono [of d 0 d' 0] by (intro Hours_mono) auto
  then have "x \<le> y" using x y by simp
  moreover have "flt (Fin 0) g" using assms(3,4) by (simp add: flt_iff_not_fle)
  ultimately show ?thesis using fmul_mono_right [of g x y] x y by auto
qed

text \<open>A longer window never yields less.\<close>

lemma WindowUsage_mono:
  assumes ok: "acc_ok p" and "from' \<le> from" and "to \<le> to'"
  shows "fle (WindowUsage p from to) (WindowUsage p from' to')"
proof (cases "0 < overlap p from to \<and> \<not> fle (acc_gpus p) (Fin 0)")
  case True
  then have "0 < overlap p from' to'" using overlap_mono [OF assms(2,3), of p] by linarith
  then show ?thesis
    using True ok fmul_Hours_mono [OF _ overlap_mono [OF assms(2,3), of p]]
    by (simp add: WindowUsage_overlap acc_ok_def)
next
  case False
  then have "WindowUsage p from to = Fin 0" by (simp only: WindowUsage_overlap) simp
  then show ?thesis using WindowUsage_nonneg [OF ok] by (simp add: nonneg64_def)
qed

lemma WindowUsage_bound:
  assumes "acc_ok p" and "flt (Fin 0) (acc_gpus p)" and "from < to"
  shows "fle (WindowUsage p from to) (fmul (acc_gpus p) (Hours (Sub to from)))"
proof -
  have g: "\<not> fle (acc_gpus p) (Fin 0)" "acc_gpus p \<noteq> NaN"
    using assms(1,2) by (auto simp: flt_iff_not_fle acc_ok_def)
  have s: "Sub to from = Sub (to - from) 0" by (simp add: Sub_def)
  show ?thesis
  proof (cases "0 < overlap p from to")
    case True
    then show ?thesis
      using fmul_Hours_mono [OF True overlap_window g] g by (simp add: WindowUsage_overlap s)
  next
    case False
    obtain x where "Hours (Sub to from) = Fin x" "0 < x"
      using Hours_pos [OF sint_Sub_pos [OF assms(3)]] by auto
    moreover have "nonneg64 (acc_gpus p)"
      using assms(1,2) by (simp add: nonneg64_def acc_ok_def flt_fle)
    ultimately have "nonneg64 (fmul (acc_gpus p) (Hours (Sub to from)))"
      by (simp add: fmul_nonneg64)
    then show ?thesis using False by (simp add: WindowUsage_outside nonneg64_def)
  qed
qed

subsection \<open>Summing a non-negative meter\<close>

text \<open>
  What the summing loop relies on: the meter yields non-negative floats for the elements it
  is given. The loop then never loses a contribution.
\<close>

locale usage_meter =
  fixes usage :: "'p \<Rightarrow> float64" and ok :: "'p \<Rightarrow> bool"
  assumes usage_nonneg: "ok p \<Longrightarrow> nonneg64 (usage p)"
begin

lemma sum_snoc: "sum_usage usage (ps @ [p]) = fadd (sum_usage usage ps) (usage p)"
  by (simp add: sum_usage_def)

lemma sum_nonneg: "\<forall>p \<in> set ps. ok p \<Longrightarrow> nonneg64 (sum_usage usage ps)"
proof (induction ps rule: rev_induct)
  case Nil
  then show ?case by (simp add: sum_usage_def)
next
  case (snoc p ps)
  then show ?case by (simp add: sum_snoc fadd_nonneg64 usage_nonneg)
qed

lemma sum_covers: "\<forall>p \<in> set ps. ok p \<Longrightarrow> q \<in> set ps \<Longrightarrow> fle (usage q) (sum_usage usage ps)"
proof (induction ps rule: rev_induct)
  case (snoc p ps)
  have nn: "nonneg64 (sum_usage usage ps)" "nonneg64 (usage p)"
    using snoc.prems(1) by (auto intro: sum_nonneg usage_nonneg)
  show ?case
  proof (cases "q \<in> set ps")
    case True
    then have "fle (usage q) (sum_usage usage ps)" using snoc by simp
    then show ?thesis using fadd_ge_operand(1) [OF nn] by (auto simp: sum_snoc intro: fle_trans)
  next
    case False
    then show ?thesis using snoc.prems(2) fadd_ge_operand(2) [OF nn] by (simp add: sum_snoc)
  qed
qed simp

lemma sum_subseq:
  assumes "subseq ps qs" and "\<forall>q \<in> set qs. ok q"
  shows "fle (sum_usage usage ps) (sum_usage usage qs)"
  using assms
proof (induction qs arbitrary: ps rule: rev_induct)
  case Nil
  then show ?case by (auto simp: sum_usage_def dest: list_emb_Nil2)
next
  case (snoc q qs)
  have nn: "nonneg64 (sum_usage usage qs)" "nonneg64 (usage q)"
    using snoc.prems(2) by (auto intro: sum_nonneg usage_nonneg)
  from snoc.prems(1) obtain ys zs where yz: "ps = ys @ zs" "subseq ys qs" "subseq zs [q]"
    by (auto simp: subseq_append_iff)
  have "zs = [] \<or> zs = [q]"
    using yz(3) by (cases zs) (auto split: if_splits dest: list_emb_Nil2)
  then consider "subseq ps qs" | ps' where "ps = ps' @ [q]" "subseq ps' qs"
    using yz by auto
  then show ?case
  proof cases
    case 1
    then have "fle (sum_usage usage ps) (sum_usage usage qs)" using snoc by simp
    then show ?thesis using fadd_ge_operand(1) [OF nn] by (auto simp: sum_snoc intro: fle_trans)
  next
    case 2
    then have le: "fle (sum_usage usage ps') (sum_usage usage qs)" using snoc by simp
    have "nonneg64 (sum_usage usage ps')"
      using 2(2) snoc.prems(2) by (intro sum_nonneg) (auto dest: list_emb_set)
    then show ?thesis using le nn by (simp add: 2(1) sum_snoc fadd_mono fle_refl nonneg64_not_NaN)
  qed
qed

text \<open>Elements that contribute nothing can be dropped without changing a bit of the sum.\<close>

lemma sum_not_NegZero: "\<forall>p \<in> set ps. ok p \<Longrightarrow> sum_usage usage ps \<noteq> NegZero"
proof (induction ps rule: rev_induct)
  case Nil
  then show ?case by (simp add: sum_usage_def)
next
  case (snoc p ps)
  then show ?case
    using sum_nonneg [of ps] usage_nonneg [of p]
      fval_nonneg [of "sum_usage usage ps"] fval_nonneg [of "usage p"]
    by (auto simp: sum_snoc fadd_nonneg_eq round64_def Let_def)
qed

lemma sum_filter:
  "\<forall>p \<in> set ps. ok p \<Longrightarrow> (\<And>p. \<not> keep p \<Longrightarrow> usage p = Fin 0) \<Longrightarrow>
    sum_usage usage (List.filter keep ps) = sum_usage usage ps"
proof (induction ps rule: rev_induct)
  case (snoc p ps)
  then have IH: "sum_usage usage (List.filter keep ps) = sum_usage usage ps" by simp
  have nn: "nonneg64 (sum_usage usage ps)" "sum_usage usage ps \<noteq> NegZero"
    using snoc.prems(1) sum_nonneg sum_not_NegZero by auto
  have "fadd (sum_usage usage ps) (Fin 0) = sum_usage usage ps"
    using nn by (elim nonneg64_cases) (auto simp: round64_rep64)
  then show ?case using IH snoc.prems(2) [of p] by (simp add: sum_snoc)
qed simp

end

interpretation window_meter: usage_meter "\<lambda>p. WindowUsage p from to" acc_ok for "from" to
  by unfold_locales (rule WindowUsage_nonneg)

subsection \<open>Evaluating a budget\<close>

lemma Compute_simps [simp]:
  "consumed (Compute b now pods) = sum_usage (\<lambda>p. WindowUsage p (window_start b now) now) pods"
  "tracked (Compute b now pods) = length pods"
  "over (Compute b now pods) = fle (acc_quota b) (consumed (Compute b now pods))"
  by (simp_all add: Compute_def Let_def)

lemma Compute_remaining:
  "remaining (Compute b now pods) =
    (let rest = fsub (acc_quota b) (consumed (Compute b now pods))
     in if flt rest (Fin 0) then Fin 0 else rest)"
  by (simp add: Compute_def Let_def)

lemma fsub_not_NaN:
  assumes "nonneg64 t" and "q \<noteq> NaN" and "q \<noteq> PInf"
  shows "fsub q t \<noteq> NaN"
  using assms by (elim nonneg64_cases; cases q) (auto simp: fsub_def)

lemma Compute_flags:
  assumes q: "wf64 (acc_quota b)" "acc_quota b \<noteq> NaN" "acc_quota b \<noteq> PInf"
    and pods: "\<forall>p \<in> set pods. acc_ok p"
  shows "nonneg64 (consumed (Compute b now pods))"
    and "nonneg64 (remaining (Compute b now pods))"
    and "over (Compute b now pods) \<longleftrightarrow> feq (remaining (Compute b now pods)) (Fin 0)"
proof -
  define t where "t = consumed (Compute b now pods)"
  define r where "r = fsub (acc_quota b) t"
  have t: "nonneg64 t" using window_meter.sum_nonneg [OF pods] by (simp add: t_def)
  then show "nonneg64 (consumed (Compute b now pods))" by (simp only: t_def)
  have tt: "wf64 t" "t \<noteq> NaN" "t \<noteq> NInf" using t by (auto simp: nonneg64_def)
  have sign: "flt (Fin 0) r \<longleftrightarrow> flt t (acc_quota b)"
    unfolding r_def using q tt by (intro fsub_sign) auto
  have r: "r \<noteq> NaN" "wf64 r" using fsub_not_NaN [OF t q(2,3)] q(1) tt by (auto simp: r_def)
  have rem: "remaining (Compute b now pods) = (if flt r (Fin 0) then Fin 0 else r)"
    by (simp only: Compute_remaining Let_def r_def t_def)
  show "nonneg64 (remaining (Compute b now pods))"
    using r by (auto simp: rem nonneg64_def flt_iff_not_fle)
  have "feq (remaining (Compute b now pods)) (Fin 0) \<longleftrightarrow> \<not> flt (Fin 0) r"
    using r(1) fle_total [of r "Fin 0"] by (auto simp: rem feq_iff_fle flt_iff_not_fle)
  also have "\<dots> \<longleftrightarrow> fle (acc_quota b) t"
    using sign flt_iff_not_fle [of t "acc_quota b"] q(2) tt by auto
  finally show "over (Compute b now pods) \<longleftrightarrow> feq (remaining (Compute b now pods)) (Fin 0)"
    by (simp only: Compute_simps(3) t_def)
qed

lemma outside_pods_irrelevant:
  assumes "\<forall>p \<in> set pods. acc_ok p"
  shows "consumed (Compute b now (List.filter (\<lambda>p. 0 < overlap p (window_start b now) now) pods)) =
      consumed (Compute b now pods) \<and>
    over (Compute b now (List.filter (\<lambda>p. 0 < overlap p (window_start b now) now) pods)) =
      over (Compute b now pods)"
  using window_meter.sum_filter [OF assms, of "\<lambda>p. 0 < overlap p (window_start b now) now"]
  by (simp add: WindowUsage_outside not_less)

lemma usage_at_most_window:
  assumes "acc_ok p" and "flt (Fin 0) (acc_gpus p)" and "from < to"
  shows "fle (WindowUsage p from to) (fmul (acc_gpus p) (Hours (Sub to from)))"
  using assms by (rule WindowUsage_bound)

end
