(* ===== verification/PodConversion.thy ===== *)
theory PodConversion
  imports K8sApi Accounting
begin

text \<open>
  Translating a pod to the input of the accounting engine
  (\<open>internal/controller/pod_conversion.go\<close>). The loops keep the source's flag-and-value
  pairs; the lemmas show that they compute the least observed start and the greatest
  observed finish.
\<close>

subsection \<open>Definitions\<close>

definition gpuRequestTotal :: "('q, 's) k8s \<Rightarrow> 'q pod \<Rightarrow> string \<Rightarrow> float64" where
  "gpuRequestTotal L p name =
     foldl (\<lambda>total c. case fmlookup (requests c) name of
              None \<Rightarrow> total
            | Some q \<Rightarrow> fadd total (asApproximateFloat64 L q))
       (Fin 0) (containers p)"

text \<open>The closure \<open>observe\<close> over the variables \<open>earliest\<close> and \<open>found\<close>.\<close>

fun observe :: "gotime \<times> bool \<Rightarrow> gotime \<Rightarrow> gotime \<times> bool" where
  "observe (earliest, found) t =
     (if IsZero t then (earliest, found)
      else if \<not> found \<or> Before t earliest then (t, True)
      else (earliest, found))"

definition observe_status :: "gotime \<times> bool \<Rightarrow> container_status \<Rightarrow> gotime \<times> bool" where
  "observe_status st s =
     (let st1 = (case state_running s of None \<Rightarrow> st | Some t \<Rightarrow> observe st t);
          st2 = (case state_terminated s of None \<Rightarrow> st1 | Some c \<Rightarrow> observe st1 (startedAt c))
      in case last_terminated s of None \<Rightarrow> st2 | Some c \<Rightarrow> observe st2 (startedAt c))"

definition earliestContainerStart :: "'q pod \<Rightarrow> gotime option" where
  "earliestContainerStart p =
     (let (earliest, found) = foldl observe_status (zero_time, False) (containerStatuses p)
      in if found then Some earliest else startTime p)"

definition PodSucceeded :: string where "PodSucceeded = ''Succeeded''"
definition PodFailed :: string where "PodFailed = ''Failed''"

definition observe_finish :: "gotime \<times> bool \<Rightarrow> container_status \<Rightarrow> gotime \<times> bool" where
  "observe_finish st s =
     (case state_terminated s of
        None \<Rightarrow> st
      | Some c \<Rightarrow>
          if IsZero (finishedAt c) then st
          else if \<not> snd st \<or> After (finishedAt c) (fst st) then (finishedAt c, True)
          else st)"

definition podEnd :: "'q pod \<Rightarrow> gotime option" where
  "podEnd p =
     (if phase p \<noteq> PodSucceeded \<and> phase p \<noteq> PodFailed then None
      else let (latest, found) = foldl observe_finish (zero_time, False) (containerStatuses p)
        in if found then Some latest else pod_deletionTimestamp p)"

definition podToAccounting :: "('q, 's) k8s \<Rightarrow> 'q pod \<Rightarrow> string \<Rightarrow> acc_pod option" where
  "podToAccounting L p name =
     (let gpus = gpuRequestTotal L p name
      in if fle gpus (Fin 0) then None
         else case earliestContainerStart p of
             None \<Rightarrow> None
           | Some start \<Rightarrow> Some \<lparr>acc_id = pod_uid p, acc_start = start,
               acc_end = podEnd p, acc_gpus = gpus\<rparr>)"

subsection \<open>The observed instants\<close>

definition starts_of :: "container_status \<Rightarrow> gotime list" where
  "starts_of s =
     (case state_running s of None \<Rightarrow> [] | Some t \<Rightarrow> [t]) @
     (case state_terminated s of None \<Rightarrow> [] | Some c \<Rightarrow> [startedAt c]) @
     (case last_terminated s of None \<Rightarrow> [] | Some c \<Rightarrow> [startedAt c])"

definition observed_starts :: "'q pod \<Rightarrow> gotime list" where
  "observed_starts p = List.filter (\<lambda>t. t \<noteq> 0) (concat (map starts_of (containerStatuses p)))"

definition observed_finishes :: "'q pod \<Rightarrow> gotime list" where
  "observed_finishes p =
     List.filter (\<lambda>t. t \<noteq> 0) (map finishedAt (List.map_filter state_terminated (containerStatuses p)))"

text \<open>The pair of the loop and the optional best of the scan.\<close>

definition found_pair :: "gotime option \<Rightarrow> gotime \<times> bool" where
  "found_pair x = (case x of None \<Rightarrow> (zero_time, False) | Some t \<Rightarrow> (t, True))"

lemma observe_found:
  "observe (found_pair x) t = found_pair (if t = 0 then x else scan_step (<) x t)"
  by (auto simp: found_pair_def scan_step_def go_defs split: option.splits)

lemma foldl_observe:
  "foldl observe (found_pair x) ts = found_pair (foldl (scan_step (<)) x (List.filter (\<lambda>t. t \<noteq> 0) ts))"
  by (induction ts arbitrary: x) (auto simp: observe_found simp del: observe.simps)

lemma observe_status_starts: "observe_status st s = foldl observe st (starts_of s)"
  by (auto simp: observe_status_def starts_of_def Let_def split: option.splits)

lemma foldl_observe_status: "foldl observe_status st ss = foldl observe st (concat (map starts_of ss))"
  by (induction ss arbitrary: st) (auto simp: observe_status_starts)

lemma earliestContainerStart_scan:
  "earliestContainerStart p =
    (case scan (<) (observed_starts p) of None \<Rightarrow> startTime p | Some t \<Rightarrow> Some t)"
proof -
  have "foldl observe_status (zero_time, False) (containerStatuses p) =
      found_pair (scan (<) (observed_starts p))"
    using foldl_observe [of None "concat (map starts_of (containerStatuses p))"]
    by (simp add: foldl_observe_status found_pair_def scan_def observed_starts_def)
  then show ?thesis
    by (auto simp: earliestContainerStart_def found_pair_def split: option.splits)
qed

lemma observe_finish_found:
  "observe_finish (found_pair x) s =
    found_pair (foldl (scan_step (>)) x
      (List.filter (\<lambda>t. t \<noteq> 0) (map finishedAt (List.map_filter state_terminated [s]))))"
  by (auto simp: observe_finish_def found_pair_def scan_step_def go_defs
      split: option.splits)

lemma foldl_observe_finish:
  "foldl observe_finish (found_pair x) ss =
    found_pair (foldl (scan_step (>)) x
      (List.filter (\<lambda>t. t \<noteq> 0) (map finishedAt (List.map_filter state_terminated ss))))"
proof (induction ss arbitrary: x)
  case (Cons s ss)
  then show ?case
    by (simp add: observe_finish_found split: option.splits)
qed simp

lemma podEnd_scan:
  "podEnd p =
    (if phase p \<noteq> PodSucceeded \<and> phase p \<noteq> PodFailed then None
     else case scan (>) (observed_finishes p) of
         None \<Rightarrow> pod_deletionTimestamp p | Some t \<Rightarrow> Some t)"
  using foldl_observe_finish [of None "containerStatuses p"]
  by (auto simp: podEnd_def found_pair_def scan_def observed_finishes_def split: option.splits)

subsection \<open>GPU requests\<close>

text \<open>
  What the API server guarantees of a pod's requests: no negative quantity, and the library
  converts it to a float that is not a NaN.
\<close>

definition requests_ok :: "('q, 's) k8s \<Rightarrow> 'q pod \<Rightarrow> bool" where
  "requests_ok L p \<longleftrightarrow>
     (\<forall>c \<in> set (containers p). \<forall>name q. fmlookup (requests c) name = Some q \<longrightarrow>
        nonneg64 (asApproximateFloat64 L q))"

lemma gpuRequestTotal_nonneg:
  assumes "requests_ok L p"
  shows "nonneg64 (gpuRequestTotal L p name)"
proof -
  have "nonneg64 (foldl (\<lambda>total c. case fmlookup (requests c) name of None \<Rightarrow> total
      | Some q \<Rightarrow> fadd total (asApproximateFloat64 L q)) t cs)"
    if "nonneg64 t" "set cs \<subseteq> set (containers p)" for t cs
    using that
  proof (induction cs arbitrary: t)
    case (Cons c cs)
    then show ?case using assms
      by (auto simp: requests_ok_def fadd_nonneg64 split: option.splits)
  qed simp
  then show ?thesis by (simp add: gpuRequestTotal_def)
qed

lemma podToAccounting_Some:
  assumes "podToAccounting L p name = Some a"
  shows "acc_gpus a = gpuRequestTotal L p name" and "\<not> fle (gpuRequestTotal L p name) (Fin 0)"
    and "earliestContainerStart p = Some (acc_start a)" and "acc_end a = podEnd p"
    and "acc_id a = pod_uid p"
  using assms by (auto simp: podToAccounting_def Let_def split: if_splits option.splits)

lemma podToAccounting_ok:
  assumes "requests_ok L p" and "podToAccounting L p name = Some a"
  shows "acc_ok a" and "flt (Fin 0) (acc_gpus a)"
  using gpuRequestTotal_nonneg [OF assms(1), of name] podToAccounting_Some [OF assms(2)]
  by (auto simp: acc_ok_def nonneg64_def flt_iff_not_fle fle_not_NaN)

lemma gpuRequestTotal_missing:
  "(\<And>c. c \<in> set (containers p) \<Longrightarrow> fmlookup (requests c) name = None) \<Longrightarrow>
    gpuRequestTotal L p name = Fin 0"
proof -
  assume a: "\<And>c. c \<in> set (containers p) \<Longrightarrow> fmlookup (requests c) name = None"
  have "foldl (\<lambda>total c. case fmlookup (requests c) name of None \<Rightarrow> total
      | Some q \<Rightarrow> fadd total (asApproximateFloat64 L q)) t cs = t"
    if "set cs \<subseteq> set (containers p)" for t cs
    using that a by (induction cs) auto
  then show ?thesis by (simp add: gpuRequestTotal_def)
qed

lemma start_is_earliest:
  "earliestContainerStart p =
     (if observed_starts p = [] then startTime p else Some (Min (set (observed_starts p))))"
  by (auto simp: earliestContainerStart_scan split: option.splits
      intro!: Min_eqI [symmetric] dest: scan_less_Some)

lemma end_is_latest:
  "podEnd p =
     (if phase p = PodSucceeded \<or> phase p = PodFailed
      then if observed_finishes p = [] then pod_deletionTimestamp p
        else Some (Max (set (observed_finishes p)))
      else None)"
  by (auto simp: podEnd_scan split: option.splits
      intro!: Max_eqI [symmetric] dest: scan_greater_Some)

lemma accounted_pods_proper:
  assumes "requests_ok L p" and "podToAccounting L p name = Some a"
  shows "acc_ok a \<and> flt (Fin 0) (acc_gpus a)"
  using podToAccounting_ok [OF assms] by blast

end
