(* ===== verification/Enforcement.thy ===== *)
theory Enforcement
  imports K8sApi
begin

text \<open>
  The three enforcers (\<open>internal/enforcement\<close>) and their dispatch. An enforcer is a run
  against the outside world for one budget and one offending pod that ends in an outcome
  or an error; the locale \<open>enforcer\<close> is the Go interface \<open>Enforcer\<close> with the contract the
  reconciler relies on, and each of the three implementations is an interpretation of it.
\<close>

subsection \<open>Definitions\<close>

record outcome =
  oc_action :: string
  oc_acted :: bool
  oc_podKey :: string
  oc_reason :: string
  oc_message :: string

definition podKey :: "'q pod \<Rightarrow> string" where
  "podKey p = pod_namespace p @ ''/'' @ pod_name p"

definition EventTypeWarning :: string where "EventTypeWarning = ''Warning''"
definition AnnotationPausedAt :: string where "AnnotationPausedAt = ''budget.zxuhan.dev/paused-at''"
definition AnnotationPausedBy :: string where "AnnotationPausedBy = ''budget.zxuhan.dev/paused-by''"

definition record_event :: "'q budget \<Rightarrow> string \<Rightarrow> string \<Rightarrow> ('q, 's, 'w, unit) io" where
  "record_event b reason msg =
     emit (RecordEvent (budget_namespace b) (budget_name b) EventTypeWarning reason msg)"

definition evictor_Enforce ::
    "('q, 's) k8s \<Rightarrow> ('q, 's, 'w) api \<Rightarrow> 'q budget \<Rightarrow> 'q pod \<Rightarrow> gotime
      \<Rightarrow> ('q, 's, 'w, goerr + outcome) io" where
  "evictor_Enforce L A b p now =
     (if pod_deletionTimestamp p \<noteq> None then
        State_Monad.return (Inr \<lparr>oc_action = ActionEvict, oc_acted = False, oc_podKey = podKey p,
          oc_reason = ''AlreadyTerminating'',
          oc_message = ''Pod '' @ podKey p @ '' is already terminating.''\<rparr>)
      else do {
        r \<leftarrow> do_evict A (pod_namespace p) (pod_name p)
               (scast (gracePeriodSeconds (enforcement (spec b))));
        case r of
          Some err \<Rightarrow>
            if isNotFound L err then
              State_Monad.return (Inr \<lparr>oc_action = ActionEvict, oc_acted = False, oc_podKey = podKey p,
                oc_reason = ''PodAlreadyGone'',
                oc_message = ''Pod '' @ podKey p @ '' disappeared before eviction completed.''\<rparr>)
            else if isTooManyRequests L err then do {
              let msg = ''Eviction of '' @ podKey p @ '' blocked by PodDisruptionBudget; will retry.'';
              _ \<leftarrow> record_event b ''EvictionBlocked'' msg;
              State_Monad.return (Inr \<lparr>oc_action = ActionEvict, oc_acted = False, oc_podKey = podKey p,
                oc_reason = ''EvictionBlocked'', oc_message = msg\<rparr>)
            }
            else State_Monad.return (Inl (Wrap (''evict '' @ podKey p) err))
        | None \<Rightarrow> do {
            let msg = ''Evicted pod '' @ podKey p @ '' after quota exceeded.'';
            _ \<leftarrow> record_event b ''Evicted'' msg;
            State_Monad.return (Inr \<lparr>oc_action = ActionEvict, oc_acted = True, oc_podKey = podKey p,
              oc_reason = ''Evicted'', oc_message = msg\<rparr>)
          }
      })"

definition stamp_pause :: "'q budget \<Rightarrow> 'q pod \<Rightarrow> gotime \<Rightarrow> 'q pod" where
  "stamp_pause b p now =
     p\<lparr>pod_annotations :=
        fmupd AnnotationPausedBy (budget_namespace b @ ''/'' @ budget_name b)
          (fmupd AnnotationPausedAt (format_RFC3339 now) (pod_annotations p))\<rparr>"

definition pauser_Enforce ::
    "('q, 's, 'w) api \<Rightarrow> 'q budget \<Rightarrow> 'q pod \<Rightarrow> gotime \<Rightarrow> ('q, 's, 'w, goerr + outcome) io" where
  "pauser_Enforce A b p now =
     (if fmlookup (pod_annotations p) AnnotationPausedAt \<noteq> None then
        State_Monad.return (Inr \<lparr>oc_action = ActionPause, oc_acted = False, oc_podKey = podKey p,
          oc_reason = ''AlreadyPaused'',
          oc_message = ''Pod '' @ podKey p @ '' already carries the pause annotation.''\<rparr>)
      else do {
        r \<leftarrow> do_patch_pod A p (stamp_pause b p now);
        case r of
          Inl err \<Rightarrow> State_Monad.return (Inl (Wrap (''stamp pause annotation on '' @ podKey p) err))
        | Inr p' \<Rightarrow> do {
            let msg = ''Paused pod '' @ podKey p' @ '' after quota exceeded.'';
            _ \<leftarrow> record_event b ''Paused'' msg;
            State_Monad.return (Inr \<lparr>oc_action = ActionPause, oc_acted = True, oc_podKey = podKey p',
              oc_reason = ''Paused'', oc_message = msg\<rparr>)
          }
      })"

text \<open>The message of the source holds an em dash, three bytes in UTF-8.\<close>

definition em_dash :: string where
  "em_dash = [char_of (0xE2 :: nat), char_of (0x80 :: nat), char_of (0x94 :: nat)]"

definition alerter_Enforce ::
    "'q budget \<Rightarrow> 'q pod \<Rightarrow> gotime \<Rightarrow> ('q, 's, 'w, goerr + outcome) io" where
  "alerter_Enforce b p now = do {
     let msg = ''Quota exceeded; AlertOnly mode '' @ em_dash @
       '' no pods modified. Top offender: '' @ podKey p @ ''.'';
     _ \<leftarrow> record_event b ''QuotaExceeded'' msg;
     State_Monad.return (Inr \<lparr>oc_action = ActionAlertOnly, oc_acted = False, oc_podKey = podKey p,
       oc_reason = ''QuotaExceeded'', oc_message = msg\<rparr>)
   }"

definition New ::
    "string \<Rightarrow> ('q, 's) k8s \<Rightarrow> ('q, 's, 'w) api
      \<Rightarrow> 'q budget \<Rightarrow> 'q pod \<Rightarrow> gotime \<Rightarrow> ('q, 's, 'w, goerr + outcome) io" where
  "New act L A =
     (if act = ActionEvict then evictor_Enforce L A
      else if act = ActionPause then pauser_Enforce A
      else alerter_Enforce)"

subsection \<open>Reading a trace\<close>

text \<open>A call that changes a pod, and one that did.\<close>

fun mutates_pod :: "('q, 's) call \<Rightarrow> bool" where
  "mutates_pod (EvictPod ns n g r) = True"
| "mutates_pod (PatchPod base new r) = True"
| "mutates_pod c = False"

fun mutated_pod :: "('q, 's) call \<Rightarrow> bool" where
  "mutated_pod (EvictPod ns n g r) = (r = None)"
| "mutated_pod (PatchPod base new r) = (\<exists>p. r = Inr p)"
| "mutated_pod c = False"

text \<open>
  The calls an enforcer may make: an eviction or a patch of the pod it was given, and
  warning events on the budget it was given.
\<close>

fun enforcer_call :: "'q budget \<Rightarrow> 'q pod \<Rightarrow> ('q, 's) call \<Rightarrow> bool" where
  "enforcer_call b p (EvictPod ns n g r) = (ns = pod_namespace p \<and> n = pod_name p)"
| "enforcer_call b p (PatchPod base new r) = (base = p \<and> pod_name new = pod_name p
     \<and> pod_namespace new = pod_namespace p \<and> containers new = containers p)"
| "enforcer_call b p (RecordEvent ns n ty reason msg) =
     (ns = budget_namespace b \<and> n = budget_name b \<and> ty = EventTypeWarning)"
| "enforcer_call b p c = False"

lemma stamp_pause_frame [simp]:
  "pod_name (stamp_pause b p now) = pod_name p" "pod_namespace (stamp_pause b p now) = pod_namespace p"
  "containers (stamp_pause b p now) = containers p" "pod_uid (stamp_pause b p now) = pod_uid p"
  "podKey (stamp_pause b p now) = podKey p"
  by (simp_all add: stamp_pause_def podKey_def)

lemma stamp_pause_annotations:
  "fmlookup (pod_annotations (stamp_pause b p now)) k =
    (if k = AnnotationPausedBy then Some (budget_namespace b @ ''/'' @ budget_name b)
     else if k = AnnotationPausedAt then Some (format_RFC3339 now)
     else fmlookup (pod_annotations p) k)"
  by (simp add: stamp_pause_def)

subsection \<open>The interface\<close>

locale enforcer =
  fixes enforce :: "'q budget \<Rightarrow> 'q pod \<Rightarrow> gotime \<Rightarrow> ('q, 's, 'w, goerr + outcome) io"
    and kind :: string
  assumes calls: "emits (enforce b p now) (\<lambda>r cs. list_all (enforcer_call b p) cs)"
    and once: "emits (enforce b p now) (\<lambda>r cs. length (List.filter mutates_pod cs) \<le> 1)"
    and reports: "emits (enforce b p now) (\<lambda>r cs. \<forall>oc. r = Inr oc \<longrightarrow>
      oc_action oc = kind \<and> (oc_acted oc \<longleftrightarrow> list_ex mutated_pod cs))"
    and fails: "emits (enforce b p now) (\<lambda>r cs. \<forall>e. r = Inl e \<longrightarrow>
      list_ex mutates_pod cs \<and> \<not> list_ex mutated_pod cs)"
begin

text \<open>The whole contract at once, for a client that composes it.\<close>

lemma contract: "emits (enforce b p now) (\<lambda>r cs.
    list_all (enforcer_call b p) cs \<and> length (List.filter mutates_pod cs) \<le> 1 \<and>
    (case r of
       Inl e \<Rightarrow> list_ex mutates_pod cs \<and> \<not> list_ex mutated_pod cs
     | Inr oc \<Rightarrow> oc_action oc = kind \<and> (oc_acted oc \<longleftrightarrow> list_ex mutated_pod cs)))"
  by (rule emits_conseq [OF emits_conj [OF calls emits_conj [OF once emits_conj [OF reports fails]]]])
    (auto split: sum.splits)

end

lemmas enforce_defs = evictor_Enforce_def pauser_Enforce_def alerter_Enforce_def
  record_event_def do_evict_def do_patch_pod_def Let_def

interpretation evictor: enforcer "evictor_Enforce L A" ActionEvict for L A
  by unfold_locales (unfold enforce_defs, (intro emits_rules; simp)+)

interpretation pauser: enforcer "pauser_Enforce A" ActionPause for A
  by unfold_locales (unfold enforce_defs, (intro emits_rules; simp)+)

interpretation alerter: enforcer alerter_Enforce ActionAlertOnly
  by unfold_locales (unfold enforce_defs, (intro emits_rules; simp)+)

subsection \<open>Dispatch and re-entry\<close>

text \<open>The action that runs for a configured action: anything unknown only alerts.\<close>

definition effective_action :: "string \<Rightarrow> string" where
  "effective_action act = (if act = ActionEvict \<or> act = ActionPause then act else ActionAlertOnly)"

text \<open>What every enforcer promises, as a predicate on the result and the trace.\<close>

definition enforce_post ::
    "string \<Rightarrow> 'q budget \<Rightarrow> 'q pod \<Rightarrow> goerr + outcome \<Rightarrow> ('q, 's) call list \<Rightarrow> bool" where
  "enforce_post act b p r cs \<longleftrightarrow>
     list_all (enforcer_call b p) cs \<and> length (List.filter mutates_pod cs) \<le> 1 \<and>
     (case r of
        Inl e \<Rightarrow> list_ex mutates_pod cs \<and> \<not> list_ex mutated_pod cs
      | Inr oc \<Rightarrow> oc_action oc = effective_action act \<and> (oc_acted oc \<longleftrightarrow> list_ex mutated_pod cs))"

lemma New_post: "emits (New act L A b p now) (enforce_post act b p)"
proof -
  have post: "enforce_post act b p = (\<lambda>r cs. list_all (enforcer_call b p) cs \<and>
      length (List.filter mutates_pod cs) \<le> 1 \<and>
      (case r of Inl e \<Rightarrow> list_ex mutates_pod cs \<and> \<not> list_ex mutated_pod cs
       | Inr oc \<Rightarrow> oc_action oc = k \<and> (oc_acted oc \<longleftrightarrow> list_ex mutated_pod cs)))"
    if "effective_action act = k" for k
    unfolding that [symmetric] by (intro ext) (simp add: enforce_post_def)
  consider "act = ActionEvict" | "act = ActionPause" | "act \<noteq> ActionEvict" "act \<noteq> ActionPause" by blast
  then show ?thesis
  proof cases
    case 1
    then have "New act L A = evictor_Enforce L A" "effective_action act = ActionEvict"
      by (simp_all add: New_def effective_action_def)
    then show ?thesis using evictor.contract by (simp only: post)
  next
    case 2
    then have "New act L A = pauser_Enforce A" "effective_action act = ActionPause"
      by (simp_all add: New_def effective_action_def)
    then show ?thesis using pauser.contract by (simp only: post)
  next
    case 3
    then have "New act L A = alerter_Enforce" "effective_action act = ActionAlertOnly"
      by (simp_all add: New_def effective_action_def)
    then show ?thesis using alerter.contract by (simp only: post)
  qed
qed

lemma evictor_terminating:
  "pod_deletionTimestamp p \<noteq> None \<Longrightarrow> emits (evictor_Enforce L A b p now)
    (\<lambda>r cs. cs = [] \<and> (\<exists>oc. r = Inr oc \<and> \<not> oc_acted oc \<and> oc_reason oc = ''AlreadyTerminating''))"
  by (simp add: evictor_Enforce_def emits_return)

lemma pauser_paused:
  "fmlookup (pod_annotations p) AnnotationPausedAt \<noteq> None \<Longrightarrow> emits (pauser_Enforce A b p now)
    (\<lambda>r cs. cs = [] \<and> (\<exists>oc. r = Inr oc \<and> \<not> oc_acted oc \<and> oc_reason oc = ''AlreadyPaused''))"
  by (simp add: pauser_Enforce_def emits_return)

subsection \<open>Every way an eviction goes\<close>

text \<open>
  The result and the calls of an eviction as a function of the server's response: the
  eviction request carries the budget's grace period, a missing pod is no error, a
  disruption budget only delays, and any other error is passed on without an event.
\<close>

definition eviction_outcome :: "'q pod \<Rightarrow> bool \<Rightarrow> string \<Rightarrow> string \<Rightarrow> outcome" where
  "eviction_outcome p done reason msg =
     \<lparr>oc_action = ActionEvict, oc_acted = done, oc_podKey = podKey p, oc_reason = reason, oc_message = msg\<rparr>"

definition eviction_request :: "'q budget \<Rightarrow> 'q pod \<Rightarrow> goerr option \<Rightarrow> ('q, 's) call" where
  "eviction_request b p res =
     EvictPod (pod_namespace p) (pod_name p) (scast (gracePeriodSeconds (enforcement (spec b)))) res"

definition warning :: "'q budget \<Rightarrow> string \<Rightarrow> string \<Rightarrow> ('q, 's) call" where
  "warning b reason m = RecordEvent (budget_namespace b) (budget_name b) EventTypeWarning reason m"

inductive eviction_spec ::
    "('q, 's) k8s \<Rightarrow> 'q budget \<Rightarrow> 'q pod \<Rightarrow> goerr + outcome \<Rightarrow> ('q, 's) call list \<Rightarrow> bool"
  for L b p where
  already: "pod_deletionTimestamp p \<noteq> None \<Longrightarrow>
    eviction_spec L b p (Inr (eviction_outcome p False ''AlreadyTerminating'' m)) []"
| evicted: "pod_deletionTimestamp p = None \<Longrightarrow>
    eviction_spec L b p (Inr (eviction_outcome p True ''Evicted'' m))
      [eviction_request b p None, warning b ''Evicted'' m]"
| vanished: "pod_deletionTimestamp p = None \<Longrightarrow> isNotFound L e \<Longrightarrow>
    eviction_spec L b p (Inr (eviction_outcome p False ''PodAlreadyGone'' m))
      [eviction_request b p (Some e)]"
| blocked: "pod_deletionTimestamp p = None \<Longrightarrow> \<not> isNotFound L e \<Longrightarrow> isTooManyRequests L e \<Longrightarrow>
    eviction_spec L b p (Inr (eviction_outcome p False ''EvictionBlocked'' m))
      [eviction_request b p (Some e), warning b ''EvictionBlocked'' m]"
| refused: "pod_deletionTimestamp p = None \<Longrightarrow> \<not> isNotFound L e \<Longrightarrow> \<not> isTooManyRequests L e \<Longrightarrow>
    eviction_spec L b p (Inl (Wrap (''evict '' @ podKey p) e)) [eviction_request b p (Some e)]"

lemmas eviction_rules =
  eviction_spec.intros [unfolded eviction_outcome_def eviction_request_def warning_def append.simps]

lemma evictor_spec: "emits (evictor_Enforce L A b p now) (eviction_spec L b p)"
proof (cases "pod_deletionTimestamp p")
  case None
  then show ?thesis
    unfolding enforce_defs append.simps
    by (simp, intro emits_rules) (simp_all add: eviction_rules)
next
  case (Some t)
  then show ?thesis
    by (auto simp: evictor_Enforce_def intro!: emits_return eviction_rules(1))
qed

text \<open>Pausing and alerting, in the same way, and the dispatch over the three.\<close>

definition paused :: "'q pod \<Rightarrow> bool" where
  "paused p \<longleftrightarrow> fmlookup (pod_annotations p) AnnotationPausedAt \<noteq> None"

definition pause_outcome :: "'q pod \<Rightarrow> bool \<Rightarrow> string \<Rightarrow> string \<Rightarrow> outcome" where
  "pause_outcome p done reason msg =
     \<lparr>oc_action = ActionPause, oc_acted = done, oc_podKey = podKey p, oc_reason = reason, oc_message = msg\<rparr>"

inductive pause_spec ::
    "'q budget \<Rightarrow> 'q pod \<Rightarrow> gotime \<Rightarrow> goerr + outcome \<Rightarrow> ('q, 's) call list \<Rightarrow> bool"
  for b p now where
  already: "paused p \<Longrightarrow> pause_spec b p now (Inr (pause_outcome p False ''AlreadyPaused'' m)) []"
| stamped: "\<not> paused p \<Longrightarrow>
    pause_spec b p now (Inr (pause_outcome p' True ''Paused'' m))
      [PatchPod p (stamp_pause b p now) (Inr p'), warning b ''Paused'' m]"
| refused: "\<not> paused p \<Longrightarrow>
    pause_spec b p now (Inl (Wrap (''stamp pause annotation on '' @ podKey p) e))
      [PatchPod p (stamp_pause b p now) (Inl e)]"

inductive alert_spec :: "'q budget \<Rightarrow> 'q pod \<Rightarrow> goerr + outcome \<Rightarrow> ('q, 's) call list \<Rightarrow> bool"
  for b p where
  alerted: "alert_spec b p
    (Inr \<lparr>oc_action = ActionAlertOnly, oc_acted = False, oc_podKey = podKey p,
      oc_reason = ''QuotaExceeded'', oc_message = m\<rparr>) [warning b ''QuotaExceeded'' m]"

lemmas pause_rules = pause_spec.intros [unfolded pause_outcome_def warning_def paused_def append.simps]
lemmas alert_rules = alert_spec.intros [unfolded warning_def append.simps]

lemma pauser_spec: "emits (pauser_Enforce A b p now) (pause_spec b p now)"
proof (cases "fmlookup (pod_annotations p) AnnotationPausedAt")
  case None
  then show ?thesis
    unfolding enforce_defs append.simps
    by (simp, intro emits_rules) (simp_all add: pause_rules)
next
  case (Some t)
  then show ?thesis
    by (auto simp: pauser_Enforce_def intro!: emits_return pause_rules(1))
qed

lemma alerter_spec: "emits (alerter_Enforce b p now) (alert_spec b p)"
  unfolding enforce_defs append.simps by (intro emits_rules) (simp add: alert_rules)

definition enforcement_spec ::
    "('q, 's) k8s \<Rightarrow> string \<Rightarrow> 'q budget \<Rightarrow> 'q pod \<Rightarrow> gotime \<Rightarrow> goerr + outcome
      \<Rightarrow> ('q, 's) call list \<Rightarrow> bool" where
  "enforcement_spec L act b p now r cs \<longleftrightarrow>
     enforce_post act b p r cs \<and>
     (if act = ActionEvict then eviction_spec L b p r cs
      else if act = ActionPause then pause_spec b p now r cs
      else alert_spec b p r cs)"

lemma New_spec: "emits (New act L A b p now) (enforcement_spec L act b p now)"
proof -
  have "emits (New act L A b p now) (\<lambda>r cs.
      if act = ActionEvict then eviction_spec L b p r cs
      else if act = ActionPause then pause_spec b p now r cs
      else alert_spec b p r cs)"
    by (simp add: New_def evictor_spec pauser_spec alerter_spec)
  from emits_conj [OF New_post this] show ?thesis
    by (rule emits_conseq) (simp add: enforcement_spec_def)
qed

text \<open>The call an enforcer owes to a pod it was given.\<close>

definition due_call :: "string \<Rightarrow> 'q budget \<Rightarrow> 'q pod \<Rightarrow> gotime \<Rightarrow> ('q, 's) call \<Rightarrow> bool" where
  "due_call act b p now c \<longleftrightarrow>
     (if act = ActionEvict then \<exists>res. c = eviction_request b p res
      else if act = ActionPause then \<exists>res. c = PatchPod p (stamp_pause b p now) res
      else \<exists>m. c = warning b ''QuotaExceeded'' m)"

inductive_cases eviction_specE: "eviction_spec L b p r cs"
inductive_cases pause_specE: "pause_spec b p now r cs"
inductive_cases alert_specE: "alert_spec b p r cs"

lemma enforcement_due:
  assumes "enforcement_spec L act b p now r cs"
    and "act = ActionEvict \<longrightarrow> pod_deletionTimestamp p = None" and "act = ActionPause \<longrightarrow> \<not> paused p"
  shows "\<exists>c \<in> set cs. due_call act b p now c"
  using assms
  by (auto simp: enforcement_spec_def due_call_def
      elim!: eviction_specE pause_specE alert_specE split: if_splits)

text \<open>Evicting a terminating pod or pausing a paused one makes no call at all.\<close>

lemma reenforcement_is_silent:
  assumes "act = ActionEvict \<and> pod_deletionTimestamp p \<noteq> None \<or> act = ActionPause \<and> paused p"
  shows "emits (New act L A b p now) (\<lambda>r cs. cs = [] \<and> (\<exists>oc. r = Inr oc \<and> \<not> oc_acted oc))"
  using assms evictor_terminating [of p L A b now] pauser_paused [of p A b now]
  by (auto simp: New_def paused_def intro: emits_conseq)

text \<open>An eviction depends on the name of the pod alone, not on which pod bears it.\<close>

lemma eviction_ignores_identity:
  assumes "pod_namespace q = pod_namespace p" and "pod_name q = pod_name p"
    and "pod_deletionTimestamp p = None" and "pod_deletionTimestamp q = None"
  shows "evictor_Enforce L A b q now = evictor_Enforce L A b p now"
  by (simp only: evictor_Enforce_def podKey_def assms)

end
