(* ===== verification/Metrics.thy ===== *)
theory Metrics
  imports K8sApi Accounting
begin

text \<open>
  The Prometheus series of the operator (\<open>internal/controller/metrics.go\<close> and
  \<open>publishMetrics\<close>). The program's side is the sequence of calls on the metric vectors; what
  the calls amount to is read off a trace: the gauges and counters that are left.
\<close>

subsection \<open>Definitions\<close>

definition consumedGPUHours :: string where "consumedGPUHours = ''gwb_consumed_gpu_hours''"
definition remainingGPUHours :: string where "remainingGPUHours = ''gwb_remaining_gpu_hours''"
definition trackedPodsGauge :: string where "trackedPodsGauge = ''gwb_tracked_pods''"
definition enforcementActionsTotal :: string where
  "enforcementActionsTotal = ''gwb_enforcement_actions_total''"
definition accountingAccuracyRatio :: string where
  "accountingAccuracyRatio = ''gwb_accounting_accuracy_ratio''"

text \<open>The vectors the package registers: name, whether it is a counter, and label names.\<close>

definition registered :: "(string \<times> bool \<times> string list) list" where
  "registered =
     [(consumedGPUHours, False, [''namespace'', ''name'']),
      (remainingGPUHours, False, [''namespace'', ''name'']),
      (trackedPodsGauge, False, [''namespace'', ''name'']),
      (enforcementActionsTotal, True, [''namespace'', ''name'', ''action'']),
      (accountingAccuracyRatio, False, [''namespace'', ''name''])]"

definition publishMetrics :: "'q budget \<Rightarrow> acc_result \<Rightarrow> ('q, 's, 'w, unit) io" where
  "publishMetrics b r = do {
     let ls = [budget_namespace b, budget_name b];
     _ \<leftarrow> emit (GaugeSet consumedGPUHours ls (consumed r));
     _ \<leftarrow> emit (GaugeSet remainingGPUHours ls (remaining r));
     emit (GaugeSet trackedPodsGauge ls (round64 (of_nat (tracked r))))
   }"

definition clearBudgetMetrics :: "string \<Rightarrow> string \<Rightarrow> ('q, 's, 'w, unit) io" where
  "clearBudgetMetrics ns n = do {
     _ \<leftarrow> emit (DeleteLabelValues consumedGPUHours [ns, n]);
     _ \<leftarrow> emit (DeleteLabelValues remainingGPUHours [ns, n]);
     _ \<leftarrow> emit (DeleteLabelValues trackedPodsGauge [ns, n]);
     emit (DeleteLabelValues accountingAccuracyRatio [ns, n])
   }"

lemmas metric_names = consumedGPUHours_def remainingGPUHours_def trackedPodsGauge_def
  enforcementActionsTotal_def accountingAccuracyRatio_def

lemma metric_neq:
  "consumedGPUHours \<noteq> remainingGPUHours" "consumedGPUHours \<noteq> trackedPodsGauge"
  "consumedGPUHours \<noteq> enforcementActionsTotal" "consumedGPUHours \<noteq> accountingAccuracyRatio"
  "remainingGPUHours \<noteq> trackedPodsGauge" "remainingGPUHours \<noteq> enforcementActionsTotal"
  "remainingGPUHours \<noteq> accountingAccuracyRatio" "trackedPodsGauge \<noteq> enforcementActionsTotal"
  "trackedPodsGauge \<noteq> accountingAccuracyRatio" "enforcementActionsTotal \<noteq> accountingAccuracyRatio"
  by (simp_all add: metric_names)

lemmas metric_neqs [simp] = metric_neq metric_neq [symmetric]

definition publish_calls :: "'q budget \<Rightarrow> acc_result \<Rightarrow> ('q, 's) call list" where
  "publish_calls b r =
     [GaugeSet consumedGPUHours [budget_namespace b, budget_name b] (consumed r),
      GaugeSet remainingGPUHours [budget_namespace b, budget_name b] (remaining r),
      GaugeSet trackedPodsGauge [budget_namespace b, budget_name b] (round64 (of_nat (tracked r)))]"

definition clear_calls :: "string \<Rightarrow> string \<Rightarrow> ('q, 's) call list" where
  "clear_calls ns n = map (\<lambda>m. DeleteLabelValues m [ns, n])
     [consumedGPUHours, remainingGPUHours, trackedPodsGauge, accountingAccuracyRatio]"

lemma emits_publish: "Q () (publish_calls b r) \<Longrightarrow> emits (publishMetrics b r) Q"
  unfolding publishMetrics_def Let_def publish_calls_def
  by (intro emits_rules) simp

lemma emits_clear: "Q () (clear_calls ns n) \<Longrightarrow> emits (clearBudgetMetrics ns n) Q"
  unfolding clearBudgetMetrics_def clear_calls_def
  by (intro emits_rules) simp

subsection \<open>The series a trace leaves\<close>

text \<open>
  The documented effect of the vector operations: \<open>Set\<close> creates or overwrites a series,
  \<open>DeleteLabelValues\<close> removes it.
\<close>

fun gauge_step :: "(string \<times> string list \<Rightarrow> float64 option) \<Rightarrow> ('q, 's) call
    \<Rightarrow> (string \<times> string list \<Rightarrow> float64 option)" where
  "gauge_step g (GaugeSet m ls v) = g((m, ls) := Some v)"
| "gauge_step g (DeleteLabelValues m ls) = g((m, ls) := None)"
| "gauge_step g c = g"

definition gauges :: "('q, 's) call list \<Rightarrow> string \<times> string list \<Rightarrow> float64 option" where
  "gauges cs = foldl gauge_step (\<lambda>_. None) cs"

text \<open>The label values of a call match the labels its vector was declared with.\<close>

fun well_labelled :: "('q, 's) call \<Rightarrow> bool" where
  "well_labelled (GaugeSet m ls v) =
     (case map_of registered m of Some (counter, ns) \<Rightarrow> \<not> counter \<and> length ls = length ns | None \<Rightarrow> False)"
| "well_labelled (CounterInc m ls) =
     (case map_of registered m of Some (counter, ns) \<Rightarrow> counter \<and> length ls = length ns | None \<Rightarrow> False)"
| "well_labelled (DeleteLabelValues m ls) =
     (case map_of registered m of Some (counter, ns) \<Rightarrow> length ls = length ns | None \<Rightarrow> False)"
| "well_labelled c = True"

lemma well_labelled_publish [simp]: "list_all well_labelled (publish_calls b r)"
  by (simp add: publish_calls_def registered_def)

lemma well_labelled_clear [simp]: "list_all well_labelled (clear_calls ns n)"
  by (simp add: clear_calls_def registered_def)

lemma well_labelled_action [simp]: "well_labelled (CounterInc enforcementActionsTotal [a, b, c])"
  by (simp add: registered_def)

lemma foldl_gauge_clear:
  "foldl gauge_step g (clear_calls ns n) (m, ls) =
    (if ls = [ns, n] \<and> m \<in> {consumedGPUHours, remainingGPUHours, trackedPodsGauge, accountingAccuracyRatio}
     then None else g (m, ls))"
  unfolding clear_calls_def list.map foldl.simps gauge_step.simps fun_upd_apply prod.inject
  by (cases "ls = [ns, n]") simp_all

lemma foldl_gauge_publish:
  "foldl gauge_step g (publish_calls b r) (m, ls) =
    (if ls = [budget_namespace b, budget_name b] then
       if m = consumedGPUHours then Some (consumed r)
       else if m = remainingGPUHours then Some (remaining r)
       else if m = trackedPodsGauge then Some (round64 (of_nat (tracked r)))
       else g (m, ls)
     else g (m, ls))"
  by (simp add: publish_calls_def)

end
