(* ===== verification/Webhook.thy ===== *)
theory Webhook
  imports K8sApi
begin

text \<open>
  The validating webhook (\<open>internal/webhook/v1alpha1\<close>): the checks of a budget's
  specification, in the order of the source, the three admission handlers, and the wrapping
  of the field errors into one status error.
\<close>

subsection \<open>Errors\<close>

datatype bad_value = BadText string | BadInt "32 word" | BadSelector label_selector

datatype field_error =
    FieldInvalid "string list" bad_value string
  | FieldRequired "string list" string
  | FieldNotSupported "string list" string "string list"

fun error_path :: "field_error \<Rightarrow> string list" where
  "error_path (FieldInvalid path v d) = path"
| "error_path (FieldRequired path d) = path"
| "error_path (FieldNotSupported path v vs) = path"

record invalid_status =
  inv_group :: string
  inv_kind :: string
  inv_name :: string
  inv_causes :: "field_error list"

subsection \<open>Definitions\<close>

definition isEmptyLabelSelector :: "label_selector \<Rightarrow> bool" where
  "isEmptyLabelSelector s \<longleftrightarrow> fmdom (matchLabels s) = {||} \<and> matchExpressions s = []"

definition validateSpec :: "('q, 's) k8s \<Rightarrow> 'q budget_spec \<Rightarrow> string list \<Rightarrow> field_error list" where
  "validateSpec L s path =
     (let quotaPath = path @ [''quota'']; enfPath = path @ [''enforcement'']; selPath = path @ [''selector'']
      in (if quantitySign L (gpuHours (quota s)) \<le> 0
          then [FieldInvalid (quotaPath @ [''gpuHours''])
                  (BadText (quantityString L (gpuHours (quota s)))) ''must be greater than 0'']
          else []) @
         (if sint (windowHours (quota s)) \<le> 0
          then [FieldInvalid (quotaPath @ [''windowHours''])
                  (BadInt (windowHours (quota s))) ''must be greater than 0'']
          else []) @
         (let a = action (enforcement s)
          in if a = ActionEvict \<or> a = ActionPause \<or> a = ActionAlertOnly then []
             else if a = '''' then
               [FieldRequired (enfPath @ [''action'']) ''one of Evict, Pause, AlertOnly'']
             else
               [FieldNotSupported (enfPath @ [''action'']) a
                  [ActionEvict, ActionPause, ActionAlertOnly]]) @
         (if sint (gracePeriodSeconds (enforcement s)) < 0
          then [FieldInvalid (enfPath @ [''gracePeriodSeconds''])
                  (BadInt (gracePeriodSeconds (enforcement s))) ''must be greater than or equal to 0'']
          else []) @
         (if isEmptyLabelSelector (selector s)
          then [FieldRequired selPath
                  ''must not be empty; set matchLabels or matchExpressions to scope the budget'']
          else case labelSelectorAsSelector L (selector s) of
              Inl err \<Rightarrow> [FieldInvalid selPath (BadSelector (selector s)) (err_text err)]
            | Inr _ \<Rightarrow> []))"

definition gwbGroup :: string where "gwbGroup = ''budget.zxuhan.dev''"
definition gwbKind :: string where "gwbKind = ''GPUWorkloadBudget''"

definition toInvalidErr :: "'q budget \<Rightarrow> field_error list \<Rightarrow> invalid_status option" where
  "toInvalidErr obj errs =
     (if errs = [] then None
      else let name = (if budget_name obj = '''' then ''<new '' @ gwbKind @ ''>'' else budget_name obj)
        in Some \<lparr>inv_group = gwbGroup, inv_kind = gwbKind, inv_name = name, inv_causes = errs\<rparr>)"

definition ValidateCreate :: "('q, 's) k8s \<Rightarrow> 'q budget \<Rightarrow> string list \<times> invalid_status option" where
  "ValidateCreate L obj = ([], toInvalidErr obj (validateSpec L (spec obj) [''spec'']))"

definition ValidateUpdate ::
    "('q, 's) k8s \<Rightarrow> 'q budget \<Rightarrow> 'q budget \<Rightarrow> string list \<times> invalid_status option" where
  "ValidateUpdate L oldObj newObj = ([], toInvalidErr newObj (validateSpec L (spec newObj) [''spec'']))"

definition ValidateDelete :: "'q budget \<Rightarrow> string list \<times> invalid_status option" where
  "ValidateDelete obj = ([], None)"

subsection \<open>What an accepted specification satisfies\<close>

definition valid_spec :: "('q, 's) k8s \<Rightarrow> 'q budget_spec \<Rightarrow> bool" where
  "valid_spec L s \<longleftrightarrow>
     0 < quantitySign L (gpuHours (quota s)) \<and> 0 < sint (windowHours (quota s)) \<and>
     action (enforcement s) \<in> {ActionEvict, ActionPause, ActionAlertOnly} \<and>
     0 \<le> sint (gracePeriodSeconds (enforcement s)) \<and>
     \<not> isEmptyLabelSelector (selector s) \<and> (\<exists>sel. labelSelectorAsSelector L (selector s) = Inr sel)"

lemma validateSpec_Nil: "validateSpec L s path = [] \<longleftrightarrow> valid_spec L s"
  by (auto simp: validateSpec_def valid_spec_def Let_def not_le not_less split: sum.splits)

lemma toInvalidErr_None [simp]: "toInvalidErr obj errs = None \<longleftrightarrow> errs = []"
  by (simp add: toInvalidErr_def Let_def)

text \<open>The checks by the path they report, in the order they run.\<close>

definition violations :: "('q, 's) k8s \<Rightarrow> 'q budget_spec \<Rightarrow> (string list \<times> bool) list" where
  "violations L s =
     [([''quota'', ''gpuHours''], quantitySign L (gpuHours (quota s)) \<le> 0),
      ([''quota'', ''windowHours''], sint (windowHours (quota s)) \<le> 0),
      ([''enforcement'', ''action''],
        action (enforcement s) \<notin> {ActionEvict, ActionPause, ActionAlertOnly}),
      ([''enforcement'', ''gracePeriodSeconds''], sint (gracePeriodSeconds (enforcement s)) < 0),
      ([''selector''], isEmptyLabelSelector (selector s) \<or>
        (\<exists>e. labelSelectorAsSelector L (selector s) = Inl e))]"

lemma validateSpec_paths:
  "map error_path (validateSpec L s path) =
    map (\<lambda>v. path @ fst v) (List.filter snd (violations L s))"
proof -
  have sel: "(\<exists>e. r = Inl e) \<longleftrightarrow> (case r of Inl _ \<Rightarrow> True | Inr _ \<Rightarrow> False)" for r :: "goerr + 'b"
    by (cases r) auto
  show ?thesis
    by (cases "labelSelectorAsSelector L (selector s)")
      (simp_all add: validateSpec_def violations_def Let_def)
qed

subsection \<open>The admission interface\<close>

text \<open>
  What the API server relies on: a create or an update goes through exactly if the new
  object satisfies the validator's predicate, and a delete always does. A history of
  admitted requests then only ever stores objects that satisfy it.
\<close>

datatype 'o request = CreateReq 'o | UpdateReq 'o | DeleteReq

fun admit :: "('o \<Rightarrow> bool) \<Rightarrow> ('o \<Rightarrow> 'o \<Rightarrow> bool) \<Rightarrow> ('o \<Rightarrow> bool) \<Rightarrow> 'o option \<Rightarrow> 'o request \<Rightarrow> 'o option" where
  "admit cr up de None (CreateReq b) = (if cr b then Some b else None)"
| "admit cr up de (Some a) (UpdateReq b) = (if up a b then Some b else Some a)"
| "admit cr up de (Some a) DeleteReq = (if de a then None else Some a)"
| "admit cr up de st r = st"

locale admission_validator =
  fixes create_ok :: "'o \<Rightarrow> bool" and update_ok :: "'o \<Rightarrow> 'o \<Rightarrow> bool"
    and delete_ok :: "'o \<Rightarrow> bool" and good :: "'o \<Rightarrow> bool"
  assumes create_sound: "create_ok b \<longleftrightarrow> good b"
    and update_sound: "update_ok a b \<longleftrightarrow> good b"
    and delete_free: "delete_ok a"
begin

lemma admit_good:
  "(\<forall>b. st = Some b \<longrightarrow> good b) \<Longrightarrow> admit create_ok update_ok delete_ok st r = Some b \<Longrightarrow> good b"
  by (cases "(create_ok, update_ok, delete_ok, st, r)" rule: admit.cases)
    (auto simp: create_sound update_sound split: if_splits)

lemma history_good:
  "(\<forall>b. st = Some b \<longrightarrow> good b) \<Longrightarrow>
    foldl (admit create_ok update_ok delete_ok) st rs = Some b \<Longrightarrow> good b"
proof (induction rs arbitrary: st)
  case (Cons r rs)
  have "\<forall>b. admit create_ok update_ok delete_ok st r = Some b \<longrightarrow> good b"
    using Cons.prems(1) admit_good by blast
  then show ?case using Cons.IH Cons.prems(2) by simp
qed simp

lemma delete_empties: "admit create_ok update_ok delete_ok (Some a) DeleteReq = None"
  by (simp add: delete_free)

end

interpretation budget_admission: admission_validator
    "\<lambda>b. snd (ValidateCreate L b) = None" "\<lambda>a b. snd (ValidateUpdate L a b) = None"
    "\<lambda>b. snd (ValidateDelete b) = None" "\<lambda>b. valid_spec L (spec b)" for L
  by unfold_locales
    (simp_all add: ValidateCreate_def ValidateUpdate_def ValidateDelete_def validateSpec_Nil)

end
