(* ===== verification/Controller.thy ===== *)
theory Controller
  imports PodConversion Enforcement Metrics Webhook "HOL-Library.List_Lexorder" "HOL-Library.Char_ord"
begin

text \<open>
  The reconciler (\<open>internal/controller/gpuworkloadbudget_controller.go\<close>), every operation
  of it: fetching and finalizing a budget, accounting, the status write, the degraded path,
  the enforcement gate, the offender ranking and the pod watch's map function. Logging is
  left out; everything else the code calls appears in the trace.
\<close>

subsection \<open>Pure helpers\<close>

definition finalizerName :: string where "finalizerName = ''budget.zxuhan.dev/finalizer''"
definition defaultRequeueInterval :: duration where "defaultRequeueInterval = 30 * Second"
definition overBudgetRequeueInterval :: duration where "overBudgetRequeueInterval = 10 * Second"

definition gpuResourceName_of :: "'q budget \<Rightarrow> string" where
  "gpuResourceName_of b =
     (if gpuResourceName (spec b) = '''' then ''nvidia.com/gpu'' else gpuResourceName (spec b))"

text \<open>\<open>time.Duration(budget.Spec.Quota.WindowHours) * time.Hour\<close>: an \<open>int32\<close> widened, a product that wraps.\<close>

definition window_of :: "'q budget \<Rightarrow> duration" where
  "window_of b = scast (windowHours (quota (spec b))) * Hour"

definition grace_of :: "'q budget \<Rightarrow> duration" where
  "grace_of b = scast (gracePeriodSeconds (enforcement (spec b))) * Second"

definition gpuHoursToQuantity :: "('q, 's) k8s \<Rightarrow> float64 \<Rightarrow> 'q" where
  "gpuHoursToQuantity L h =
     (let h' = (if flt h (Fin 0) then Fin 0 else h);
          milli = int64_of_float (int64OutOfRange L) (fadd (fmul h' (Fin 1000)) (Fin (1 / 2)))
      in newMilliQuantity L milli)"

fun pick_step ::
    "('q, 's) k8s \<Rightarrow> string \<Rightarrow> gotime \<Rightarrow> gotime \<Rightarrow> 'q pod option \<times> float64 \<Rightarrow> 'q pod
      \<Rightarrow> 'q pod option \<times> float64" where
  "pick_step L gpuRes from now (best, bestHours) p =
     (if pod_deletionTimestamp p \<noteq> None then (best, bestHours)
      else case podToAccounting L p gpuRes of
          None \<Rightarrow> (best, bestHours)
        | Some a \<Rightarrow>
            let hours = WindowUsage a from now
            in if fle hours (Fin 0) then (best, bestHours)
               else if (case best of
                   None \<Rightarrow> True
                 | Some b \<Rightarrow> flt bestHours hours \<or> (feq hours bestHours \<and> pod_name p < pod_name b))
                 then (Some p, hours)
                 else (best, bestHours))"

definition pickWorstOffender ::
    "('q, 's) k8s \<Rightarrow> 'q pod list \<Rightarrow> string \<Rightarrow> gotime \<Rightarrow> gotime \<Rightarrow> 'q pod option" where
  "pickWorstOffender L pods gpuRes from now = fst (foldl (pick_step L gpuRes from now) (None, Fin 0) pods)"

definition account_pods :: "('q, 's) k8s \<Rightarrow> 'q budget \<Rightarrow> 'q pod list \<Rightarrow> acc_pod list" where
  "account_pods L b pods = List.map_filter (\<lambda>p. podToAccounting L p (gpuResourceName_of b)) pods"

definition account_budget :: "('q, 's) k8s \<Rightarrow> 'q budget \<Rightarrow> gotime \<Rightarrow> 'q pod list \<Rightarrow> acc_result" where
  "account_budget L b now pods =
     Compute \<lparr>acc_window = window_of b, acc_quota = asApproximateFloat64 L (gpuHours (quota (spec b)))\<rparr>
       now (account_pods L b pods)"

subsection \<open>Status\<close>

definition ready_condition :: "gotime \<Rightarrow> condition" where
  "ready_condition now =
     \<lparr>cond_type = ConditionReady, cond_status = ConditionTrue, cond_reason = ''Reconciled'',
      cond_message = ''Accounting computed successfully.'', lastTransitionTime = now\<rparr>"

definition quota_condition :: "acc_result \<Rightarrow> gotime \<Rightarrow> condition" where
  "quota_condition r now =
     (if over r then
        \<lparr>cond_type = ConditionQuotaExceeded, cond_status = ConditionTrue, cond_reason = ''QuotaReached'',
         cond_message = ''Consumed '' @ format_fixed 3 (consumed r) @ '' GPU-hours meets or exceeds quota.'',
         lastTransitionTime = now\<rparr>
      else
        \<lparr>cond_type = ConditionQuotaExceeded, cond_status = ConditionFalse, cond_reason = ''WithinBudget'',
         cond_message = ''Consumed '' @ format_fixed 3 (consumed r) @ '' of '' @
           format_fixed 3 (fadd (consumed r) (remaining r)) @ '' GPU-hours.'',
         lastTransitionTime = now\<rparr>)"

definition recovered_condition :: "gotime \<Rightarrow> condition" where
  "recovered_condition now =
     \<lparr>cond_type = ConditionDegraded, cond_status = ConditionFalse, cond_reason = ''ReconcileSucceeded'',
      cond_message = ''Controller reconciled the budget without error.'', lastTransitionTime = now\<rparr>"

definition status_after ::
    "('q, 's) k8s \<Rightarrow> 'q budget \<Rightarrow> acc_result \<Rightarrow> condition list \<Rightarrow> 'q budget_status" where
  "status_after L b r conds =
     (status b)\<lparr>consumedGpuHours := gpuHoursToQuantity L (consumed r),
       remainingGpuHours := gpuHoursToQuantity L (remaining r),
       trackedPods := of_nat (tracked r),
       observedGeneration := generation b,
       conditions := conds\<rparr>"

definition writeStatus ::
    "('q, 's) k8s \<Rightarrow> ('q, 's, 'w) api \<Rightarrow> 'q budget \<Rightarrow> acc_result \<Rightarrow> gotime
      \<Rightarrow> ('q, 's, 'w, goerr + 'q budget) io" where
  "writeStatus L A b r now = do {
     t1 \<leftarrow> do_wall A;
     let c1 = setStatusCondition L t1 (conditions (status b)) (ready_condition now);
     t2 \<leftarrow> do_wall A;
     let c2 = setStatusCondition L t2 c1 (quota_condition r now);
     t3 \<leftarrow> do_wall A;
     let c3 = setStatusCondition L t3 c2 (recovered_condition now);
     p \<leftarrow> do_patch_status A b (b\<lparr>status := status_after L b r c3\<rparr>);
     State_Monad.return (case p of Inl e \<Rightarrow> Inl (Wrap ''patch status'' e) | Inr b' \<Rightarrow> Inr b')
   }"

definition markDegradedAndRequeue ::
    "('q, 's) k8s \<Rightarrow> ('q, 's, 'w) api \<Rightarrow> 'q budget \<Rightarrow> string \<Rightarrow> string
      \<Rightarrow> ('q, 's, 'w, goerr + duration) io" where
  "markDegradedAndRequeue L A b reason msg = do {
     t1 \<leftarrow> do_wall A;
     let c1 = setStatusCondition L t1 (conditions (status b))
       \<lparr>cond_type = ConditionDegraded, cond_status = ConditionTrue, cond_reason = reason,
        cond_message = msg, lastTransitionTime = zero_time\<rparr>;
     t2 \<leftarrow> do_wall A;
     let c2 = setStatusCondition L t2 c1
       \<lparr>cond_type = ConditionReady, cond_status = ConditionFalse, cond_reason = reason,
        cond_message = msg, lastTransitionTime = zero_time\<rparr>;
     p \<leftarrow> do_patch_status A b
       (b\<lparr>status := (status b)\<lparr>observedGeneration := generation b, conditions := c2\<rparr>\<rparr>);
     State_Monad.return (case p of
         Inl e \<Rightarrow> Inl (Wrap ''patch degraded status'' e)
       | Inr _ \<Rightarrow> Inr defaultRequeueInterval)
   }"

subsection \<open>The enforcement gate\<close>

definition maybeEnforce ::
    "('q, 's) k8s \<Rightarrow> ('q, 's, 'w) api \<Rightarrow> 'q budget \<Rightarrow> 'q pod list \<Rightarrow> gotime
      \<Rightarrow> ('q, 's, 'w, goerr option) io" where
  "maybeEnforce L A b pods now =
     (case findStatusCondition L (conditions (status b)) ConditionQuotaExceeded of
        None \<Rightarrow> State_Monad.return None
      | Some cond \<Rightarrow>
          if cond_status cond \<noteq> ConditionTrue then State_Monad.return None
          else if Before now (Add (lastTransitionTime cond) (grace_of b)) then State_Monad.return None
          else case pickWorstOffender L pods (gpuResourceName_of b) (Add now (- window_of b)) now of
              None \<Rightarrow> State_Monad.return None
            | Some offender \<Rightarrow> do {
                out \<leftarrow> New (action (enforcement (spec b))) L A b offender now;
                case out of
                  Inl err \<Rightarrow> State_Monad.return
                    (Some (Wrap (''enforce '' @ action (enforcement (spec b))) err))
                | Inr oc \<Rightarrow> do {
                    _ \<leftarrow> emit (CounterInc enforcementActionsTotal
                      [budget_namespace b, budget_name b, oc_action oc]);
                    p \<leftarrow> do_patch_status A b (b\<lparr>status := (status b)\<lparr>lastEnforcementAt := Some now\<rparr>\<rparr>);
                    State_Monad.return (case p of
                        Inl err \<Rightarrow> Some (Wrap ''patch last enforcement time'' err)
                      | Inr _ \<Rightarrow> None)
                  }
              })"

subsection \<open>Reconcile\<close>

definition finalize ::
    "('q, 's) k8s \<Rightarrow> ('q, 's, 'w) api \<Rightarrow> 'q budget \<Rightarrow> ('q, 's, 'w, goerr + duration) io" where
  "finalize L A b =
     (if \<not> containsFinalizer L (finalizers b) finalizerName then State_Monad.return (Inr 0)
      else do {
        _ \<leftarrow> clearBudgetMetrics (budget_namespace b) (budget_name b);
        u \<leftarrow> do_update A (b\<lparr>finalizers := removeFinalizer L (finalizers b) finalizerName\<rparr>);
        State_Monad.return (case u of Inl e \<Rightarrow> Inl (Wrap ''remove finalizer'' e) | Inr _ \<Rightarrow> Inr 0)
      })"

text \<open>The overridable clock of the reconciler, else the wall clock.\<close>

definition reconciler_now :: "('q, 's, 'w) api \<Rightarrow> ('q, 's, 'w, gotime) io" where
  "reconciler_now A = perform ReadClock (case clock A of Some c \<Rightarrow> c | None \<Rightarrow> wallClock A)"

text \<open>The part of \<open>Reconcile\<close> after the finalizer is in place.\<close>

definition reconcile_live ::
    "('q, 's) k8s \<Rightarrow> ('q, 's, 'w) api \<Rightarrow> 'q budget \<Rightarrow> ('q, 's, 'w, goerr + duration) io" where
  "reconcile_live L A b = do {
     now \<leftarrow> reconciler_now A;
     case labelSelectorAsSelector L (selector (spec b)) of
       Inl err \<Rightarrow> markDegradedAndRequeue L A b ''InvalidSelector'' (err_text err)
     | Inr sel \<Rightarrow> do {
         lst \<leftarrow> do_list_pods A (budget_namespace b) sel;
         case lst of
           Inl err \<Rightarrow> markDegradedAndRequeue L A b ''ListPodsFailed'' (err_text err)
         | Inr pods \<Rightarrow> do {
             let result = account_budget L b now pods;
             ws \<leftarrow> writeStatus L A b result now;
             case ws of
               Inl err \<Rightarrow> State_Monad.return (Inl err)
             | Inr b' \<Rightarrow> do {
                 _ \<leftarrow> publishMetrics b' result;
                 if over result then do {
                   e \<leftarrow> maybeEnforce L A b' pods now;
                   State_Monad.return (case e of
                       Some err \<Rightarrow> Inl err
                     | None \<Rightarrow> Inr overBudgetRequeueInterval)
                 }
                 else State_Monad.return (Inr defaultRequeueInterval)
               }
           }
       }
   }"

definition Reconcile ::
    "('q, 's) k8s \<Rightarrow> ('q, 's, 'w) api \<Rightarrow> string \<Rightarrow> string \<Rightarrow> ('q, 's, 'w, goerr + duration) io" where
  "Reconcile L A ns n = do {
     g \<leftarrow> do_get A ns n;
     case g of
       Inl err \<Rightarrow> State_Monad.return
         (if isNotFound L err then Inr 0 else Inl (Wrap ''fetch budget'' err))
     | Inr b \<Rightarrow>
         if (case deletionTimestamp b of None \<Rightarrow> False | Some t \<Rightarrow> \<not> IsZero t) then finalize L A b
         else if \<not> containsFinalizer L (finalizers b) finalizerName then do {
           u \<leftarrow> do_update A (b\<lparr>finalizers := addFinalizer L (finalizers b) finalizerName\<rparr>);
           case u of
             Inl err \<Rightarrow> State_Monad.return (Inl (Wrap ''add finalizer'' err))
           | Inr b' \<Rightarrow> reconcile_live L A b'
         }
         else reconcile_live L A b
   }"

text \<open>The map function of the pod watch; the object may not be a pod.\<close>

definition mapPodToBudgets ::
    "('q, 's) k8s \<Rightarrow> ('q, 's, 'w) api \<Rightarrow> 'q pod option \<Rightarrow> ('q, 's, 'w, (string \<times> string) list) io" where
  "mapPodToBudgets L A obj =
     (case obj of
        None \<Rightarrow> State_Monad.return []
      | Some p \<Rightarrow> do {
          lst \<leftarrow> do_list_budgets A (pod_namespace p);
          State_Monad.return (case lst of
              Inl err \<Rightarrow> []
            | Inr bs \<Rightarrow> List.map_filter (\<lambda>b.
                case labelSelectorAsSelector L (selector (spec b)) of
                  Inl err \<Rightarrow> None
                | Inr sel \<Rightarrow>
                    if \<not> selectorMatches L sel (pod_labels p) then None
                    else Some (budget_namespace b, budget_name b)) bs)
        })"

end
