(* ===== verification/Offender.thy ===== *)
theory Offender
  imports Controller
begin

text \<open>
  The offender ranking: the loop of \<open>pickWorstOffender\<close> is the scan of the prelude over the
  pods that are candidates, under the order "more hours, then smaller name"; so it finds the
  greatest contributor. Floats make this a strict weak order only because no contribution
  is a NaN.
\<close>

definition terminating :: "'q pod \<Rightarrow> bool" where
  "terminating p \<longleftrightarrow> pod_deletionTimestamp p \<noteq> None"

text \<open>The GPU-hours a pod contributes to the window, zero when it is not accounted.\<close>

definition usage_of :: "('q, 's) k8s \<Rightarrow> string \<Rightarrow> gotime \<Rightarrow> gotime \<Rightarrow> 'q pod \<Rightarrow> float64" where
  "usage_of L res from now p =
     (case podToAccounting L p res of None \<Rightarrow> Fin 0 | Some a \<Rightarrow> WindowUsage a from now)"

definition candidate :: "('q, 's) k8s \<Rightarrow> string \<Rightarrow> gotime \<Rightarrow> gotime \<Rightarrow> 'q pod \<Rightarrow> bool" where
  "candidate L res from now p \<longleftrightarrow> \<not> terminating p \<and> \<not> fle (usage_of L res from now p) (Fin 0)"

definition worse :: "('q pod \<Rightarrow> float64) \<Rightarrow> 'q pod \<Rightarrow> 'q pod \<Rightarrow> bool" where
  "worse u p q \<longleftrightarrow> flt (u q) (u p) \<or> (feq (u p) (u q) \<and> pod_name p < pod_name q)"

lemma flt_trans: "flt a b \<Longrightarrow> flt b c \<Longrightarrow> flt a c"
  by (cases a; cases b; cases c) auto

lemma flt_feq_trans: "flt a b \<Longrightarrow> feq b c \<Longrightarrow> flt a c" "feq a b \<Longrightarrow> flt b c \<Longrightarrow> flt a c"
  by (cases a; cases b; cases c; auto)+

lemma feq_trans: "feq a b \<Longrightarrow> feq b c \<Longrightarrow> feq a c"
  by (auto simp: feq_iff_fle intro: fle_trans)

lemma feq_sym: "feq a b \<longleftrightarrow> feq b a"
  by (auto simp: feq_iff_fle)

lemma flt_irrefl [simp]: "\<not> flt a a"
  by (cases a) auto

lemma trichotomy: "a \<noteq> NaN \<Longrightarrow> b \<noteq> NaN \<Longrightarrow> flt a b \<or> feq a b \<or> flt b a"
  by (cases a; cases b) auto

lemma worse_trans: "worse u p q \<Longrightarrow> worse u q r \<Longrightarrow> worse u p r"
  using feq_sym [of "u p" "u q"] feq_sym [of "u q" "u r"]
  unfolding worse_def by (auto dest: flt_trans flt_feq_trans feq_trans less_trans)

lemma worse_total:
  assumes "u p \<noteq> NaN" and "u q \<noteq> NaN" and "\<not> worse u p q"
  shows "worse u q p \<or> (feq (u p) (u q) \<and> pod_name p = pod_name q)"
  using assms trichotomy [OF assms(1,2)] feq_sym [of "u p" "u q"]
  by (auto simp: worse_def)

lemma worse_same:
  "feq (u p) (u q) \<Longrightarrow> pod_name p = pod_name q \<Longrightarrow> worse u p r \<longleftrightarrow> worse u q r"
  "feq (u p) (u q) \<Longrightarrow> pod_name p = pod_name q \<Longrightarrow> worse u r p \<longleftrightarrow> worse u r q"
  using feq_sym [of "u p" "u q"]
  by (auto simp: worse_def dest: flt_feq_trans feq_trans)

interpretation worse_order: strict_weak_order "\<lambda>p. u p \<noteq> NaN" "worse u" for u :: "'q pod \<Rightarrow> float64"
proof unfold_locales
  show "\<not> worse u x x" for x by (simp add: worse_def)
  show "worse u x z" if "worse u x y" "worse u y z" for x y z using that by (rule worse_trans)
  show "\<not> worse u x z"
    if "u x \<noteq> NaN" "u y \<noteq> NaN" "u z \<noteq> NaN" "\<not> worse u x y" "\<not> worse u y z" for x y z
    using worse_total [OF that(1,2,4)] worse_total [OF that(2,3,5)] that(4,5)
      worse_trans worse_same by blast
qed

subsection \<open>The loop is a scan\<close>

definition best_pair :: "('q pod \<Rightarrow> float64) \<Rightarrow> 'q pod option \<Rightarrow> 'q pod option \<times> float64" where
  "best_pair u x = (x, case x of None \<Rightarrow> Fin 0 | Some p \<Rightarrow> u p)"

lemma pick_step_scan:
  "pick_step L res from now (best_pair (usage_of L res from now) x) p =
    best_pair (usage_of L res from now)
      (if candidate L res from now p then scan_step (worse (usage_of L res from now)) x p else x)"
  by (auto simp: best_pair_def candidate_def terminating_def usage_of_def worse_def scan_step_def
      Let_def split: option.splits)

lemma foldl_pick_step:
  "foldl (pick_step L res from now) (best_pair (usage_of L res from now) x) pods =
    best_pair (usage_of L res from now)
      (foldl (scan_step (worse (usage_of L res from now))) x
        (List.filter (candidate L res from now) pods))"
  by (induction pods arbitrary: x) (auto simp: pick_step_scan simp del: pick_step.simps)

lemma pickWorstOffender_scan:
  "pickWorstOffender L pods res from now =
    scan (worse (usage_of L res from now)) (List.filter (candidate L res from now) pods)"
  using foldl_pick_step [of L res "from" now None pods]
  by (simp add: pickWorstOffender_def scan_def best_pair_def)

lemma usage_of_nonneg:
  assumes "requests_ok L p"
  shows "nonneg64 (usage_of L res from now p)"
  using podToAccounting_ok(1) [OF assms] WindowUsage_nonneg
  by (auto simp: usage_of_def split: option.splits)

lemma pickWorstOffender_None:
  "pickWorstOffender L pods res from now = None \<longleftrightarrow> (\<forall>p \<in> set pods. \<not> candidate L res from now p)"
  by (auto simp: pickWorstOffender_scan filter_empty_conv)

lemma offender_found:
  "(pickWorstOffender L pods res from now = None) = (\<not> list_ex (candidate L res from now) pods)"
  by (simp add: pickWorstOffender_None list_ex_iff)

lemma pickWorstOffender_candidate:
  "pickWorstOffender L pods res from now = Some p \<Longrightarrow> p \<in> set pods \<and> candidate L res from now p"
  using scan_in_set by (fastforce simp: pickWorstOffender_scan)

lemma pickWorstOffender_best:
  assumes pods: "\<forall>q \<in> set pods. requests_ok L q"
    and pick: "pickWorstOffender L pods res from now = Some p"
    and q: "q \<in> set pods" "candidate L res from now q"
  shows "fle (usage_of L res from now q) (usage_of L res from now p)"
    and "feq (usage_of L res from now q) (usage_of L res from now p) \<Longrightarrow> pod_name p \<le> pod_name q"
proof -
  let ?u = "usage_of L res from now"
  have nn: "?u r \<noteq> NaN" if "r \<in> set pods" for r
    using that pods usage_of_nonneg nonneg64_not_NaN by blast
  have "\<not> worse ?u q p"
    using worse_order.scan_best [of "List.filter (candidate L res from now) pods" ?u p q]
      nn pick q by (auto simp: pickWorstOffender_scan)
  moreover have "p \<in> set pods" using pickWorstOffender_candidate [OF pick] by blast
  ultimately show "fle (?u q) (?u p)"
    and "feq (?u q) (?u p) \<Longrightarrow> pod_name p \<le> pod_name q"
    using nn q(1) by (auto simp: worse_def flt_iff_not_fle not_less)
qed

end
