(* ===== verification/ReconcileSpec.thy ===== *)
theory ReconcileSpec
  imports Offender
begin

text \<open>
  The abstract specification of a reconcile pass: big-step relations between the calls of a
  pass and its result, one rule per way through the code, and the refinement theorems that
  every run of the reconciler, against any API server, is a derivation of them. The trace
  properties are then proved on the rules.
\<close>

subsection \<open>The enforcement gate\<close>

text \<open>The budget is flagged and the flag has stood for the grace period.\<close>

definition gate :: "('q, 's) k8s \<Rightarrow> 'q budget \<Rightarrow> gotime \<Rightarrow> bool" where
  "gate L b now =
     (case findStatusCondition L (conditions (status b)) ConditionQuotaExceeded of
        None \<Rightarrow> False
      | Some c \<Rightarrow> cond_status c = ConditionTrue \<and> lastTransitionTime c + sint (grace_of b) \<le> now)"

definition offender :: "('q, 's) k8s \<Rightarrow> 'q budget \<Rightarrow> 'q pod list \<Rightarrow> gotime \<Rightarrow> 'q pod option" where
  "offender L b pods now =
     pickWorstOffender L pods (gpuResourceName_of b) (Add now (- window_of b)) now"

definition stamped :: "'q budget \<Rightarrow> gotime \<Rightarrow> 'q budget" where
  "stamped b now = b\<lparr>status := (status b)\<lparr>lastEnforcementAt := Some now\<rparr>\<rparr>"

definition configured_action :: "'q budget \<Rightarrow> string" where
  "configured_action b = action (enforcement (spec b))"

inductive enforce_spec ::
    "('q, 's) k8s \<Rightarrow> 'q budget \<Rightarrow> 'q pod list \<Rightarrow> gotime \<Rightarrow> goerr option \<Rightarrow> ('q, 's) call list \<Rightarrow> bool"
  for L b pods now where
  closed: "\<not> gate L b now \<Longrightarrow> enforce_spec L b pods now None []"
| nobody: "gate L b now \<Longrightarrow> offender L b pods now = None \<Longrightarrow> enforce_spec L b pods now None []"
| failed: "gate L b now \<Longrightarrow> offender L b pods now = Some p \<Longrightarrow>
    enforcement_spec L (configured_action b) b p now (Inl e) cs \<Longrightarrow>
    enforce_spec L b pods now (Some (Wrap (''enforce '' @ configured_action b) e)) cs"
| acted: "gate L b now \<Longrightarrow> offender L b pods now = Some p \<Longrightarrow>
    enforcement_spec L (configured_action b) b p now (Inr oc) cs \<Longrightarrow>
    enforce_spec L b pods now
      (case r of Inl e \<Rightarrow> Some (Wrap ''patch last enforcement time'' e) | Inr _ \<Rightarrow> None)
      (cs @ [CounterInc enforcementActionsTotal [budget_namespace b, budget_name b, oc_action oc],
             PatchStatus b (stamped b now) r])"

lemma maybeEnforce_spec: "emits (maybeEnforce L A b pods now) (enforce_spec L b pods now)"
proof (cases "gate L b now")
  case False
  then show ?thesis
    by (auto simp: maybeEnforce_def gate_def go_defs not_le split: option.splits
        intro!: emits_return enforce_spec.closed)
next
  case True
  then obtain c where c: "findStatusCondition L (conditions (status b)) ConditionQuotaExceeded = Some c"
      "cond_status c = ConditionTrue" "\<not> Before now (Add (lastTransitionTime c) (grace_of b))"
    by (auto simp: gate_def go_defs split: option.splits)
  show ?thesis
  proof (cases "offender L b pods now")
    case None
    then show ?thesis using c True
      by (simp add: maybeEnforce_def offender_def emits_return enforce_spec.nobody)
  next
    case (Some p)
    then have off: "pickWorstOffender L pods (gpuResourceName_of b) (Add now (- window_of b)) now = Some p"
      by (simp add: offender_def)
    show ?thesis
      unfolding maybeEnforce_def c(1) off option.case
      using c(2,3)
      by (auto intro!: emits_bind emits_conseq [OF New_spec] emits_sum emits_return emits_emit
          emits_perform simp: do_patch_status_def True Some
          intro: enforce_spec.failed [OF True Some, unfolded configured_action_def append.simps]
            enforce_spec.acted [OF True Some, unfolded configured_action_def stamped_def])
  qed
qed

subsection \<open>A pass over a live budget\<close>

definition degraded_budget ::
    "('q, 's) k8s \<Rightarrow> gotime \<Rightarrow> gotime \<Rightarrow> 'q budget \<Rightarrow> string \<Rightarrow> string \<Rightarrow> 'q budget" where
  "degraded_budget L t1 t2 b reason msg =
     b\<lparr>status := (status b)\<lparr>observedGeneration := generation b,
       conditions := setStatusCondition L t2
         (setStatusCondition L t1 (conditions (status b))
           \<lparr>cond_type = ConditionDegraded, cond_status = ConditionTrue, cond_reason = reason,
            cond_message = msg, lastTransitionTime = zero_time\<rparr>)
         \<lparr>cond_type = ConditionReady, cond_status = ConditionFalse, cond_reason = reason,
          cond_message = msg, lastTransitionTime = zero_time\<rparr>\<rparr>\<rparr>"

definition reported_budget ::
    "('q, 's) k8s \<Rightarrow> gotime \<Rightarrow> gotime \<Rightarrow> gotime \<Rightarrow> 'q budget \<Rightarrow> acc_result \<Rightarrow> gotime \<Rightarrow> 'q budget" where
  "reported_budget L t1 t2 t3 b r now =
     b\<lparr>status := status_after L b r
       (setStatusCondition L t3
         (setStatusCondition L t2
           (setStatusCondition L t1 (conditions (status b)) (ready_condition now))
           (quota_condition r now))
         (recovered_condition now))\<rparr>"

text \<open>The degraded path: one status patch, then a retry at the default cadence.\<close>

inductive degraded_spec ::
    "('q, 's) k8s \<Rightarrow> 'q budget \<Rightarrow> string \<Rightarrow> string \<Rightarrow> goerr + duration \<Rightarrow> ('q, 's) call list \<Rightarrow> bool"
  for L b reason msg where
  patched: "degraded_spec L b reason msg (Inr defaultRequeueInterval)
    [PatchStatus b (degraded_budget L t1 t2 b reason msg) (Inr b')]"
| patch_failed: "degraded_spec L b reason msg (Inl (Wrap ''patch degraded status'' e))
    [PatchStatus b (degraded_budget L t1 t2 b reason msg) (Inl e)]"

lemma markDegradedAndRequeue_spec:
  "emits (markDegradedAndRequeue L A b reason msg) (degraded_spec L b reason msg)"
  unfolding markDegradedAndRequeue_def Let_def do_patch_status_def
  by (intro emits_rules)
    (auto intro!: emits_return degraded_spec.intros [unfolded degraded_budget_def] split: sum.split)

lemma writeStatus_spec:
  "emits (writeStatus L A b r now) (\<lambda>x cs. \<exists>t1 t2 t3 p.
     cs = [PatchStatus b (reported_budget L t1 t2 t3 b r now) p] \<and>
     x = (case p of Inl e \<Rightarrow> Inl (Wrap ''patch status'' e) | Inr b' \<Rightarrow> Inr b'))"
  unfolding writeStatus_def Let_def do_patch_status_def reported_budget_def
  by (intro emits_rules) auto

inductive live_spec ::
    "('q, 's) k8s \<Rightarrow> 'q budget \<Rightarrow> goerr + duration \<Rightarrow> ('q, 's) call list \<Rightarrow> bool" for L b where
  bad_selector: "labelSelectorAsSelector L (selector (spec b)) = Inl err \<Longrightarrow>
    degraded_spec L b ''InvalidSelector'' (err_text err) r cs \<Longrightarrow>
    live_spec L b r (ReadClock now # cs)"
| list_failed: "labelSelectorAsSelector L (selector (spec b)) = Inr sel \<Longrightarrow>
    degraded_spec L b ''ListPodsFailed'' (err_text err) r cs \<Longrightarrow>
    live_spec L b r (ReadClock now # ListPods (budget_namespace b) sel (Inl err) # cs)"
| report_failed: "labelSelectorAsSelector L (selector (spec b)) = Inr sel \<Longrightarrow>
    live_spec L b (Inl (Wrap ''patch status'' e))
      [ReadClock now, ListPods (budget_namespace b) sel (Inr pods),
       PatchStatus b (reported_budget L t1 t2 t3 b (account_budget L b now pods) now) (Inl e)]"
| in_budget: "labelSelectorAsSelector L (selector (spec b)) = Inr sel \<Longrightarrow>
    \<not> over (account_budget L b now pods) \<Longrightarrow>
    live_spec L b (Inr defaultRequeueInterval)
      ([ReadClock now, ListPods (budget_namespace b) sel (Inr pods),
        PatchStatus b (reported_budget L t1 t2 t3 b (account_budget L b now pods) now) (Inr b')] @
       publish_calls b' (account_budget L b now pods))"
| over_budget: "labelSelectorAsSelector L (selector (spec b)) = Inr sel \<Longrightarrow>
    over (account_budget L b now pods) \<Longrightarrow>
    enforce_spec L b' pods now e cs \<Longrightarrow>
    live_spec L b (case e of Some err \<Rightarrow> Inl err | None \<Rightarrow> Inr overBudgetRequeueInterval)
      ([ReadClock now, ListPods (budget_namespace b) sel (Inr pods),
        PatchStatus b (reported_budget L t1 t2 t3 b (account_budget L b now pods) now) (Inr b')] @
       publish_calls b' (account_budget L b now pods) @ cs)"

lemma reconcile_live_spec: "emits (reconcile_live L A b) (live_spec L b)"
proof (cases "labelSelectorAsSelector L (selector (spec b))")
  case (Inl err)
  then show ?thesis
    unfolding reconcile_live_def reconciler_now_def
    by (auto intro!: emits_bind emits_perform emits_conseq [OF markDegradedAndRequeue_spec]
        live_spec.bad_selector)
next
  case (Inr sel)
  show ?thesis
    unfolding reconcile_live_def reconciler_now_def Inr sum.case Let_def do_list_pods_def
  proof (intro emits_bind emits_perform emits_sum, goal_cases)
    case (1 now lst err)
    show ?case
      by (rule emits_conseq [OF markDegradedAndRequeue_spec])
        (simp add: 1 live_spec.list_failed [OF Inr])
  next
    case (2 now lst pods)
    show ?case
    proof (rule emits_conseq [OF writeStatus_spec], elim exE conjE, goal_cases)
      case (1 x cs t1 t2 t3 p)
      show ?case
      proof (cases p)
        case (Inl e)
        then show ?thesis using 1 2 Inr
          by (auto intro!: emits_return live_spec.report_failed)
      next
        case (Inr b')
        then show ?thesis using 1 2 \<open>labelSelectorAsSelector L (selector (spec b)) = Inr sel\<close>
          by (auto intro!: emits_bind emits_publish emits_return
              emits_conseq [OF maybeEnforce_spec]
              live_spec.in_budget [simplified append.simps]
              live_spec.over_budget [simplified append.simps])
      qed
    qed
  qed
qed

subsection \<open>A whole pass\<close>

definition deleting :: "'q budget \<Rightarrow> bool" where
  "deleting b \<longleftrightarrow> (case deletionTimestamp b of None \<Rightarrow> False | Some t \<Rightarrow> t \<noteq> 0)"

definition guarded :: "('q, 's) k8s \<Rightarrow> 'q budget \<Rightarrow> bool" where
  "guarded L b \<longleftrightarrow> containsFinalizer L (finalizers b) finalizerName"

definition released :: "('q, 's) k8s \<Rightarrow> 'q budget \<Rightarrow> 'q budget" where
  "released L b = b\<lparr>finalizers := removeFinalizer L (finalizers b) finalizerName\<rparr>"

definition with_guard :: "('q, 's) k8s \<Rightarrow> 'q budget \<Rightarrow> 'q budget" where
  "with_guard L b = b\<lparr>finalizers := addFinalizer L (finalizers b) finalizerName\<rparr>"

inductive reconcile_spec ::
    "('q, 's) k8s \<Rightarrow> string \<Rightarrow> string \<Rightarrow> goerr + duration \<Rightarrow> ('q, 's) call list \<Rightarrow> bool"
  for L ns n where
  gone: "isNotFound L e \<Longrightarrow> reconcile_spec L ns n (Inr 0) [GetBudget ns n (Inl e)]"
| fetch_failed: "\<not> isNotFound L e \<Longrightarrow>
    reconcile_spec L ns n (Inl (Wrap ''fetch budget'' e)) [GetBudget ns n (Inl e)]"
| already_released: "deleting b \<Longrightarrow> \<not> guarded L b \<Longrightarrow>
    reconcile_spec L ns n (Inr 0) [GetBudget ns n (Inr b)]"
| release: "deleting b \<Longrightarrow> guarded L b \<Longrightarrow>
    reconcile_spec L ns n (case r of Inl e \<Rightarrow> Inl (Wrap ''remove finalizer'' e) | Inr _ \<Rightarrow> Inr 0)
      (GetBudget ns n (Inr b) # clear_calls (budget_namespace b) (budget_name b) @
        [UpdateBudget (released L b) r])"
| guard_failed: "\<not> deleting b \<Longrightarrow> \<not> guarded L b \<Longrightarrow>
    reconcile_spec L ns n (Inl (Wrap ''add finalizer'' e))
      [GetBudget ns n (Inr b), UpdateBudget (with_guard L b) (Inl e)]"
| guard: "\<not> deleting b \<Longrightarrow> \<not> guarded L b \<Longrightarrow> live_spec L b' r cs \<Longrightarrow>
    reconcile_spec L ns n r (GetBudget ns n (Inr b) # UpdateBudget (with_guard L b) (Inr b') # cs)"
| live: "\<not> deleting b \<Longrightarrow> guarded L b \<Longrightarrow> live_spec L b r cs \<Longrightarrow>
    reconcile_spec L ns n r (GetBudget ns n (Inr b) # cs)"

lemma finalize_spec:
  "emits (finalize L A b) (\<lambda>x cs.
    if guarded L b then \<exists>r. cs = clear_calls (budget_namespace b) (budget_name b) @
        [UpdateBudget (released L b) r] \<and>
        x = (case r of Inl e \<Rightarrow> Inl (Wrap ''remove finalizer'' e) | Inr _ \<Rightarrow> Inr 0)
    else cs = [] \<and> x = Inr 0)"
  unfolding finalize_def guarded_def released_def do_update_def
  by (auto intro!: emits_bind emits_clear emits_perform emits_return)

lemma Reconcile_spec: "emits (Reconcile L A ns n) (reconcile_spec L ns n)"
proof -
  have del: "(case deletionTimestamp b of None \<Rightarrow> False | Some t \<Rightarrow> \<not> IsZero t) = deleting b" for b :: "'a budget"
    by (simp add: deleting_def go_defs split: option.splits)
  show ?thesis
    unfolding Reconcile_def do_get_def del guarded_def [symmetric] with_guard_def [symmetric] do_update_def
  proof (intro emits_bind emits_perform emits_sum emits_if, goal_cases)
    case (1 g err)
    then show ?case by (auto intro!: emits_return reconcile_spec.intros)
  next
    case (2 g b)
    then show ?case
      by (auto intro!: emits_conseq [OF finalize_spec] reconcile_spec.already_released
          reconcile_spec.release split: if_splits)
  next
    case (3 g b u err)
    then show ?case by (auto intro!: emits_return reconcile_spec.guard_failed)
  next
    case (4 g b u b')
    then show ?case by (auto intro!: emits_conseq [OF reconcile_live_spec] reconcile_spec.guard)
  next
    case (5 g b)
    then show ?case by (auto intro!: emits_conseq [OF reconcile_live_spec] reconcile_spec.live)
  qed
qed

end
