(* ===== verification/StatusLaws.thy ===== *)
theory StatusLaws
  imports ReconcileSpec
begin

text \<open>
  Laws of the status a pass writes: the conditions under the documented contract of
  \<open>meta.SetStatusCondition\<close>, the grace clock over a run of passes, the window and grace
  durations as wrapped 64-bit products, and the rounding of GPU-hours to milli-units.
\<close>

subsection \<open>The contract of the condition helpers\<close>

text \<open>
  The documented behaviour of \<open>SetStatusCondition\<close>: the entry of that type takes the new
  fields; its transition time is kept while the status stays, else it is the given time, or
  the current one when none is given; entries of other types are untouched. Finding an entry
  only looks at its type.
\<close>

text \<open>What the API server keeps of a timestamp: whole seconds.\<close>

definition whole_second :: "gotime \<Rightarrow> gotime" where
  "whole_second t = t - t mod 1000000000"

definition kept_condition :: "condition \<Rightarrow> condition" where
  "kept_condition c = c\<lparr>lastTransitionTime := whole_second (lastTransitionTime c)\<rparr>"

lemma whole_second_idem [simp]: "whole_second (whole_second t) = whole_second t"
  by (simp add: whole_second_def mod_diff_left_eq [symmetric])

lemma whole_second_bounds: "whole_second t \<le> t" "t < whole_second t + 1000000000"
  by (simp_all add: whole_second_def)

definition merged_condition :: "gotime \<Rightarrow> condition option \<Rightarrow> condition \<Rightarrow> condition" where
  "merged_condition now old c =
     (let fresh = (if lastTransitionTime c = 0 then now else lastTransitionTime c)
      in c\<lparr>lastTransitionTime :=
           (case old of
              None \<Rightarrow> fresh
            | Some o' \<Rightarrow> if cond_status o' = cond_status c then lastTransitionTime o' else fresh)\<rparr>)"

definition conditions_contract :: "('q, 's) k8s \<Rightarrow> bool" where
  "conditions_contract L \<longleftrightarrow>
     (\<forall>now cs c. findStatusCondition L (setStatusCondition L now cs c) (cond_type c) =
        Some (merged_condition now (findStatusCondition L cs (cond_type c)) c)) \<and>
     (\<forall>now cs c t. t \<noteq> cond_type c \<longrightarrow>
        findStatusCondition L (setStatusCondition L now cs c) t = findStatusCondition L cs t) \<and>
     (\<forall>cs t. findStatusCondition L (map kept_condition cs) t =
        map_option kept_condition (findStatusCondition L cs t))"

lemma find_set:
  assumes "conditions_contract L"
  shows "findStatusCondition L (setStatusCondition L now cs c) t =
    (if t = cond_type c then Some (merged_condition now (findStatusCondition L cs (cond_type c)) c)
     else findStatusCondition L cs t)"
  using assms by (auto simp: conditions_contract_def)

abbreviation condition_of :: "('q, 's) k8s \<Rightarrow> 'q budget \<Rightarrow> string \<Rightarrow> condition option" where
  "condition_of L b t \<equiv> findStatusCondition L (conditions (status b)) t"

lemma condition_types [simp]:
  "cond_type (ready_condition now) = ConditionReady"
  "cond_type (quota_condition r now) = ConditionQuotaExceeded"
  "cond_type (recovered_condition now) = ConditionDegraded"
  by (simp_all add: ready_condition_def quota_condition_def recovered_condition_def)

lemma quota_condition_fields [simp]:
  "cond_status (quota_condition r now) = (if over r then ConditionTrue else ConditionFalse)"
  "lastTransitionTime (quota_condition r now) = now"
  by (simp_all add: quota_condition_def)

lemma reported_conditions:
  assumes "conditions_contract L"
  shows "condition_of L (reported_budget L t1 t2 t3 b r now) ConditionReady =
      Some (merged_condition t1 (condition_of L b ConditionReady) (ready_condition now))"
    and "condition_of L (reported_budget L t1 t2 t3 b r now) ConditionQuotaExceeded =
      Some (merged_condition t2 (condition_of L b ConditionQuotaExceeded) (quota_condition r now))"
    and "condition_of L (reported_budget L t1 t2 t3 b r now) ConditionDegraded =
      Some (merged_condition t3 (condition_of L b ConditionDegraded) (recovered_condition now))"
  by (simp_all add: reported_budget_def status_after_def find_set [OF assms])

lemma degraded_conditions:
  assumes "conditions_contract L"
  shows "condition_of L (degraded_budget L t1 t2 b reason msg) ConditionQuotaExceeded =
      condition_of L b ConditionQuotaExceeded"
    and "\<exists>c. condition_of L (degraded_budget L t1 t2 b reason msg) ConditionDegraded = Some c \<and>
      cond_status c = ConditionTrue \<and> cond_reason c = reason \<and> cond_message c = msg"
    and "\<exists>c. condition_of L (degraded_budget L t1 t2 b reason msg) ConditionReady = Some c \<and>
      cond_status c = ConditionFalse \<and> cond_reason c = reason \<and> cond_message c = msg"
  by (simp_all add: degraded_budget_def find_set [OF assms] merged_condition_def Let_def)

lemma degraded_status:
  assumes "conditions_contract L"
  shows "condition_of L (degraded_budget L t1 t2 b reason msg) ConditionQuotaExceeded =
      condition_of L b ConditionQuotaExceeded \<and>
    (\<exists>c. condition_of L (degraded_budget L t1 t2 b reason msg) ConditionDegraded = Some c \<and>
      cond_status c = ConditionTrue \<and> cond_reason c = reason \<and> cond_message c = msg) \<and>
    (\<exists>c. condition_of L (degraded_budget L t1 t2 b reason msg) ConditionReady = Some c \<and>
      cond_status c = ConditionFalse \<and> cond_reason c = reason \<and> cond_message c = msg)"
  using degraded_conditions [OF assms] by blast

subsection \<open>The grace clock\<close>

text \<open>Since when the budget is flagged, if it is.\<close>

definition flagged_since :: "('q, 's) k8s \<Rightarrow> 'q budget \<Rightarrow> gotime option" where
  "flagged_since L b =
     (case condition_of L b ConditionQuotaExceeded of
        None \<Rightarrow> None
      | Some c \<Rightarrow> if cond_status c = ConditionTrue then Some (lastTransitionTime c) else None)"

lemma gate_flagged:
  "gate L b now = (case flagged_since L b of None \<Rightarrow> False | Some t \<Rightarrow> t + sint (grace_of b) \<le> now)"
  by (auto simp: gate_def flagged_since_def split: option.splits)

lemma flagged_reported:
  assumes "conditions_contract L" and "now \<noteq> 0"
  shows "flagged_since L (reported_budget L t1 t2 t3 b r now) =
    (if over r then (case flagged_since L b of None \<Rightarrow> Some now | Some t \<Rightarrow> Some t) else None)"
  using assms(2)
  by (auto simp: flagged_since_def reported_conditions [OF assms(1)] merged_condition_def Let_def
      split: option.splits)

lemma grace_reported [simp]: "grace_of (reported_budget L t1 t2 t3 b r now) = grace_of b"
  by (simp add: grace_of_def reported_budget_def)

lemma flagged_stamped [simp]: "flagged_since L (stamped b now) = flagged_since L b"
  by (simp add: flagged_since_def stamped_def)

text \<open>
  What a pass does to the budget the server stores: a report, the degraded path (both at some
  wall-clock readings of the library) or the stamp of an enforcement, kept in whole seconds.
  The abstract clock of a budget is the time since which it is over, if it is.
\<close>

definition kept :: "'q budget \<Rightarrow> 'q budget" where
  "kept b = b\<lparr>status := (status b)\<lparr>
     lastEnforcementAt := map_option whole_second (lastEnforcementAt (status b)),
     conditions := map kept_condition (conditions (status b))\<rparr>\<rparr>"

lemma flagged_kept:
  assumes "conditions_contract L"
  shows "flagged_since L (kept b) = map_option whole_second (flagged_since L b)"
proof -
  have "condition_of L (kept b) t = map_option kept_condition (condition_of L b t)" for t
    using assms by (simp add: conditions_contract_def kept_def)
  then show ?thesis
    by (auto simp: flagged_since_def kept_condition_def split: option.splits)
qed

datatype pass =
    Reported gotime gotime gotime acc_result gotime
  | Degraded gotime gotime string string
  | Enforced gotime

fun store :: "('q, 's) k8s \<Rightarrow> 'q budget \<Rightarrow> pass \<Rightarrow> 'q budget" where
  "store L b (Reported t1 t2 t3 r now) = kept (reported_budget L t1 t2 t3 b r now)"
| "store L b (Degraded t1 t2 reason msg) = kept (degraded_budget L t1 t2 b reason msg)"
| "store L b (Enforced now) = kept (stamped b now)"

fun tick :: "gotime option \<Rightarrow> pass \<Rightarrow> gotime option" where
  "tick since (Reported t1 t2 t3 r now) =
     (if over r then Some (whole_second (case since of None \<Rightarrow> now | Some t \<Rightarrow> t)) else None)"
| "tick since _ = map_option whole_second since"

text \<open>The reconciler's clock does not read the zero time.\<close>

fun clocked :: "pass \<Rightarrow> bool" where
  "clocked (Reported t1 t2 t3 r now) \<longleftrightarrow> now \<noteq> 0"
| "clocked _ = True"

lemma grace_degraded [simp]: "grace_of (degraded_budget L t1 t2 b reason msg) = grace_of b"
  by (simp add: grace_of_def degraded_budget_def)

lemma grace_stamped [simp]: "grace_of (stamped b now) = grace_of b"
  by (simp add: grace_of_def stamped_def)

lemma grace_kept [simp]: "grace_of (kept b) = grace_of b"
  by (simp add: grace_of_def kept_def)

lemma grace_store [simp]: "grace_of (store L b p) = grace_of b"
  by (cases p) simp_all

lemma store_tick:
  assumes "conditions_contract L" and "clocked p"
  shows "flagged_since L (store L b p) = tick (flagged_since L b) p"
proof (cases p)
  case (Reported t1 t2 t3 r now)
  then show ?thesis using assms
    by (simp add: flagged_kept flagged_reported split: option.splits)
next
  case (Degraded t1 t2 reason msg)
  have "flagged_since L (degraded_budget L t1 t2 b reason msg) = flagged_since L b"
    using degraded_conditions(1) [OF assms(1)] by (simp add: flagged_since_def)
  then show ?thesis using Degraded assms(1) by (simp add: flagged_kept)
next
  case (Enforced now)
  then show ?thesis using assms(1) by (simp add: flagged_kept)
qed

lemma stores_ticks:
  assumes "conditions_contract L" and "list_all clocked ps"
  shows "flagged_since L (foldl (store L) b ps) = foldl tick (flagged_since L b) ps"
    and "grace_of (foldl (store L) b ps) = grace_of b"
  using assms(2) by (induction ps rule: rev_induct) (auto simp: store_tick [OF assms(1)])

text \<open>While every report is over the quota the clock keeps the first time.\<close>

fun not_within :: "pass \<Rightarrow> bool" where
  "not_within (Reported t1 t2 t3 r now) \<longleftrightarrow> over r"
| "not_within _ = True"

lemma ticks_keep: "list_all not_within ps \<Longrightarrow> foldl tick (Some (whole_second t)) ps = Some (whole_second t)"
proof (induction ps)
  case (Cons p ps)
  then show ?case by (cases p) auto
qed simp

subsection \<open>Durations\<close>

lemma sint_scast [simp]: "sint (scast (w :: 32 word) :: 64 word) = sint w"
  by (rule sint_up_scast) (simp add: is_up)

lemma sint32_bounds: "- (2 ^ 31) \<le> sint (w :: 32 word)" "sint (w :: 32 word) < 2 ^ 31"
  using sint_greater_eq [of w] sint_less [of w] by simp_all

lemma sint_of_int_mult: "(w :: 64 word) * word_of_int k = word_of_int (sint w * k)"
  by (simp flip: wi_hom_mult)

lemma window_of_int: "window_of b = word_of_int (sint (windowHours (quota (spec b))) * 3600000000000)"
  using sint_of_int_mult [of "scast (windowHours (quota (spec b)))" 3600000000000]
  by (simp add: window_of_def Hour_def del: of_int_mult of_int_sint)

lemma grace_of_int: "grace_of b = word_of_int (sint (gracePeriodSeconds (enforcement (spec b))) * 1000000000)"
  using sint_of_int_mult [of "scast (gracePeriodSeconds (enforcement (spec b)))" 1000000000]
  by (simp add: grace_of_def Second_def del: of_int_mult of_int_sint)

lemma sint_window_of:
  assumes "0 \<le> sint (windowHours (quota (spec b)))" and "sint (windowHours (quota (spec b))) \<le> 2562047"
  shows "sint (window_of b) = sint (windowHours (quota (spec b))) * 3600000000000"
  unfolding window_of_int by (rule sint_word_of_int64) (use assms in auto)

lemma sint_grace_of:
  "sint (grace_of b) = sint (gracePeriodSeconds (enforcement (spec b))) * 1000000000"
  unfolding grace_of_int
  by (rule sint_word_of_int64)
    (use sint32_bounds [of "gracePeriodSeconds (enforcement (spec b))"] in auto)

text \<open>A window that is not positive makes every contribution to the ranking empty.\<close>

lemma no_offender:
  assumes "sint (window_of b) \<le> 0" and "sint (window_of b) \<noteq> - (2 ^ 63)"
  shows "offender L b pods now = None"
proof -
  have "sint (- window_of b) = - sint (window_of b)"
    using sint_word_of_int64 [of "- sint (window_of b)"] assms sint64_bounds [of "window_of b"]
    by simp
  then have neg: "now \<le> Add now (- window_of b)" using assms by (simp add: Add_def)
  have "usage_of L res (Add now (- window_of b)) now p = Fin 0" for res and p :: "'a pod"
    using neg by (auto simp: usage_of_def WindowUsage_def go_defs split: option.splits)
  then have "\<not> candidate L res (Add now (- window_of b)) now p" for res and p :: "'a pod"
    by (simp add: candidate_def)
  then show ?thesis by (simp add: offender_def pickWorstOffender_None)
qed

text \<open>
  From 2562048 hours on the product no longer fits: at that value it is negative, so the
  accounting falls back to the all-time window while nobody can be an offender.
\<close>

lemma window_overflow:
  assumes "windowHours (quota (spec b)) = 2562048"
  shows "sint (window_of b) = 2562048 * 3600000000000 - 2 ^ 64"
    and "window_start \<lparr>acc_window = window_of b, acc_quota = q\<rparr> now = zero_time"
    and "offender L b pods now = None"
proof -
  have w: "window_of b = word_of_int (2562048 * 3600000000000 - 2 ^ 64)"
    using assms by (simp add: window_of_int)
  show s: "sint (window_of b) = 2562048 * 3600000000000 - 2 ^ 64"
    unfolding w by (rule sint_word_of_int64) auto
  show "window_start \<lparr>acc_window = window_of b, acc_quota = q\<rparr> now = zero_time"
    by (simp add: window_start_def s del: of_int_sint)
  show "offender L b pods now = None"
    by (rule no_offender) (simp_all add: s)
qed

subsection \<open>The pod watch\<close>

definition selects :: "('q, 's) k8s \<Rightarrow> 'q pod \<Rightarrow> 'q budget \<Rightarrow> bool" where
  "selects L p b \<longleftrightarrow>
     (\<exists>sel. labelSelectorAsSelector L (selector (spec b)) = Inr sel \<and> selectorMatches L sel (pod_labels p))"

definition map_pod_spec :: "('q, 's) k8s \<Rightarrow> 'q pod \<Rightarrow> (string \<times> string) list \<Rightarrow> ('q, 's) call list \<Rightarrow> bool" where
  "map_pod_spec L p reqs cs \<longleftrightarrow>
     (\<exists>res. cs = [ListBudgets (pod_namespace p) res] \<and>
        reqs = (case res of
            Inl e \<Rightarrow> []
          | Inr bs \<Rightarrow> map (\<lambda>b. (budget_namespace b, budget_name b)) (List.filter (selects L p) bs)))"

lemma map_pod_filter:
  "List.map_filter (\<lambda>b. case labelSelectorAsSelector L (selector (spec b)) of
      Inl err \<Rightarrow> None
    | Inr sel \<Rightarrow> if \<not> selectorMatches L sel (pod_labels p) then None
        else Some (budget_namespace b, budget_name b)) bs =
    map (\<lambda>b. (budget_namespace b, budget_name b)) (List.filter (selects L p) bs)"
  by (induction bs) (auto simp: selects_def split: sum.splits)

lemma mapPodToBudgets_spec: "emits (mapPodToBudgets L A (Some p)) (map_pod_spec L p)"
  unfolding mapPodToBudgets_def option.case do_list_budgets_def map_pod_filter
  by (intro emits_rules) (auto simp: map_pod_spec_def)

lemma window_exact:
  assumes "0 \<le> sint (windowHours (quota (spec b)))" and "sint (windowHours (quota (spec b))) \<le> 2562047"
  shows "sint (window_of b) = sint (windowHours (quota (spec b))) * 3600000000000"
  using assms by (rule sint_window_of)

end
