(* ===== verification/Quantities.thy ===== *)
theory Quantities
  imports StatusLaws
begin

text \<open>
  The conversion of GPU-hours to the milli-unit quantities of the status: how far rounding
  to the nearest thousandth can be off through the float additions, that whole hours are
  exact, and that a negative or empty amount is shown as zero.
\<close>

subsection \<open>Absolute rounding error of moderate values\<close>

lemma lastexp_below:
  assumes "0 < x" and "x \<le> 2 ^ 41"
  shows "lastexp x \<le> - 11"
proof -
  have "ilog2 (2 ^ 41) = 41" by (rule ilog2_unique) (simp_all add: power_int_def)
  then have "lastexp (2 ^ 41) = - 11" by (simp add: lastexp_def)
  then show ?thesis using lastexp_mono [OF assms] by simp
qed

lemma round_grid_abs_error:
  assumes "0 \<le> x" and "x \<le> 2 ^ 41"
  shows "\<bar>round_grid x - x\<bar> \<le> 1 / 2 ^ 12"
proof (cases "x = 0")
  case False
  then have "(2 :: rat) powi lastexp x \<le> 2 powi (- 11)"
    using assms lastexp_below by (intro powi_two_mono) auto
  then have "(2 :: rat) powi lastexp x / 2 \<le> 1 / 2 ^ 12" by (simp add: power_int_minus)
  then show ?thesis using round_grid_error [OF False] by (rule order_trans [rotated])
qed simp

lemma round64_moderate:
  assumes "0 \<le> x" and "x \<le> 2 ^ 41"
  shows "\<exists>y. round64 x = Fin y \<and> 0 \<le> y \<and> \<bar>y - x\<bar> \<le> 1 / 2 ^ 12 \<and> rep64 y"
proof -
  have e: "\<bar>round_grid x - x\<bar> \<le> 1 / 2 ^ 12" using assms by (rule round_grid_abs_error)
  have nn: "0 \<le> round_grid x" using assms(1) by (rule round_grid_nonneg)
  have "round_grid x \<le> x + 1 / 2 ^ 12" using e by linarith
  also have "\<dots> \<le> 2 ^ 41 + 1" using assms(2) by (intro add_mono) auto
  also have "\<dots> < (2 ^ 1024 :: rat)" by simp
  finally have lim: "round_grid x < 2 ^ 1024" .
  have eq: "round64 x = Fin (round_grid x)"
    using assms(1) lim nn by (auto simp: round64_def Let_def)
  have "wf64 (Fin (round_grid x))" using wf64_round64 [of x] by (simp only: eq)
  then show ?thesis using eq e nn by auto
qed

subsection \<open>Milli-units\<close>

text \<open>The number of milli-units the code computes for an amount of hours.\<close>

definition milli_units :: "('q, 's) k8s \<Rightarrow> float64 \<Rightarrow> 64 word" where
  "milli_units L h =
     (let h' = (if flt h (Fin 0) then Fin 0 else h)
      in int64_of_float (int64OutOfRange L) (fadd (fmul h' (Fin 1000)) (Fin (1 / 2))))"

lemma gpuHoursToQuantity_milli: "gpuHoursToQuantity L h = newMilliQuantity L (milli_units L h)"
  by (simp add: gpuHoursToQuantity_def milli_units_def Let_def)

lemma int64_of_Fin:
  assumes "0 \<le> y" and "y < 2 ^ 63"
  shows "sint (int64_of_float oor (Fin y)) = \<lfloor>y\<rfloor>"
proof -
  have f: "0 \<le> \<lfloor>y\<rfloor>" "\<lfloor>y\<rfloor> < 2 ^ 63"
    using assms by (simp_all add: floor_less_iff)
  then show ?thesis
    using assms(1) sint_word_of_int64 [of "\<lfloor>y\<rfloor>"]
    by (simp add: int64_of_float_def trunc_rat_def is_inf_def)
qed

lemma half_float: "fadd (Fin x) (Fin (1 / 2)) = round64 (x + 1 / 2)"
  by simp

lemma fmul_thousand: "0 \<le> x \<Longrightarrow> fmul (Fin x) (Fin 1000) = round64 (x * 1000)"
  by (auto simp: fmul_def Let_def is_inf_def is_zero64_def signed_zero_def)

lemma milli_units_near:
  assumes "0 \<le> x" and "x \<le> 2 ^ 30"
  shows "\<bar>of_int (sint (milli_units L (Fin x))) - 1000 * x\<bar> \<le> 1 / 2 + 1 / 2 ^ 11"
proof -
  have up: "x * 1000 \<le> 2 ^ 40" using assms by simp
  obtain y where y: "round64 (x * 1000) = Fin y" "0 \<le> y" "\<bar>y - x * 1000\<bar> \<le> 1 / 2 ^ 12"
    using round64_moderate [of "x * 1000"] assms(1) up by auto
  have c: "(1 / 2 ^ 12 :: rat) \<le> 1" "(2 ^ 40 + 2 :: rat) \<le> 2 ^ 41" "(2 ^ 41 + 2 :: rat) \<le> 2 ^ 63"
    "(1 / 2 ^ 12 + 1 / 2 ^ 12 :: rat) = 1 / 2 ^ 11" by simp_all
  have "y + 1 / 2 \<le> 2 ^ 41" using y(3) up c by linarith
  then obtain z where z: "round64 (y + 1 / 2) = Fin z" "0 \<le> z" "\<bar>z - (y + 1 / 2)\<bar> \<le> 1 / 2 ^ 12"
    using round64_moderate [of "y + 1 / 2"] y(2) by auto
  have "z < 2 ^ 63" using z(3) \<open>y + 1 / 2 \<le> 2 ^ 41\<close> c by linarith
  then have m: "sint (milli_units L (Fin x)) = \<lfloor>z\<rfloor>"
    using assms(1) int64_of_Fin [OF z(2)]
    by (simp add: milli_units_def fmul_thousand y(1) z(1))
  have "of_int \<lfloor>z\<rfloor> \<le> z" "z < of_int \<lfloor>z\<rfloor> + 1" by linarith+
  then show ?thesis unfolding m using y(3) z(3) c by linarith
qed

lemma rep64_half:
  assumes "0 \<le> n" and "n \<le> 2 ^ 51"
  shows "rep64 (of_int n + 1 / 2)"
proof -
  have v: "(of_int n + 1 / 2 :: rat) = of_int (2 * n + 1) * 2 powi (- 1)" by simp
  have "(of_int n :: rat) \<le> 2 ^ 51" using assms(2) by (metis of_int_le_iff of_int_numeral of_int_power)
  then have lim: "\<bar>of_int n + 1 / 2 :: rat\<bar> \<le> 2 ^ 52" using assms(1) by simp
  have "(2 ^ 52 :: rat) < 2 ^ 1024" by simp
  with lim have lim': "\<bar>of_int n + 1 / 2 :: rat\<bar> < 2 ^ 1024" by (rule le_less_trans)
  have "round_grid (of_int (2 * n + 1) * 2 powi (- 1)) = (of_int (2 * n + 1) * 2 powi (- 1) :: rat)"
    using assms by (intro round_grid_exact_pos) auto
  then show ?thesis using lim' unfolding rep64_def v by blast
qed

lemma milli_units_whole:
  assumes "0 \<le> n" and "n \<le> 10 ^ 12"
  shows "sint (milli_units L (Fin (of_int n))) = 1000 * n"
proof -
  have a: "round64 (of_int n * 1000) = Fin (of_int (n * 1000))"
    using round64_rep64 [OF rep64_int [of "n * 1000"]] assms by simp
  have b: "round64 (of_int (n * 1000) + 1 / 2) = Fin (of_int (n * 1000) + 1 / 2)"
    using assms by (intro round64_rep64 rep64_half) auto
  have "(of_int n :: rat) \<le> 10 ^ 12" using assms(2) by (metis of_int_le_iff of_int_numeral of_int_power)
  then have lim: "of_int (n * 1000) + 1 / 2 < (2 ^ 63 :: rat)" by simp
  have nn: "0 \<le> (of_int (n * 1000) + 1 / 2 :: rat)" using assms(1) by simp
  have fl: "\<lfloor>of_int (n * 1000) + 1 / 2 :: rat\<rfloor> = n * 1000" by linarith
  show ?thesis
    using assms(1) int64_of_Fin [OF nn lim, of "int64OutOfRange L"]
    unfolding milli_units_def Let_def
    by (simp add: fmul_thousand a half_float b fl del: of_int_mult fadd.simps)
qed

lemma milli_units_clamped:
  assumes "flt h (Fin 0)"
  shows "sint (milli_units L h) = 0"
  using milli_units_whole [of 0 L] assms by (simp add: milli_units_def)

lemma quantity_rounding:
  assumes "0 \<le> x" and "x \<le> 2 ^ 30"
  shows "\<exists>m. gpuHoursToQuantity L (Fin x) = newMilliQuantity L m \<and>
    \<bar>of_int (sint m) - 1000 * x\<bar> \<le> 1 / 2 + 1 / 2 ^ 11"
  using milli_units_near [OF assms, of L] gpuHoursToQuantity_milli [of L "Fin x"] by blast

end
