(* ===== verification/Accuracy.thy ===== *)
theory Accuracy
  imports Accounting
begin

text \<open>
  The accuracy of the accounting engine: the float result of \<open>Compute\<close> against the exact
  rational GPU-hours of the pods in the window. Every rounding contributes a factor within
  \<open>1 \<plusminus> 2 ^ -53\<close>; the factors are counted.
\<close>

definition eps :: rat where
  "eps = 1 / 2 ^ 53"

text \<open>\<open>v\<close> is \<open>e\<close> up to \<open>k\<close> rounding factors.\<close>

definition near :: "nat \<Rightarrow> rat \<Rightarrow> rat \<Rightarrow> bool" where
  "near k v e \<longleftrightarrow> 0 \<le> e \<and> (1 - eps) ^ k * e \<le> v \<and> v \<le> (1 + eps) ^ k * e"

lemma eps_range: "0 < eps" "eps < 1"
  by (simp_all add: eps_def)

lemma near_refl: "0 \<le> e \<Longrightarrow> near k e e"
proof -
  assume "0 \<le> e"
  moreover have "(1 - eps) ^ k \<le> 1" using eps_range by (intro power_le_one) auto
  moreover have "1 \<le> (1 + eps) ^ k" using eps_range by (intro one_le_power) auto
  ultimately show ?thesis
    using mult_right_mono [of "(1 - eps) ^ k" 1 e] mult_right_mono [of 1 "(1 + eps) ^ k" e]
    by (simp add: near_def)
qed

lemma near_weaken: "near k v e \<Longrightarrow> k \<le> l \<Longrightarrow> near l v e"
proof -
  assume a: "near k v e" "k \<le> l"
  have "(1 - eps) ^ l \<le> (1 - eps) ^ k" using a(2) eps_range by (intro power_decreasing) auto
  moreover have "(1 + eps) ^ k \<le> (1 + eps) ^ l" using a(2) eps_range by (intro power_increasing) auto
  ultimately show ?thesis
    using a(1) mult_right_mono [of "(1 - eps) ^ l" "(1 - eps) ^ k" e]
      mult_right_mono [of "(1 + eps) ^ k" "(1 + eps) ^ l" e]
    by (auto simp: near_def)
qed

lemma near_add: "near k v e \<Longrightarrow> near k w f \<Longrightarrow> near k (v + w) (e + f)"
  by (simp add: near_def distrib_left)

lemma near_scale:
  assumes "near k v e" and "0 \<le> c"
  shows "near k (c * v) (c * e)"
proof -
  have "c * ((1 - eps) ^ k * e) \<le> c * v" "c * v \<le> c * ((1 + eps) ^ k * e)"
    using assms by (auto simp: near_def intro: mult_left_mono)
  then show ?thesis using assms by (simp add: near_def mult.left_commute)
qed

lemma near_pos: "near k v e \<Longrightarrow> 0 < e \<Longrightarrow> 0 < v"
proof -
  assume a: "near k v e" "0 < e"
  have "0 < (1 - eps) ^ k * e" using a(2) eps_range by simp
  then show ?thesis using a(1) by (simp add: near_def)
qed

lemma near_nonneg: "near k v e \<Longrightarrow> 0 \<le> v"
proof -
  assume a: "near k v e"
  have "0 \<le> (1 - eps) ^ k * e" using a eps_range by (simp add: near_def)
  then show ?thesis using a by (simp add: near_def)
qed

text \<open>One rounding adds one factor, outside the subnormal range.\<close>

lemma near_round:
  assumes w: "near k v e" and v: "v = 0 \<or> 2 powi (- 1022) \<le> v"
  shows "near (Suc k) (round_grid v) e"
proof -
  have nn: "0 \<le> v" using w by (rule near_nonneg)
  have "\<bar>round_grid v - v\<bar> \<le> v * eps"
    using v nn round_grid_rel_error [of v] by (auto simp: eps_def)
  then have r: "(1 - eps) * v \<le> round_grid v" "round_grid v \<le> (1 + eps) * v"
    by (auto simp: abs_le_iff algebra_simps)
  have "(1 - eps) * ((1 - eps) ^ k * e) \<le> (1 - eps) * v" "(1 + eps) * v \<le> (1 + eps) * ((1 + eps) ^ k * e)"
    using w eps_range by (auto simp: near_def intro!: mult_left_mono)
  then show ?thesis using w r by (auto simp: near_def mult.assoc)
qed

lemma round64_Fin: "round64 v = Fin x \<Longrightarrow> x = round_grid v"
  by (auto simp: round64_def Let_def split: if_splits)

lemma near_error: "near k v e \<Longrightarrow> \<bar>v - e\<bar> \<le> ((1 + eps) ^ k - 1) * e"
proof -
  assume w: "near k v e"
  have "1 - (1 - eps) ^ k \<le> (1 + eps) ^ k - 1"
  proof (induction k)
    case (Suc k)
    have p: "(1 - eps) ^ k \<le> 1" "0 \<le> (1 - eps) ^ k" "1 \<le> (1 + eps) ^ k"
      using eps_range by (auto intro: power_le_one one_le_power)
    have "(1 - eps) ^ k * eps \<le> (1 + eps) ^ k * eps"
      using p eps_range by (intro mult_right_mono) linarith+
    then show ?case using Suc by (simp add: algebra_simps)
  qed simp
  then have "(1 - (1 - eps) ^ k) * e \<le> ((1 + eps) ^ k - 1) * e"
    using w by (intro mult_right_mono) (auto simp: near_def)
  then show ?thesis using w by (auto simp: near_def abs_le_iff algebra_simps)
qed

subsection \<open>Hours of a duration\<close>

definition hours_exact :: "int \<Rightarrow> rat" where
  "hours_exact n = of_int n / 3600000000000"

lemma Hours_near:
  assumes "0 < sint d"
  shows "\<exists>x. Hours d = Fin x \<and> near 2 x (hours_exact (sint d))"
proof -
  let ?h = "of_int (sint d div 3600000000000) :: rat"
  let ?f = "of_int (sint d mod 3600000000000) / 3600000000000 :: rat"
  have n: "0 \<le> sint d mod 3600000000000" by simp
  have split: "?h + ?f = hours_exact (sint d)"
  proof -
    have "(of_int (sint d) :: rat) =
        of_int (sint d div 3600000000000 * 3600000000000 + sint d mod 3600000000000)"
      by (simp only: div_mult_mod_eq)
    also have "\<dots> = ?h * 3600000000000 + of_int (sint d mod 3600000000000)"
      by (simp only: of_int_add of_int_mult of_int_numeral)
    finally show ?thesis by (simp add: hours_exact_def add_divide_distrib del: of_int_sint)
  qed
  have f: "0 \<le> ?f" "?f = 0 \<or> 2 powi (- 1022) \<le> ?f"
  proof -
    show "0 \<le> ?f" using n by simp
    have "2 powi (- 1022) \<le> (1 / 3600000000000 :: rat)" by simp
    moreover have "(1 / 3600000000000 :: rat) \<le> ?f" if "sint d mod 3600000000000 \<noteq> 0"
      using that n by (intro divide_right_mono) auto
    ultimately show "?f = 0 \<or> 2 powi (- 1022) \<le> ?f"
      by (cases "sint d mod 3600000000000 = 0") (auto simp del: powi_two_pos intro: order_trans)
  qed
  obtain y where y: "round64 ?f = Fin y" "0 \<le> y"
    using Hours_nonneg_eq(2) [of d] assms by auto
  have wf: "near 1 y ?f"
    using near_round [OF near_refl [OF f(1), of 0] f(2)] round64_Fin [OF y(1)] by simp
  have h: "0 \<le> ?h" using assms by (simp add: pos_imp_zdiv_nonneg_iff)
  have ws: "near 1 (?h + y) (hours_exact (sint d))"
    using near_add [OF near_refl [OF h, of 1] wf] by (simp only: split)
  have eq: "Hours d = round64 (?h + y)" using Hours_nonneg_eq(1) [of d] assms y by simp
  obtain x where x: "Hours d = Fin x" using Hours_pos [OF assms] by auto
  have big: "2 powi (- 1022) \<le> ?h + y"
  proof (cases "sint d div 3600000000000 = 0")
    case False
    then have "1 \<le> ?h" using assms by (simp add: pos_imp_zdiv_pos_iff not_le)
    then have "1 \<le> ?h + y" using y(2) by linarith
    moreover have "2 powi (- 1022) \<le> (1 :: rat)" by simp
    ultimately show ?thesis by linarith
  next
    case True
    then have "sint d mod 3600000000000 \<noteq> 0" using assms by (metis mult_div_mod_eq mult_zero_right add_0 less_irrefl)
    then have "1 \<le> sint d mod 3600000000000" using n by linarith
    then have "(1 / 3600000000000 :: rat) \<le> ?f" by (intro divide_right_mono) auto
    moreover have "round_grid (2 powi (- 1022)) = 2 powi (- 1022)" using round_grid_exact [of 1 "- 1022"] by simp
    moreover have "2 powi (- 1022) \<le> (1 / 3600000000000 :: rat)" by simp
    ultimately have "2 powi (- 1022) \<le> y"
      using round_grid_mono [of "2 powi (- 1022)" ?f] round64_Fin [OF y(1)] by linarith
    then show ?thesis using h by linarith
  qed
  have "near 2 x (hours_exact (sint d))"
    using near_round [OF ws] big round64_Fin [of "?h + y" x] x eq by (simp add: numeral_2_eq_2)
  then show ?thesis using x by blast
qed

subsection \<open>One pod and the sum\<close>

definition exact_usage :: "acc_pod \<Rightarrow> gotime \<Rightarrow> gotime \<Rightarrow> rat" where
  "exact_usage p from to =
     (if 0 < overlap p from to \<and> 0 < fval (acc_gpus p)
      then fval (acc_gpus p) * hours_exact (overlap p from to) else 0)"

definition exact_sum :: "gotime \<Rightarrow> gotime \<Rightarrow> acc_pod list \<Rightarrow> rat" where
  "exact_sum from to ps = sum_list (map (\<lambda>p. exact_usage p from to) ps)"

text \<open>
  A GPU request as the API server stores it: finite, and a positive one is at least one
  nano-unit, the finest a \<open>resource.Quantity\<close> can express. The overlap stays below the
  292 years at which \<open>Time.Sub\<close> saturates.
\<close>

definition measurable :: "gotime \<Rightarrow> gotime \<Rightarrow> acc_pod \<Rightarrow> bool" where
  "measurable from to p \<longleftrightarrow>
     (\<exists>g. acc_gpus p = Fin g \<and> rep64 g \<and> (g \<le> 0 \<or> 1 / 10 ^ 9 \<le> g)) \<and> overlap p from to < 2 ^ 63"

lemma measurable_ok: "measurable from to p \<Longrightarrow> acc_ok p"
  by (auto simp: measurable_def acc_ok_def)

lemma tiny_le: "2 powi (- 1022) \<le> (1 / 10 ^ 9 * (1 / 7200000000000) :: rat)"
  by simp

lemma usage_near:
  assumes m: "measurable from to p" and fin: "WindowUsage p from to \<noteq> PInf"
  obtains v where "WindowUsage p from to = Fin v" and "near 3 v (exact_usage p from to)"
    and "v = 0 \<or> 2 powi (- 1022) \<le> v"
proof (cases "0 < overlap p from to \<and> 0 < fval (acc_gpus p)")
  case False
  have "WindowUsage p from to = Fin 0"
    using False m by (auto simp: WindowUsage_overlap measurable_def)
  moreover have "exact_usage p from to = 0" using False by (auto simp: exact_usage_def)
  ultimately show ?thesis using near_refl [of 0 3] by (intro that [of 0]) auto
next
  case True
  obtain g where g: "acc_gpus p = Fin g" "1 / 10 ^ 9 \<le> g" "overlap p from to < 2 ^ 63"
    using True m by (auto simp: measurable_def)
  let ?d = "overlap p from to"
  have g0: "0 < g" using g(2) by (rule less_le_trans [rotated]) simp
  have sd: "sint (Sub ?d 0) = ?d" using True g(3) by (simp add: sint_Sub)
  then obtain x where x: "Hours (Sub ?d 0) = Fin x" "near 2 x (hours_exact ?d)"
    using Hours_near [of "Sub ?d 0"] True by auto
  have x0: "0 < x" using near_pos [OF x(2)] True by (simp add: hours_exact_def)
  have w: "near 2 (g * x) (exact_usage p from to)"
    using near_scale [OF x(2), of g] g0 True g(1) by (simp add: exact_usage_def)
  have big: "2 powi (- 1022) \<le> g * x"
  proof -
    have "(1 / 3600000000000 :: rat) \<le> hours_exact ?d"
      unfolding hours_exact_def using True by (intro divide_right_mono) auto
    moreover have "(1 - eps) ^ 2 * hours_exact ?d \<le> x" using x(2) by (simp add: near_def)
    moreover have "(1 / 2 :: rat) \<le> (1 - eps) ^ 2" by (simp add: eps_def power2_eq_square)
    ultimately have "1 / 7200000000000 \<le> x"
      using mult_mono [of "1 / 2 :: rat" "(1 - eps) ^ 2" "1 / 3600000000000" "hours_exact ?d"] by linarith
    then have "1 / 10 ^ 9 * (1 / 7200000000000) \<le> g * x" using g(2) g0 by (intro mult_mono) auto
    then show ?thesis using tiny_le by (rule order_trans [rotated])
  qed
  have u: "WindowUsage p from to = round64 (g * x)"
    using True g0 x0 g(1) x(1)
    by (simp add: WindowUsage_overlap fmul_def Let_def is_inf_def)
  have ge: "2 powi (- 1022) \<le> round_grid (g * x)"
    using round_grid_mono [OF big] round_grid_exact [of 1 "- 1022"] by simp
  then have pos: "0 < round_grid (g * x)" using powi_two_pos [of "- 1022"] by linarith
  then have "WindowUsage p from to = Fin (round_grid (g * x))"
    using u fin g0 x0 by (auto simp: round64_def Let_def split: if_splits)
  then show ?thesis
    using near_round [OF w] big ge by (intro that) (auto simp: eval_nat_numeral)
qed

lemma sum_near:
  assumes "\<forall>p \<in> set ps. measurable from to p"
    and "sum_usage (\<lambda>p. WindowUsage p from to) ps \<noteq> PInf"
  shows "\<exists>c. sum_usage (\<lambda>p. WindowUsage p from to) ps = Fin c
    \<and> near (length ps + 3) c (exact_sum from to ps) \<and> (c = 0 \<or> 2 powi (- 1022) \<le> c)"
  using assms
proof (induction ps rule: rev_induct)
  case Nil
  show ?case using near_refl [of 0 3] by (simp add: sum_usage_def exact_sum_def)
next
  case (snoc p ps)
  let ?S = "sum_usage (\<lambda>p. WindowUsage p from to)"
  have ok: "\<forall>q \<in> set ps. acc_ok q" "acc_ok p"
    using snoc.prems(1) by (auto intro: measurable_ok)
  have nn: "nonneg64 (?S ps)" "nonneg64 (WindowUsage p from to)"
    using window_meter.sum_nonneg [OF ok(1)] WindowUsage_nonneg [OF ok(2)] by auto
  have S: "?S (ps @ [p]) = fadd (?S ps) (WindowUsage p from to)" by (rule window_meter.sum_snoc)
  then have fin: "?S ps \<noteq> PInf" "WindowUsage p from to \<noteq> PInf"
    using snoc.prems(2) nn by (auto simp: fadd_nonneg_eq)
  obtain c where c: "?S ps = Fin c" "near (length ps + 3) c (exact_sum from to ps)"
      "c = 0 \<or> 2 powi (- 1022) \<le> c"
    using snoc.IH snoc.prems(1) fin(1) by auto
  obtain v where v: "WindowUsage p from to = Fin v" "near 3 v (exact_usage p from to)"
      "v = 0 \<or> 2 powi (- 1022) \<le> v"
    using usage_near [of "from" to p] snoc.prems(1) fin(2) by auto
  have ge: "c + v = 0 \<or> 2 powi (- 1022) \<le> c + v"
    using c(3) v(3) near_nonneg [OF c(2)] near_nonneg [OF v(2)] by auto
  have "near (length ps + 3) (c + v) (exact_sum from to ps + exact_usage p from to)"
    using near_add [OF c(2) near_weaken [OF v(2)]] by simp
  then have n: "near (Suc (length ps + 3)) (round_grid (c + v))
      (exact_sum from to ps + exact_usage p from to)"
    using ge by (rule near_round)
  have sum: "?S (ps @ [p]) = round64 (c + v)" using S c(1) v(1) by simp
  have cv: "0 \<le> c + v" using near_nonneg [OF c(2)] near_nonneg [OF v(2)] by simp
  have ge': "round_grid (c + v) = 0 \<or> 2 powi (- 1022) \<le> round_grid (c + v)"
    using ge round_grid_mono [of "2 powi (- 1022)" "c + v"] round_grid_exact [of 1 "- 1022"] by auto
  have "?S (ps @ [p]) = Fin (round_grid (c + v))"
    using sum snoc.prems(2) cv round_grid_nonneg [OF cv] by (auto simp: round64_def Let_def split: if_splits)
  then show ?case using n ge' by (simp add: exact_sum_def)
qed

subsection \<open>Finite amounts stay finite\<close>

lemma eps_bernoulli: "1 - of_nat k * eps \<le> (1 - eps) ^ k"
proof (induction k)
  case (Suc k)
  have "(1 - eps) * (1 - of_nat k * eps) \<le> (1 - eps) * (1 - eps) ^ k"
    using Suc eps_range by (intro mult_left_mono) auto
  moreover have "1 - of_nat (Suc k) * eps \<le> (1 - eps) * (1 - of_nat k * eps)"
    using eps_range by (simp add: algebra_simps)
  ultimately show ?case by simp
qed simp

lemma round64_moderate_Fin:
  assumes "0 \<le> x" and "x \<le> 2 ^ 100"
  shows "round64 x = Fin (round_grid x)" and "rep64 (round_grid x)"
proof -
  have r: "rep64 (2 ^ 100)" using round_grid_exact [of 1 100] by (simp add: rep64_def power_int_def)
  have "round_grid x \<le> 2 ^ 100"
    using round_grid_mono [OF assms(2)] by (simp only: rep64_round_grid [OF r])
  also have "\<dots> < (2 ^ 1024 :: rat)" by (rule power_strict_increasing) simp_all
  finally have "round_grid x < 2 ^ 1024" .
  then show eq: "round64 x = Fin (round_grid x)"
    using assms(1) round_grid_nonneg [OF assms(1)] by (auto simp: round64_def Let_def)
  show "rep64 (round_grid x)" using wf64_round64 [of x] unfolding eq by simp
qed

lemma near_at_most_twice:
  assumes "near k c X" and "k \<le> 2 ^ 51"
  shows "c \<le> 2 * X"
proof -
  have p: "0 < (1 - eps) ^ k" using eps_range by simp
  have "(1 + eps) ^ k * (1 - eps) ^ k = (1 - eps * eps) ^ k"
    by (simp add: power_mult_distrib [symmetric] algebra_simps)
  also have "\<dots> \<le> 1" using eps_range by (intro power_le_one) (auto simp: mult_le_one)
  finally have a: "(1 + eps) ^ k * (1 - eps) ^ k \<le> 1" .
  have "(of_nat k :: rat) \<le> of_nat (2 ^ 51)" using assms(2) by (simp only: of_nat_le_iff)
  then have "of_nat k * eps \<le> of_nat (2 ^ 51) * eps" using eps_range by (intro mult_right_mono) auto
  then have half: "1 / 2 \<le> (1 - eps) ^ k" using eps_bernoulli [of k] by (simp add: eps_def)
  have "(1 + eps) ^ k * (1 / 2) \<le> (1 + eps) ^ k * (1 - eps) ^ k"
    using half eps_range by (intro mult_left_mono) auto
  then have "(1 + eps) ^ k \<le> 2" using a by linarith
  then have "(1 + eps) ^ k * X \<le> 2 * X" using assms(1) by (intro mult_right_mono) (auto simp: near_def)
  then show ?thesis using assms(1) by (simp add: near_def)
qed

lemma exact_usage_nonneg: "0 \<le> exact_usage p from to"
  by (simp add: exact_usage_def hours_exact_def)

lemma exact_sum_snoc: "exact_sum from to (ps @ [p]) = exact_sum from to ps + exact_usage p from to"
  by (simp add: exact_sum_def)

lemma exact_sum_nonneg: "0 \<le> exact_sum from to ps"
  unfolding exact_sum_def by (intro sum_list_nonneg) (auto simp: exact_usage_nonneg)

lemma usage_finite:
  assumes "measurable from to p" and "exact_usage p from to \<le> 2 ^ 98"
  shows "WindowUsage p from to \<noteq> PInf"
proof (cases "0 < overlap p from to \<and> 0 < fval (acc_gpus p)")
  case False
  then show ?thesis using assms(1) by (auto simp: WindowUsage_overlap measurable_def)
next
  case True
  obtain g where g: "acc_gpus p = Fin g" "overlap p from to < 2 ^ 63"
    using True assms(1) by (auto simp: measurable_def)
  have g0: "0 < g" using True g(1) by simp
  have sd: "sint (Sub (overlap p from to) 0) = overlap p from to" using True g(2) by (simp add: sint_Sub)
  then obtain x where x: "Hours (Sub (overlap p from to) 0) = Fin x" "near 2 x (hours_exact (overlap p from to))"
    using Hours_near [of "Sub (overlap p from to) 0"] True by auto
  have x0: "0 < x" using near_pos [OF x(2)] True by (simp add: hours_exact_def)
  have "near 2 (g * x) (exact_usage p from to)"
    using near_scale [OF x(2), of g] g0 True g(1) by (simp add: exact_usage_def)
  then have "g * x \<le> 2 * exact_usage p from to" by (rule near_at_most_twice) simp
  then have "g * x \<le> 2 ^ 100" using assms(2) by simp
  then have "round64 (g * x) = Fin (round_grid (g * x))" using g0 x0 by (intro round64_moderate_Fin) auto
  then show ?thesis using True g0 x0 g(1) x(1)
    by (simp add: WindowUsage_overlap fmul_def Let_def is_inf_def)
qed

lemma sum_finite:
  assumes "\<forall>p \<in> set ps. measurable from to p" and "length ps \<le> 2 ^ 50" and "exact_sum from to ps \<le> 2 ^ 98"
  shows "sum_usage (\<lambda>p. WindowUsage p from to) ps \<noteq> PInf"
  using assms
proof (induction ps rule: rev_induct)
  case Nil
  then show ?case by (simp add: sum_usage_def)
next
  case (snoc p ps)
  let ?S = "sum_usage (\<lambda>p. WindowUsage p from to)"
  have ex: "exact_sum from to ps \<le> 2 ^ 98" "exact_usage p from to \<le> 2 ^ 98"
    using snoc.prems(3) exact_usage_nonneg [of p "from" to] exact_sum_nonneg [of "from" to ps]
    by (simp_all add: exact_sum_snoc)
  have pre: "?S ps \<noteq> PInf" using snoc ex(1) by simp
  obtain c where c: "?S ps = Fin c" "near (length ps + 3) c (exact_sum from to ps)"
    using sum_near [of ps "from" to] snoc.prems(1) pre by auto
  have m: "measurable from to p" using snoc.prems(1) by simp
  obtain v where v: "WindowUsage p from to = Fin v" "near 3 v (exact_usage p from to)"
    by (rule usage_near [OF m usage_finite [OF m ex(2)]])
  have "c \<le> 2 * exact_sum from to ps" "v \<le> 2 * exact_usage p from to"
    using near_at_most_twice [OF c(2)] near_at_most_twice [OF v(2)] snoc.prems(2) by simp_all
  then have le: "c + v \<le> 2 ^ 100" using ex by simp
  have "0 \<le> c + v" using near_nonneg [OF c(2)] near_nonneg [OF v(2)] by simp
  moreover have "?S (ps @ [p]) = round64 (c + v)"
    using window_meter.sum_snoc [of "from" to ps p] c(1) v(1) by simp
  ultimately show ?case using round64_moderate_Fin(1) le by simp
qed

subsection \<open>Whole hours\<close>

text \<open>A pod with an integral GPU count whose overlap with the window is a number of whole hours.\<close>

definition whole_hours :: "gotime \<Rightarrow> gotime \<Rightarrow> acc_pod \<Rightarrow> bool" where
  "whole_hours from to p \<longleftrightarrow>
     (\<exists>g k. acc_gpus p = Fin (of_int g) \<and> 0 \<le> g \<and> g \<le> 2 ^ 53 \<and>
        overlap p from to = k * 3600000000000 \<and> k \<le> 2562047)"

lemma hours_exact_whole: "hours_exact (k * 3600000000000) = of_int k"
  by (simp add: hours_exact_def)

lemma whole_usage:
  assumes "whole_hours from to p" and "exact_usage p from to \<le> 2 ^ 53"
  shows "WindowUsage p from to = Fin (exact_usage p from to)"
    and "\<exists>n. exact_usage p from to = of_int n \<and> 0 \<le> n"
proof -
  obtain g k where g: "acc_gpus p = Fin (of_int g)" "0 \<le> g"
      and k: "overlap p from to = k * 3600000000000" "k \<le> 2562047"
    using assms(1) by (auto simp: whole_hours_def)
  have "exact_usage p from to = of_int (if 0 < k \<and> 0 < g then g * k else 0)"
    by (simp add: exact_usage_def g k hours_exact_whole zero_less_mult_iff)
  then show n: "\<exists>n. exact_usage p from to = of_int n \<and> 0 \<le> n"
    using g(2) by (intro exI [of _ "if 0 < k \<and> 0 < g then g * k else 0"]) auto
  show "WindowUsage p from to = Fin (exact_usage p from to)"
  proof (cases "0 < k \<and> 0 < g")
    case True
    then have e: "exact_usage p from to = of_int (g * k)"
      by (simp add: exact_usage_def g k hours_exact_whole)
    then have "of_int (g * k) \<le> (of_int (2 ^ 53) :: rat)" using assms(2) by simp
    then have le: "g * k \<le> 2 ^ 53" by (simp only: of_int_le_iff)
    have "sint (Sub (overlap p from to) 0) = k * 3600000000000"
      using True k by (simp add: sint_Sub)
    then have "Hours (Sub (overlap p from to) 0) = Fin (of_int k)"
      using True by (intro Hours_whole) auto
    then have h: "Hours (Sub (k * 3600000000000) 0) = Fin (of_int k)" by (simp only: k)
    have r: "round64 (of_int (g * k)) = Fin (of_int (g * k))"
      using le True by (intro round64_rep64 rep64_int) auto
    show ?thesis
      using True k r by (simp add: WindowUsage_overlap g h e fmul_def Let_def is_inf_def zero_less_mult_iff)
  next
    case False
    then show ?thesis
      using g(2) k by (auto simp: WindowUsage_overlap exact_usage_def g zero_less_mult_iff not_less)
  qed
qed

lemma sum_whole:
  assumes "\<forall>p \<in> set ps. whole_hours from to p" and "exact_sum from to ps \<le> 2 ^ 53"
  shows "sum_usage (\<lambda>p. WindowUsage p from to) ps = Fin (exact_sum from to ps)"
    and "\<exists>n. exact_sum from to ps = of_int n \<and> 0 \<le> n"
proof -
  have "sum_usage (\<lambda>p. WindowUsage p from to) ps = Fin (exact_sum from to ps) \<and>
      (\<exists>n. exact_sum from to ps = of_int n \<and> 0 \<le> n)"
    using assms
  proof (induction ps rule: rev_induct)
    case Nil
    then show ?case by (auto simp: sum_usage_def exact_sum_def intro: exI [of _ 0])
  next
    case (snoc p ps)
    have le: "exact_sum from to ps \<le> 2 ^ 53" "exact_usage p from to \<le> 2 ^ 53"
      using snoc.prems(2) exact_usage_nonneg [of p "from" to] exact_sum_nonneg [of "from" to ps] by (simp_all add: exact_sum_snoc)
    then obtain n where n: "exact_sum from to ps = of_int n" "0 \<le> n"
        and IH: "sum_usage (\<lambda>p. WindowUsage p from to) ps = Fin (of_int n)"
      using snoc.IH snoc.prems(1) by auto
    obtain m where m: "exact_usage p from to = of_int m" "0 \<le> m"
        and u: "WindowUsage p from to = Fin (of_int m)"
      using whole_usage [of "from" to p] snoc.prems(1) le(2) by auto
    have e: "exact_sum from to (ps @ [p]) = of_int (n + m)" by (simp add: exact_sum_snoc n m)
    then have "of_int (n + m) \<le> (of_int (2 ^ 53) :: rat)" using snoc.prems(2) by simp
    then have "n + m \<le> 2 ^ 53" by (simp only: of_int_le_iff)
    then have "round64 (of_int (n + m)) = Fin (of_int (n + m))"
      using n(2) m(2) by (intro round64_rep64 rep64_int) auto
    then show ?case
      using IH u n(2) m(2) e by (auto simp: window_meter.sum_snoc intro: exI [of _ "n + m"])
  qed
  then show "sum_usage (\<lambda>p. WindowUsage p from to) ps = Fin (exact_sum from to ps)"
    and "\<exists>n. exact_sum from to ps = of_int n \<and> 0 \<le> n" by auto
qed

subsection \<open>The consumption of a list\<close>

lemma accounting_accuracy:
  assumes "\<forall>p \<in> set pods. measurable (window_start b now) now p"
    and "consumed (Compute b now pods) \<noteq> PInf"
  shows "\<exists>c. consumed (Compute b now pods) = Fin c \<and>
    \<bar>c - exact_sum (window_start b now) now pods\<bar>
      \<le> ((1 + eps) ^ (length pods + 3) - 1) * exact_sum (window_start b now) now pods"
  using sum_near [of pods "window_start b now" now] assms near_error by fastforce

end
