(* ===== verification/ReconcileLaws.thy ===== *)
theory ReconcileLaws
  imports ReconcileSpec
begin

text \<open>
  Trace properties of a reconcile pass, proved on the rules of the specification: what
  justifies an enforcement, how often one happens, when the next pass is due, which metric
  calls are made, and what the budget's removal leaves behind.
\<close>

subsection \<open>Justified enforcement\<close>

text \<open>
  Every call that changes a pod comes after a clock reading, a successful listing of the
  budget's pods and a successful status write; the accounting of that listing is over the
  quota, the budget the server returned is flagged for at least the grace period, and the
  pod is the worst offender of that listing.
\<close>

definition justified_by :: "('q, 's) k8s \<Rightarrow> ('q, 's) call list \<Rightarrow> ('q, 's) call \<Rightarrow> bool" where
  "justified_by L before c \<longleftrightarrow>
     (\<exists>now sel pods b b1 b' p.
        ReadClock now \<in> set before \<and>
        ListPods (budget_namespace b) sel (Inr pods) \<in> set before \<and>
        PatchStatus b b1 (Inr b') \<in> set before \<and>
        over (account_budget L b now pods) \<and> gate L b' now \<and>
        offender L b' pods now = Some p \<and> enforcer_call b' p c)"

definition justified :: "('q, 's) k8s \<Rightarrow> ('q, 's) call list \<Rightarrow> bool" where
  "justified L cs \<longleftrightarrow>
     (\<forall>before c after. cs = before @ c # after \<longrightarrow> mutates_pod c \<longrightarrow> justified_by L before c)"

lemma split_after:
  "xs @ ys = before @ c # after \<Longrightarrow> \<forall>x \<in> set xs. \<not> P x \<Longrightarrow> P c \<Longrightarrow>
    \<exists>mid. before = xs @ mid \<and> ys = mid @ c # after"
proof (induction xs arbitrary: before)
  case (Cons x xs)
  then show ?case by (cases before) auto
qed simp

lemma no_mutation [simp]:
  "list_all (\<lambda>c. \<not> mutates_pod c) (publish_calls b r)"
  "list_all (\<lambda>c. \<not> mutates_pod c) (clear_calls m n)"
  by (simp_all add: publish_calls_def clear_calls_def)

lemma justified_quiet: "list_all (\<lambda>c. \<not> mutates_pod c) cs \<Longrightarrow> justified L cs"
  by (auto simp: justified_def)

lemma justified_Cons: "\<not> mutates_pod c \<Longrightarrow> justified L cs \<Longrightarrow> justified L (c # cs)"
  unfolding justified_def justified_by_def
  by (auto simp: Cons_eq_append_conv) blast+

inductive_cases enforce_specE: "enforce_spec L b pods now e cs"
inductive_cases degraded_specE: "degraded_spec L b reason msg r cs"
inductive_cases live_specE: "live_spec L b r cs"
inductive_cases reconcile_specE: "reconcile_spec L ns n r cs"

lemma enforce_spec_mutation:
  assumes "enforce_spec L b pods now e cs" and "c \<in> set cs" and "mutates_pod c"
  shows "gate L b now \<and> (\<exists>p. offender L b pods now = Some p \<and> enforcer_call b p c)"
  using assms
  by (auto elim!: enforce_specE simp: enforcement_spec_def enforce_post_def list_all_iff)

lemma degraded_spec_quiet: "degraded_spec L b reason msg r cs \<Longrightarrow> list_all (\<lambda>c. \<not> mutates_pod c) cs"
  by (auto elim!: degraded_specE)

lemma live_spec_justified: "live_spec L b r cs \<Longrightarrow> justified L cs"
proof (induction rule: live_spec.induct)
  case (over_budget sel now pods b' e cs t1 t2 t3)
  let ?pre = "[ReadClock now, ListPods (budget_namespace b) sel (Inr pods),
    PatchStatus b (reported_budget L t1 t2 t3 b (account_budget L b now pods) now) (Inr b')] @
    publish_calls b' (account_budget L b now pods)"
  have quiet: "\<forall>x \<in> set ?pre. \<not> mutates_pod x"
    using no_mutation(1) by (auto simp: list_all_iff)
  show ?case unfolding justified_def
  proof (intro allI impI)
    fix bef c aft
    assume eq: "[ReadClock now, ListPods (budget_namespace b) sel (Inr pods),
        PatchStatus b (reported_budget L t1 t2 t3 b (account_budget L b now pods) now) (Inr b')] @
        publish_calls b' (account_budget L b now pods) @ cs = bef @ c # aft" and m: "mutates_pod c"
    then obtain mid where bef: "bef = ?pre @ mid" and "cs = mid @ c # aft"
      using split_after [of ?pre cs bef c aft mutates_pod] quiet by auto
    then have "c \<in> set cs" by simp
    then obtain p where "gate L b' now" "offender L b' pods now = Some p" "enforcer_call b' p c"
      using enforce_spec_mutation [OF over_budget(3) _ m] by blast
    then show "justified_by L bef c"
      unfolding justified_by_def bef using over_budget(2)
      by (intro exI [of _ now] exI [of _ sel] exI [of _ pods] exI [of _ b]
          exI [of _ "reported_budget L t1 t2 t3 b (account_budget L b now pods) now"]
          exI [of _ b'] exI [of _ p]) auto
  qed
qed (auto intro!: justified_quiet simp: degraded_spec_quiet)

lemma reconcile_spec_justified: "reconcile_spec L ns n r cs \<Longrightarrow> justified L cs"
proof (induction rule: reconcile_spec.induct)
  case (guard b b' r cs)
  then show ?case by (simp add: justified_Cons live_spec_justified)
next
  case (live b r cs)
  then show ?case by (simp add: justified_Cons live_spec_justified)
qed (auto intro!: justified_quiet)

subsection \<open>At most one enforcement per pass\<close>

abbreviation mutations :: "('q, 's) call list \<Rightarrow> nat" where
  "mutations cs \<equiv> length (List.filter mutates_pod cs)"

lemma filter_quiet: "list_all (\<lambda>c. \<not> mutates_pod c) cs \<Longrightarrow> List.filter mutates_pod cs = []"
  by (induction cs) auto

lemmas filter_quiets [simp] = filter_quiet [OF no_mutation(1)] filter_quiet [OF no_mutation(2)]

lemma enforce_spec_once: "enforce_spec L b pods now e cs \<Longrightarrow> mutations cs \<le> 1"
  by (auto elim!: enforce_specE simp: enforcement_spec_def enforce_post_def)

lemma live_spec_once: "live_spec L b r cs \<Longrightarrow> mutations cs \<le> 1"
  by (induction rule: live_spec.induct)
    (auto dest: enforce_spec_once simp: filter_quiet [OF degraded_spec_quiet])

lemma reconcile_spec_once: "reconcile_spec L ns n r cs \<Longrightarrow> mutations cs \<le> 1"
  by (induction rule: reconcile_spec.induct) (auto dest: live_spec_once)

subsection \<open>When the next pass is due\<close>

fun failed_call :: "('q, 's) call \<Rightarrow> bool" where
  "failed_call (GetBudget ns n r) = (\<exists>e. r = Inl e)"
| "failed_call (UpdateBudget b r) = (\<exists>e. r = Inl e)"
| "failed_call (PatchStatus base b r) = (\<exists>e. r = Inl e)"
| "failed_call (ListPods ns s r) = (\<exists>e. r = Inl e)"
| "failed_call (ListBudgets ns r) = (\<exists>e. r = Inl e)"
| "failed_call (PatchPod base p r) = (\<exists>e. r = Inl e)"
| "failed_call (EvictPod ns n g r) = (r \<noteq> None)"
| "failed_call c = False"

text \<open>
  An error result is the error of a call; without an error a budget that is gone or being
  deleted is not requeued, and every other one is, at one of the two cadences.
\<close>

definition requeue_policy :: "goerr + duration \<Rightarrow> ('q, 's) call list \<Rightarrow> bool" where
  "requeue_policy r cs \<longleftrightarrow>
     (case r of
        Inl e \<Rightarrow> list_ex failed_call cs
      | Inr d \<Rightarrow>
          (case cs of
             GetBudget ns n (Inr b) # rest \<Rightarrow>
               if deleting b then d = 0
               else d = defaultRequeueInterval \<or> d = overBudgetRequeueInterval
           | _ \<Rightarrow> d = 0))"

lemma mutates_failed: "mutates_pod c \<Longrightarrow> \<not> mutated_pod c \<Longrightarrow> failed_call c"
  by (cases c; simp) (metis sum.exhaust)

lemma enforce_spec_error: "enforce_spec L b pods now (Some e) cs \<Longrightarrow> list_ex failed_call cs"
proof (induction "Some e" cs rule: enforce_spec.induct)
  case (failed p e cs)
  then show ?case using mutates_failed
    by (auto simp: enforcement_spec_def enforce_post_def list_ex_iff)
next
  case (acted p oc cs r)
  then show ?case by (auto split: sum.splits)
qed

lemma live_spec_policy:
  "live_spec L b r cs \<Longrightarrow>
    (case r of Inl e \<Rightarrow> list_ex failed_call cs
     | Inr d \<Rightarrow> d = defaultRequeueInterval \<or> d = overBudgetRequeueInterval)"
proof (induction rule: live_spec.induct)
  case (over_budget sel now pods b' e cs t1 t2 t3)
  then show ?case by (cases e) (auto dest: enforce_spec_error)
qed (auto elim!: degraded_specE)

lemma reconcile_spec_policy: "reconcile_spec L ns n r cs \<Longrightarrow> requeue_policy r cs"
proof (induction rule: reconcile_spec.induct)
  case (guard b b' r cs)
  then show ?case using live_spec_policy [OF guard(3)]
    by (auto simp: requeue_policy_def split: sum.splits)
next
  case (live b r cs)
  then show ?case using live_spec_policy [OF live(3)]
    by (auto simp: requeue_policy_def split: sum.splits)
next
  case (release b r)
  then show ?case by (auto simp: requeue_policy_def split: sum.splits)
qed (auto simp: requeue_policy_def)

subsection \<open>Metric calls\<close>

lemma enforcer_call_labelled: "enforcer_call b p c \<Longrightarrow> well_labelled c"
  by (cases c) auto

lemma enforce_post_labelled: "enforce_post act b p r cs \<Longrightarrow> list_all well_labelled cs"
  unfolding enforce_post_def list_all_iff using enforcer_call_labelled by blast

lemma enforcement_labelled: "enforcement_spec L act b p now r cs \<Longrightarrow> list_all well_labelled cs"
  by (auto simp: enforcement_spec_def dest: enforce_post_labelled)

lemma enforce_spec_labelled: "enforce_spec L b pods now e cs \<Longrightarrow> list_all well_labelled cs"
  by (induction rule: enforce_spec.induct)
    (simp_all add: enforcement_labelled registered_def)

lemma live_spec_labelled: "live_spec L b r cs \<Longrightarrow> list_all well_labelled cs"
  by (induction rule: live_spec.induct) (auto dest: enforce_spec_labelled elim!: degraded_specE)

lemma reconcile_spec_labelled: "reconcile_spec L ns n r cs \<Longrightarrow> list_all well_labelled cs"
  by (induction rule: reconcile_spec.induct) (auto dest: live_spec_labelled)

subsection \<open>The finalizer comes first\<close>

text \<open>The calls that work on behalf of a budget, beyond fetching it and keeping its finalizer.\<close>

fun touches :: "('q, 's) call \<Rightarrow> bool" where
  "touches (GetBudget ns n r) = False"
| "touches (UpdateBudget b r) = False"
| "touches (ReadClock t) = False"
| "touches (DeleteLabelValues m ls) = False"
| "touches c = True"

text \<open>
  Before any such call the trace holds a fetch of a budget that is not being deleted, and
  either the fetched budget has the finalizer or an update that adds it went through.
\<close>

definition guard_first :: "('q, 's) k8s \<Rightarrow> ('q, 's) call list \<Rightarrow> bool" where
  "guard_first L cs \<longleftrightarrow>
     (\<forall>before c after. cs = before @ c # after \<longrightarrow> touches c \<longrightarrow>
       (\<exists>ns n b. GetBudget ns n (Inr b) \<in> set before \<and> \<not> deleting b \<and>
         (guarded L b \<or> (\<exists>b'. UpdateBudget (with_guard L b) (Inr b') \<in> set before))))"

lemma guard_first_quiet: "\<forall>c \<in> set cs. \<not> touches c \<Longrightarrow> guard_first L cs"
  by (auto simp: guard_first_def)

lemma reconcile_spec_guard_first: "reconcile_spec L ns n r cs \<Longrightarrow> guard_first L cs"
proof (induction rule: reconcile_spec.induct)
  case (release b r)
  then show ?case by (intro guard_first_quiet) (auto simp: clear_calls_def)
next
  case (guard b b' r cs)
  then show ?case unfolding guard_first_def
    by (auto simp: Cons_eq_append_conv) blast
next
  case (live b r cs)
  then show ?case unfolding guard_first_def
    by (auto simp: Cons_eq_append_conv) blast
qed (auto intro!: guard_first_quiet)

subsection \<open>Enforcement happens when it is due\<close>

text \<open>
  In a trace where a listing and a status write went through, the listing is over the quota,
  the flag has stood for the grace period and there is an offender, the rest of the trace
  holds the call the configured action owes to that pod. An already paused pod is the exception.
\<close>

definition enforced_when_due :: "('q, 's) k8s \<Rightarrow> ('q, 's) call list \<Rightarrow> bool" where
  "enforced_when_due L cs \<longleftrightarrow>
     (\<forall>pre now sel pods b b1 b' p rest.
        cs = pre @ ReadClock now # ListPods (budget_namespace b) sel (Inr pods)
          # PatchStatus b b1 (Inr b') # rest \<longrightarrow>
        over (account_budget L b now pods) \<longrightarrow> gate L b' now \<longrightarrow> offender L b' pods now = Some p \<longrightarrow>
        (configured_action b' = ActionPause \<longrightarrow> \<not> paused p) \<longrightarrow>
        (\<exists>c \<in> set rest. due_call (configured_action b') b' p now c))"

lemma offender_alive: "offender L b pods now = Some p \<Longrightarrow> pod_deletionTimestamp p = None"
  by (auto simp: offender_def candidate_def terminating_def dest: pickWorstOffender_candidate)

lemma enforce_spec_due:
  assumes "enforce_spec L b pods now e cs" and "gate L b now" and "offender L b pods now = Some p"
    and "configured_action b = ActionPause \<longrightarrow> \<not> paused p"
  shows "\<exists>c \<in> set cs. due_call (configured_action b) b p now c"
  using assms offender_alive [OF assms(3)]
  by (auto elim!: enforce_specE dest: enforcement_due)

text \<open>A clock reading starts a live pass and occurs nowhere else in it.\<close>

lemma enforcer_calls_no_clock: "list_all (enforcer_call b p) cs \<Longrightarrow> ReadClock t \<notin> set cs"
  by (induction cs) auto

lemma enforcement_no_clock: "enforcement_spec L act b p now r cs \<Longrightarrow> ReadClock t \<notin> set cs"
  by (rule enforcer_calls_no_clock [of b p]) (simp add: enforcement_spec_def enforce_post_def)

lemma enforce_spec_no_clock: "enforce_spec L b pods now e cs \<Longrightarrow> ReadClock t \<notin> set cs"
  by (auto elim!: enforce_specE dest: enforcement_no_clock)

lemma publish_no_clock: "ReadClock t \<notin> set (publish_calls b r)"
  by (simp add: publish_calls_def)

lemma degraded_spec_no_clock: "degraded_spec L b reason msg r cs \<Longrightarrow> ReadClock t \<notin> set cs"
  by (auto elim!: degraded_specE)

lemma first_clock:
  "ReadClock now0 # cs = pre @ ReadClock now # rest \<Longrightarrow> (\<And>t. ReadClock t \<notin> set cs) \<Longrightarrow>
    pre = [] \<and> now = now0 \<and> rest = cs"
  by (cases pre) auto

lemma live_spec_shape:
  "live_spec L b r cs \<Longrightarrow> \<exists>now rest. cs = ReadClock now # rest \<and> (\<forall>t. ReadClock t \<notin> set rest)"
  by (induction rule: live_spec.induct)
    (auto simp: degraded_spec_no_clock enforce_spec_no_clock publish_no_clock)

lemma live_spec_due:
  assumes "live_spec L b r (ReadClock now # ListPods (budget_namespace c) sel (Inr pods)
      # PatchStatus c c1 (Inr b') # rest)"
    and "over (account_budget L c now pods)" and "gate L b' now" and "offender L b' pods now = Some p"
    and "configured_action b' = ActionPause \<longrightarrow> \<not> paused p"
  shows "\<exists>c \<in> set rest. due_call (configured_action b') b' p now c"
  using assms(1)
proof cases
  case (over_budget e cs t1 t2 t3)
  then show ?thesis using enforce_spec_due assms(3-5) by fastforce
qed (use assms(2) in \<open>auto elim!: degraded_specE\<close>)

lemma clock_suffix:
  assumes "pre0 @ cs = pre @ ReadClock now # rest" and "\<forall>c \<in> set pre0. \<not> (\<exists>t. c = ReadClock t)"
    and "live_spec L b r cs"
  shows "pre = pre0 \<and> cs = ReadClock now # rest"
proof -
  obtain now0 rest0 where cs: "cs = ReadClock now0 # rest0" and q: "\<And>t. ReadClock t \<notin> set rest0"
    using live_spec_shape [OF assms(3)] by blast
  obtain mid where mid: "pre = pre0 @ mid" "cs = mid @ ReadClock now # rest"
    using split_after [OF assms(1), of "\<lambda>c. \<exists>t. c = ReadClock t"] assms(2) by auto
  have "mid = [] \<and> now = now0 \<and> rest = rest0"
    by (rule first_clock) (use mid(2) cs q in auto)
  then show ?thesis using mid cs by simp
qed

text \<open>Everything from the clock reading on is the trace of a live pass.\<close>

lemma reconcile_spec_suffix:
  "reconcile_spec L ns n r cs \<Longrightarrow> cs = pre @ ReadClock now # rest \<Longrightarrow>
    \<exists>b. live_spec L b r (ReadClock now # rest) \<and> \<not> list_ex touches pre"
proof (induction rule: reconcile_spec.induct)
  case (guard b b' r cs)
  then show ?case
    using clock_suffix [of "[GetBudget ns n (Inr b), UpdateBudget (with_guard L b) (Inr b')]" cs pre now rest L b' r]
    by auto
next
  case (live b r cs)
  then show ?case using clock_suffix [of "[GetBudget ns n (Inr b)]" cs pre now rest L b r] by auto
next
  case (release b r)
  have "ReadClock now \<in> set (pre @ ReadClock now # rest)" by simp
  then show ?case unfolding release(3) [symmetric] by (simp add: clear_calls_def)
qed (auto simp: Cons_eq_append_conv)

lemma reconcile_spec_enforced: "reconcile_spec L ns n r cs \<Longrightarrow> enforced_when_due L cs"
  unfolding enforced_when_due_def using reconcile_spec_suffix live_spec_due by metis

subsection \<open>The series a pass leaves\<close>

text \<open>
  Removing a guarded budget clears its gauges, and only them, before the finalizer goes; a
  pass that ends without an error on a live budget has written the gauges of the budget the
  server returned with the accounting of the pods it listed.
\<close>

abbreviation budget_gauges :: "string set" where
  "budget_gauges \<equiv> {consumedGPUHours, remainingGPUHours, trackedPodsGauge, accountingAccuracyRatio}"

definition gauges_cleared :: "'q budget \<Rightarrow> ('q, 's) call list \<Rightarrow> bool" where
  "gauges_cleared b cs \<longleftrightarrow>
     (\<forall>g m ls. foldl gauge_step g cs (m, ls) =
        (if ls = [budget_namespace b, budget_name b] \<and> m \<in> budget_gauges then None else g (m, ls)))"

definition gauges_released :: "('q, 's) k8s \<Rightarrow> ('q, 's) call list \<Rightarrow> bool" where
  "gauges_released L cs \<longleftrightarrow>
     (\<forall>ns n b rest. cs = GetBudget ns n (Inr b) # rest \<longrightarrow> deleting b \<longrightarrow>
        (if guarded L b
         then \<exists>r pre. rest = pre @ [UpdateBudget (released L b) r] \<and> gauges_cleared b pre
         else rest = []))"

lemma gauges_cleared_clear: "gauges_cleared b (clear_calls (budget_namespace b) (budget_name b))"
  unfolding gauges_cleared_def foldl_gauge_clear by blast

lemma reconcile_spec_released: "reconcile_spec L ns n r cs \<Longrightarrow> gauges_released L cs"
  by (induction rule: reconcile_spec.induct)
    (auto simp: gauges_released_def intro: gauges_cleared_clear)

definition gauges_current :: "('q, 's) k8s \<Rightarrow> ('q, 's) call list \<Rightarrow> bool" where
  "gauges_current L cs \<longleftrightarrow>
     (\<forall>pre now sel pods b b1 b' rest.
        cs = pre @ ReadClock now # ListPods (budget_namespace b) sel (Inr pods)
          # PatchStatus b b1 (Inr b') # rest \<longrightarrow>
        gauges cs = gauges (publish_calls b' (account_budget L b now pods) :: ('q, 's) call list))"

fun gauge_call :: "('q, 's) call \<Rightarrow> bool" where
  "gauge_call (GaugeSet m ls v) = True"
| "gauge_call (DeleteLabelValues m ls) = True"
| "gauge_call c = False"

lemma gauge_step_other: "\<not> gauge_call c \<Longrightarrow> gauge_step g c = g"
  by (cases c) auto

lemma foldl_gauge_other: "\<not> list_ex gauge_call cs \<Longrightarrow> foldl gauge_step g cs = g"
  by (induction cs arbitrary: g) (auto simp: gauge_step_other)

lemma enforcer_calls_no_gauge: "list_all (enforcer_call b p) cs \<Longrightarrow> \<not> list_ex gauge_call cs"
proof (induction cs)
  case (Cons c cs)
  then show ?case by (cases c) auto
qed simp

lemma enforcement_no_gauge: "enforcement_spec L act b p now r cs \<Longrightarrow> \<not> list_ex gauge_call cs"
  by (rule enforcer_calls_no_gauge [of b p]) (simp add: enforcement_spec_def enforce_post_def)

lemma enforce_spec_no_gauge: "enforce_spec L b pods now e cs \<Longrightarrow> \<not> list_ex gauge_call cs"
  by (auto elim!: enforce_specE dest: enforcement_no_gauge)

lemma live_spec_gauges:
  fixes L :: "('q, 's) k8s"
  assumes "live_spec L b r (ReadClock now # ListPods (budget_namespace c) sel (Inr pods)
      # PatchStatus c c1 (Inr b') # rest)"
  shows "foldl gauge_step g rest =
    foldl gauge_step g (publish_calls b' (account_budget L c now pods) :: ('q, 's) call list)"
  using assms
  by cases (auto elim!: degraded_specE dest: enforce_spec_no_gauge simp: foldl_gauge_other)

lemma touches_gauges: "\<not> list_ex touches cs \<Longrightarrow> gauges cs = (\<lambda>_. None)"
proof -
  have "foldl gauge_step (\<lambda>_. None) cs = (\<lambda>_. None)" if "\<not> list_ex touches cs"
    using that
  proof (induction cs)
    case (Cons c cs)
    then show ?case by (cases c) auto
  qed simp
  then show "\<not> list_ex touches cs \<Longrightarrow> gauges cs = (\<lambda>_. None)" by (simp add: gauges_def)
qed

lemma reconcile_spec_gauges: "reconcile_spec L ns n r cs \<Longrightarrow> gauges_current L cs"
  unfolding gauges_current_def
proof (intro allI impI)
  fix pre now sel pods b b1 b' rest
  assume spec: "reconcile_spec L ns n r cs"
    and cs: "cs = pre @ ReadClock now # ListPods (budget_namespace b) sel (Inr pods) # PatchStatus b b1 (Inr b') # rest"
  obtain b0 where live: "live_spec L b0 r (ReadClock now # ListPods (budget_namespace b) sel (Inr pods)
      # PatchStatus b b1 (Inr b') # rest)" and pre: "\<not> list_ex touches pre"
    using reconcile_spec_suffix [OF spec cs] by blast
  have "gauges cs = foldl gauge_step (gauges pre) rest" by (simp add: cs gauges_def)
  then show "gauges cs = gauges (publish_calls b' (account_budget L b now pods) :: ('a, 'b) call list)"
    using live_spec_gauges [OF live] touches_gauges [OF pre] by (simp add: gauges_def)
qed

end
