(* ===== verification/Reference.thy ===== *)
theory Reference
  imports Quantities Accuracy ReconcileLaws
begin

text \<open>
  A reference instance of the code outside the repository: the library functions with their
  documented behaviour, over rational quantities and with the label selector itself as the
  compiled selector. It shows that the contracts the properties assume can be met, and the
  sample pods and budgets are the concrete inputs of the witnesses.
\<close>

subsection \<open>The library\<close>

definition ref_find :: "condition list \<Rightarrow> string \<Rightarrow> condition option" where
  "ref_find cs t = List.find (\<lambda>c. cond_type c = t) cs"

fun ref_set :: "gotime \<Rightarrow> condition list \<Rightarrow> condition \<Rightarrow> condition list" where
  "ref_set now [] c = [merged_condition now None c]"
| "ref_set now (d # cs) c =
     (if cond_type d = cond_type c then merged_condition now (Some d) c # cs else d # ref_set now cs c)"

fun ref_kind :: "goerr \<Rightarrow> string" where
  "ref_kind (Ext kind msg) = kind"
| "ref_kind (Wrap pre e) = ref_kind e"

definition ref_operators :: "string list" where
  "ref_operators = [''In'', ''NotIn'', ''Exists'', ''DoesNotExist'']"

definition ref_compile :: "label_selector \<Rightarrow> goerr + label_selector" where
  "ref_compile s =
     (if list_all (\<lambda>r. List.member ref_operators (req_operator r)) (matchExpressions s) then Inr s
      else Inl (Ext ''Invalid'' ''is not a valid label selector operator''))"

fun ref_requirement :: "labels \<Rightarrow> label_selector_requirement \<Rightarrow> bool" where
  "ref_requirement ls r =
     (case fmlookup ls (req_key r) of
        None \<Rightarrow> req_operator r = ''NotIn'' \<or> req_operator r = ''DoesNotExist''
      | Some v \<Rightarrow>
          if req_operator r = ''In'' then List.member (req_values r) v
          else if req_operator r = ''NotIn'' then \<not> List.member (req_values r) v
          else req_operator r = ''Exists'')"

definition ref_matches :: "label_selector \<Rightarrow> labels \<Rightarrow> bool" where
  "ref_matches s ls \<longleftrightarrow>
     fmpred (\<lambda>k v. fmlookup ls k = Some v) (matchLabels s) \<and>
     list_all (ref_requirement ls) (matchExpressions s)"

definition ref_lib :: "(rat, label_selector) k8s" where
  "ref_lib =
     \<lparr>asApproximateFloat64 = round64,
      quantitySign = (\<lambda>q. if q < 0 then - 1 else if q = 0 then 0 else 1),
      quantityString = (\<lambda>q. format_decimal 3 q),
      newMilliQuantity = (\<lambda>m. of_int (sint m) / 1000),
      labelSelectorAsSelector = ref_compile,
      selectorMatches = ref_matches,
      containsFinalizer = List.member,
      addFinalizer = (\<lambda>fs f. if List.member fs f then fs else fs @ [f]),
      removeFinalizer = (\<lambda>fs f. List.filter (\<lambda>g. g \<noteq> f) fs),
      setStatusCondition = ref_set,
      findStatusCondition = ref_find,
      isNotFound = (\<lambda>e. ref_kind e = ''NotFound''),
      isTooManyRequests = (\<lambda>e. ref_kind e = ''TooManyRequests''),
      int64OutOfRange = (\<lambda>_. word_of_int (- (2 ^ 63)))\<rparr>"

lemma merged_type [simp]: "cond_type (merged_condition now old c) = cond_type c"
  by (simp add: merged_condition_def Let_def)

lemma ref_find_set:
  "ref_find (ref_set now cs c) t =
    (if t = cond_type c then Some (merged_condition now (ref_find cs t) c) else ref_find cs t)"
  by (induction now cs c rule: ref_set.induct) (auto simp: ref_find_def)

lemma ref_find_kept: "ref_find (map kept_condition cs) t = map_option kept_condition (ref_find cs t)"
  by (induction cs) (simp_all add: ref_find_def kept_condition_def)

lemma ref_contract: "conditions_contract ref_lib"
  by (simp add: conditions_contract_def ref_lib_def ref_find_set ref_find_kept)

lemma ref_float [simp]: "asApproximateFloat64 ref_lib = round64"
  by (simp add: ref_lib_def)

subsection \<open>Samples\<close>

definition sample_accounted :: acc_pod where
  "sample_accounted =
     \<lparr>acc_id = ''uid-1'', acc_start = 3600000000000, acc_end = Some 10800000000000, acc_gpus = Fin 4\<rparr>"

definition sample_container :: "rat container" where
  "sample_container = \<lparr>requests = fmupd ''nvidia.com/gpu'' 2 fmempty\<rparr>"

definition sample_status :: container_status where
  "sample_status =
     \<lparr>state_running = Some 3600000000000, state_terminated = None, last_terminated = None\<rparr>"

definition sample_pod :: "rat pod" where
  "sample_pod =
     \<lparr>pod_name = ''train-0'', pod_namespace = ''ml'', pod_uid = ''uid-1'',
      pod_labels = fmupd ''team'' ''ml'' fmempty,
      pod_annotations = fmempty, pod_deletionTimestamp = None, containers = [sample_container],
      phase = ''Running'', startTime = None, containerStatuses = [sample_status]\<rparr>"

definition sample_selector :: label_selector where
  "sample_selector = \<lparr>matchLabels = fmupd ''team'' ''ml'' fmempty, matchExpressions = []\<rparr>"

definition sample_spec :: "rat budget_spec" where
  "sample_spec =
     \<lparr>selector = sample_selector, quota = \<lparr>gpuHours = 100, windowHours = 24\<rparr>,
      enforcement = \<lparr>action = ActionEvict, gracePeriodSeconds = 300\<rparr>, gpuResourceName = ''''\<rparr>"

definition sample_budget :: "rat budget" where
  "sample_budget =
     \<lparr>budget_name = ''gpu'', budget_namespace = ''ml'', generation = 1, deletionTimestamp = None,
      finalizers = [], spec = sample_spec,
      status = \<lparr>consumedGpuHours = 0, remainingGpuHours = 0, trackedPods = 0,
        lastEnforcementAt = None, observedGeneration = 0, conditions = []\<rparr>\<rparr>"

lemmas samples = sample_accounted_def sample_container_def sample_status_def sample_pod_def
  sample_selector_def sample_spec_def sample_budget_def

lemma round64_numeral: "numeral k \<le> (2 :: int) ^ 53 \<Longrightarrow> round64 (numeral k) = Fin (numeral k)"
  by (intro round64_rep64 rep64_numeral)

lemma sample_requests: "requests_ok ref_lib sample_pod"
  by (auto simp: requests_ok_def samples round64_numeral intro: rep64_numeral split: if_splits)

text \<open>The sample pod with any annotations: two GPUs, running since one hour after the zero time.\<close>

definition sample_noted :: "labels \<Rightarrow> rat pod" where
  "sample_noted notes = sample_pod\<lparr>pod_annotations := notes\<rparr>"

lemma sample_plain: "sample_pod = sample_noted fmempty"
  by (simp add: sample_noted_def samples)

lemma sample_accounting:
  "podToAccounting ref_lib (sample_noted notes) ''nvidia.com/gpu'' =
    Some \<lparr>acc_id = ''uid-1'', acc_start = 3600000000000, acc_end = None, acc_gpus = Fin 2\<rparr>"
  by (simp add: podToAccounting_def gpuRequestTotal_def earliestContainerStart_def podEnd_def
      sample_noted_def samples observe_status_def go_defs PodSucceeded_def PodFailed_def round64_numeral)

lemma sample_usage:
  assumes "from \<le> 3600000000000"
  shows "usage_of ref_lib ''nvidia.com/gpu'' from 7200000000000 (sample_noted notes) = Fin 2"
proof -
  have "Hours (Sub 3600000000000 0) = Fin 1"
    using Hours_whole [of "Sub 3600000000000 0" 1] by (simp add: sint_Sub)
  then show ?thesis using assms
    by (simp add: usage_of_def sample_accounting WindowUsage_overlap overlap_def fmul_def is_inf_def
        round64_numeral)
qed

lemma sample_candidate:
  "from \<le> 3600000000000 \<Longrightarrow> candidate ref_lib ''nvidia.com/gpu'' from 7200000000000 (sample_noted notes)"
  by (simp add: candidate_def sample_usage terminating_def) (simp add: sample_noted_def samples)

lemma sample_pick:
  assumes "from \<le> 3600000000000"
  shows "pickWorstOffender ref_lib [sample_noted notes] ''nvidia.com/gpu'' from 7200000000000 =
    Some (sample_noted notes)"
  by (simp add: pickWorstOffender_scan sample_candidate [OF assms] scan_def scan_step_def)

text \<open>A budget that was flagged one hour after the zero time, and a pod paused by it.\<close>

definition sample_flag :: condition where
  "sample_flag =
     \<lparr>cond_type = ConditionQuotaExceeded, cond_status = ConditionTrue, cond_reason = ''QuotaReached'',
      cond_message = '''', lastTransitionTime = 3600000000000\<rparr>"

definition sample_flagged :: "string \<Rightarrow> rat budget" where
  "sample_flagged act = sample_budget\<lparr>
     spec := sample_spec\<lparr>enforcement := \<lparr>action = act, gracePeriodSeconds = 300\<rparr>\<rparr>,
     status := (status sample_budget)\<lparr>conditions := [sample_flag]\<rparr>\<rparr>"

definition sample_paused :: "rat pod" where
  "sample_paused = sample_noted (fmupd AnnotationPausedAt ''0001-01-01T01:00:00Z'' fmempty)"

lemma sample_grace: "sint (grace_of (sample_flagged act)) = 300 * 1000000000"
  unfolding sint_grace_of by (simp add: sample_flagged_def samples)

lemma sample_window: "sint (- window_of (sample_flagged act)) = - 86400000000000"
  by (simp add: window_of_def Hour_def sample_flagged_def samples)

lemma sample_gate: "gate ref_lib (sample_flagged act) 7200000000000"
proof -
  have "findStatusCondition ref_lib (conditions (status (sample_flagged act))) ConditionQuotaExceeded =
      Some sample_flag"
    by (simp add: sample_flagged_def sample_flag_def ref_lib_def ref_find_def)
  then show ?thesis
    by (simp add: gate_def sample_grace del: of_int_sint) (simp add: sample_flag_def)
qed

lemma sample_offender:
  "offender ref_lib (sample_flagged act) [sample_paused] 7200000000000 = Some sample_paused"
proof -
  have "gpuResourceName_of (sample_flagged act) = ''nvidia.com/gpu''"
    by (simp add: gpuResourceName_of_def sample_flagged_def samples)
  then show ?thesis
    by (simp add: offender_def sample_paused_def sample_pick Add_def sample_window)
qed

text \<open>The sample of the accounting engine: four GPUs for two hours inside a window of four.\<close>

definition sample_account :: acc_budget where
  "sample_account = \<lparr>acc_window = 14400000000000, acc_quota = Fin 10\<rparr>"

lemma sample_from: "window_start sample_account 14400000000000 = 0"
  by (simp add: window_start_def sample_account_def Add_def)

lemma sample_whole: "whole_hours 0 14400000000000 sample_accounted"
  unfolding whole_hours_def
  by (intro exI [of _ 4] exI [of _ 2]) (simp add: sample_accounted_def overlap_def)

lemma sample_sum: "exact_sum 0 14400000000000 [sample_accounted] = 8"
  by (simp add: exact_sum_def exact_usage_def hours_exact_def sample_accounted_def overlap_def)

lemma sample_consumed: "consumed (Compute sample_account 14400000000000 [sample_accounted]) = Fin 8"
  using sum_whole(1) [of "[sample_accounted]" 0 14400000000000]
  by (simp add: sample_from sample_whole sample_sum)

lemma sample_ok: "acc_ok sample_accounted"
  by (simp add: acc_ok_def sample_accounted_def rep64_numeral)

end
