(* ===== verification/Cluster.thy ===== *)
theory Cluster
  imports Reference
begin

text \<open>
  Whole passes against an honest API server: one that holds a budget and some pods, answers
  every call, keeps the statuses it is sent (in whole seconds) and carries out evictions and
  patches at once. The passes are runs of the reconciler itself; the lemmas compute their
  effect on the cluster.
\<close>

subsection \<open>The server\<close>

record 'q cluster =
  cl_budget :: "'q budget"
  cl_pods :: "'q pod list"
  cl_now :: gotime

definition visible :: "('q, 's) k8s \<Rightarrow> 'q cluster \<Rightarrow> string \<Rightarrow> 's \<Rightarrow> 'q pod list" where
  "visible L c ns sel =
     List.filter (\<lambda>p. pod_namespace p = ns \<and> selectorMatches L sel (pod_labels p)) (cl_pods c)"

definition is_pod :: "string \<Rightarrow> string \<Rightarrow> 'q pod \<Rightarrow> bool" where
  "is_pod ns n p \<longleftrightarrow> pod_namespace p = ns \<and> pod_name p = n"

definition honest :: "('q, 's) k8s \<Rightarrow> ('q, 's, 'q cluster) api" where
  "honest L =
     \<lparr>getBudget = (\<lambda>ns n c.
        (if budget_namespace (cl_budget c) = ns \<and> budget_name (cl_budget c) = n
         then Inr (cl_budget c) else Inl (Ext ''NotFound'' ''budget not found''), c)),
      updateBudget = (\<lambda>b c. (Inr b, c\<lparr>cl_budget := b\<rparr>)),
      patchStatus = (\<lambda>base b c. (Inr (kept b), c\<lparr>cl_budget := kept b\<rparr>)),
      listPods = (\<lambda>ns sel c. (Inr (visible L c ns sel), c)),
      listBudgets = (\<lambda>ns c. (Inr (if budget_namespace (cl_budget c) = ns then [cl_budget c] else []), c)),
      patchPod = (\<lambda>base p c.
        (Inr p, c\<lparr>cl_pods := map (\<lambda>q. if is_pod (pod_namespace p) (pod_name p) q then p else q) (cl_pods c)\<rparr>)),
      evict = (\<lambda>ns n grace c. (None, c\<lparr>cl_pods := List.filter (\<lambda>q. \<not> is_pod ns n q) (cl_pods c)\<rparr>)),
      clock = Some (\<lambda>c. (cl_now c, c)),
      wallClock = (\<lambda>c. (cl_now c, c))\<rparr>"

lemma honest_simps [simp]:
  "getBudget (honest L) ns n c =
    (if budget_namespace (cl_budget c) = ns \<and> budget_name (cl_budget c) = n
     then Inr (cl_budget c) else Inl (Ext ''NotFound'' ''budget not found''), c)"
  "patchStatus (honest L) base b c = (Inr (kept b), c\<lparr>cl_budget := kept b\<rparr>)"
  "listPods (honest L) ns sel c = (Inr (visible L c ns sel), c)"
  "evict (honest L) ns n grace c = (None, c\<lparr>cl_pods := List.filter (\<lambda>q. \<not> is_pod ns n q) (cl_pods c)\<rparr>)"
  "clock (honest L) = Some (\<lambda>c. (cl_now c, c))"
  "wallClock (honest L) c = (cl_now c, c)"
  by (simp_all add: honest_def)

text \<open>The budget and the pods after a pass of the reconciler at a time.\<close>

definition pass_at :: "('q, 's) k8s \<Rightarrow> gotime \<Rightarrow> 'q cluster \<Rightarrow> 'q cluster" where
  "pass_at L now c =
     env (snd (run_state (Reconcile L (honest L) (budget_namespace (cl_budget c)) (budget_name (cl_budget c)))
       \<lparr>env = c\<lparr>cl_now := now\<rparr>, log = []\<rparr>))"

subsection \<open>Running a program\<close>

text \<open>\<open>runs m e x e'\<close>: from outside world \<open>e\<close>, whatever is logged, \<open>m\<close> returns \<open>x\<close> and leaves \<open>e'\<close>.\<close>

definition runs :: "('q, 's, 'w, 'a) io \<Rightarrow> 'w \<Rightarrow> 'a \<Rightarrow> 'w \<Rightarrow> bool" where
  "runs m e x e' \<longleftrightarrow> (\<forall>l. \<exists>l'. run_state m \<lparr>env = e, log = l\<rparr> = (x, \<lparr>env = e', log = l'\<rparr>))"

lemma runs_return: "runs (State_Monad.return x) e x e"
  by (simp add: runs_def)

lemma runs_bind: "runs m e x e1 \<Longrightarrow> runs (f x) e1 y e2 \<Longrightarrow> runs (State_Monad.bind m f) e y e2"
  unfolding runs_def by (simp add: run_state_bind) (metis prod.case)

lemma runs_perform: "f e = (r, e') \<Longrightarrow> runs (perform entry f) e r e'"
  by (simp add: runs_def perform_def)

lemma runs_wall: "wallClock A e = (t, e') \<Longrightarrow> runs (do_wall A) e t e'"
  by (simp add: runs_def do_wall_def)

lemma runs_emit: "runs (emit x) e () e"
  unfolding emit_def by (rule runs_perform) simp

lemma runs_emit_bind: "runs (f ()) e y e2 \<Longrightarrow> runs (State_Monad.bind (emit x) f) e y e2"
  by (rule runs_bind [OF runs_emit])

lemma runs_env: "runs m e x e' \<Longrightarrow> env (snd (run_state m \<lparr>env = e, log = l\<rparr>)) = e'"
  unfolding runs_def by (metis snd_conv world.select_convs(1))

lemma runs_publish: "runs (publishMetrics b r) e () e"
  unfolding publishMetrics_def Let_def by (intro runs_emit_bind runs_emit)

subsection \<open>The parts of a pass\<close>

definition report_of :: "('q, 's) k8s \<Rightarrow> 'q budget \<Rightarrow> acc_result \<Rightarrow> gotime \<Rightarrow> 'q budget" where
  "report_of L b r now = kept (reported_budget L now now now b r now)"

lemma runs_writeStatus:
  assumes "cl_now c = now"
  shows "runs (writeStatus L (honest L) b r now) c (Inr (report_of L b r now))
    (c\<lparr>cl_budget := report_of L b r now\<rparr>)"
proof -
  have w: "runs (do_wall (honest L)) c now c" by (rule runs_wall) (simp add: assms)
  have p: "runs (do_patch_status (honest L) b (reported_budget L now now now b r now)) c
      (Inr (report_of L b r now)) (c\<lparr>cl_budget := report_of L b r now\<rparr>)"
    unfolding do_patch_status_def by (rule runs_perform) (simp add: report_of_def)
  have "runs (State_Monad.return (case Inr (report_of L b r now) of
        Inl e \<Rightarrow> Inl (Wrap ''patch status'' e) | Inr b' \<Rightarrow> Inr b')) e
      (Inr (report_of L b r now)) e" for e :: "'a cluster"
    by (simp add: runs_return)
  then show ?thesis
    unfolding writeStatus_def Let_def
    by (intro runs_bind [OF w] runs_bind [OF p [unfolded reported_budget_def]])
qed

text \<open>An eviction the gate allows: the offender goes, the enforcement is stamped.\<close>

definition evicted :: "'q cluster \<Rightarrow> 'q pod \<Rightarrow> gotime \<Rightarrow> 'q cluster" where
  "evicted c p now =
     c\<lparr>cl_pods := List.filter (\<lambda>q. \<not> is_pod (pod_namespace p) (pod_name p) q) (cl_pods c),
       cl_budget := kept (stamped (cl_budget c) now)\<rparr>"

lemma runs_evict:
  assumes "pod_deletionTimestamp p = None"
  shows "\<exists>oc. runs (evictor_Enforce L (honest L) b p now) c (Inr oc)
    (c\<lparr>cl_pods := List.filter (\<lambda>q. \<not> is_pod (pod_namespace p) (pod_name p) q) (cl_pods c)\<rparr>)"
proof -
  let ?c = "c\<lparr>cl_pods := List.filter (\<lambda>q. \<not> is_pod (pod_namespace p) (pod_name p) q) (cl_pods c)\<rparr>"
  have "runs (do_evict (honest L) (pod_namespace p) (pod_name p)
      (scast (gracePeriodSeconds (enforcement (spec b))))) c None ?c"
    unfolding do_evict_def by (rule runs_perform) simp
  then show ?thesis
    using assms unfolding evictor_Enforce_def Let_def record_event_def
    by (auto intro!: exI runs_emit_bind runs_return elim!: runs_bind)
qed

lemma runs_closed:
  assumes "\<not> gate L b now"
  shows "runs (maybeEnforce L A b pods now) c None c"
  using assms
  by (auto simp: maybeEnforce_def gate_def go_defs not_le runs_return split: option.splits)

lemma runs_enforce:
  assumes "gate L b now" and "offender L b pods now = Some p" and "configured_action b = ActionEvict"
    and "cl_budget c = b"
  shows "runs (maybeEnforce L (honest L) b pods now) c None (evicted c p now)"
proof -
  obtain k where k: "findStatusCondition L (conditions (status b)) ConditionQuotaExceeded = Some k"
      "cond_status k = ConditionTrue" "\<not> Before now (Add (lastTransitionTime k) (grace_of b))"
    using assms(1) by (auto simp: gate_def go_defs split: option.splits)
  have pick: "pickWorstOffender L pods (gpuResourceName_of b) (Add now (- window_of b)) now = Some p"
    using assms(2) by (simp add: offender_def)
  let ?c = "c\<lparr>cl_pods := List.filter (\<lambda>q. \<not> is_pod (pod_namespace p) (pod_name p) q) (cl_pods c)\<rparr>"
  have act: "action (enforcement (spec b)) = ActionEvict"
    using assms(3) by (simp add: configured_action_def)
  obtain oc where e: "runs (New ActionEvict L (honest L) b p now) c (Inr oc) ?c"
    using runs_evict [OF offender_alive [OF assms(2)], of L b now c] by (auto simp: New_def)
  have patch: "runs (do_patch_status (honest L) b (stamped b now)) ?c
      (Inr (kept (stamped b now))) (evicted c p now)"
    unfolding do_patch_status_def by (rule runs_perform) (simp add: evicted_def assms(4))
  have last: "runs (State_Monad.return (case Inr (kept (stamped b now)) of
      Inl err \<Rightarrow> Some (Wrap ''patch last enforcement time'' err) | Inr _ \<Rightarrow> None))
      (evicted c p now) None (evicted c p now)"
    by (simp add: runs_return)
  have tail: "runs (State_Monad.bind (emit x) (\<lambda>_. State_Monad.bind
      (do_patch_status (honest L) b (b\<lparr>status := (status b)\<lparr>lastEnforcementAt := Some now\<rparr>\<rparr>))
      (\<lambda>r. State_Monad.return (case r of
        Inl err \<Rightarrow> Some (Wrap ''patch last enforcement time'' err) | Inr _ \<Rightarrow> None))))
      ?c None (evicted c p now)" for x
    by (rule runs_emit_bind, rule runs_bind [OF patch [unfolded stamped_def]])
      (rule last [unfolded stamped_def])
  show ?thesis
    unfolding maybeEnforce_def k(1) option.case pick act
    using k(2,3) by (simp, intro runs_bind [OF e]) (simp only: sum.case tail)
qed

text \<open>A pass over a guarded live budget that is over its quota, up to the enforcement.\<close>

definition listed :: "('q, 's) k8s \<Rightarrow> 's \<Rightarrow> 'q cluster \<Rightarrow> 'q pod list" where
  "listed L sel c = visible L c (budget_namespace (cl_budget c)) sel"

lemma runs_over:
  assumes sel: "labelSelectorAsSelector L (selector (spec (cl_budget c))) = Inr sel"
    and over: "over (account_budget L (cl_budget c) (cl_now c) (listed L sel c))"
    and rep: "b' = report_of L (cl_budget c) (account_budget L (cl_budget c) (cl_now c) (listed L sel c)) (cl_now c)"
    and enf: "runs (maybeEnforce L (honest L) b' (listed L sel c) (cl_now c)) (c\<lparr>cl_budget := b'\<rparr>) None c'"
  shows "runs (reconcile_live L (honest L) (cl_budget c)) c (Inr overBudgetRequeueInterval) c'"
proof -
  let ?b = "cl_budget c" and ?now = "cl_now c" and ?pods = "listed L sel c"
  let ?r = "account_budget L ?b ?now ?pods"
  have clk: "runs (reconciler_now (honest L)) c ?now c"
    unfolding reconciler_now_def by (rule runs_perform) simp
  have lst: "runs (do_list_pods (honest L) (budget_namespace ?b) sel) c (Inr ?pods) c"
    unfolding do_list_pods_def by (rule runs_perform) (simp add: listed_def)
  have ws: "runs (writeStatus L (honest L) ?b ?r ?now) c (Inr b') (c\<lparr>cl_budget := b'\<rparr>)"
    using runs_writeStatus [of c ?now L ?b ?r] by (simp add: rep)
  have fin: "runs (State_Monad.return (case None of Some err \<Rightarrow> Inl err
      | None \<Rightarrow> Inr overBudgetRequeueInterval)) c' (Inr overBudgetRequeueInterval) c'"
    by (simp add: runs_return)
  have tail: "runs (State_Monad.bind (publishMetrics b' ?r) (\<lambda>_.
      if over ?r then State_Monad.bind (maybeEnforce L (honest L) b' ?pods ?now) (\<lambda>e.
        State_Monad.return (case e of Some err \<Rightarrow> Inl err | None \<Rightarrow> Inr overBudgetRequeueInterval))
      else State_Monad.return (Inr defaultRequeueInterval)))
      (c\<lparr>cl_budget := b'\<rparr>) (Inr overBudgetRequeueInterval) c'"
    by (rule runs_bind [OF runs_publish], simp only: over if_True) (rule runs_bind [OF enf], rule fin)
  show ?thesis
    unfolding reconcile_live_def Let_def
    by (rule runs_bind [OF clk], simp only: sel sum.case, rule runs_bind [OF lst],
        simp only: sum.case, rule runs_bind [OF ws], simp only: sum.case tail)
qed

lemma runs_Reconcile:
  assumes "guarded L (cl_budget c)" and "\<not> deleting (cl_budget c)"
    and "runs (reconcile_live L (honest L) (cl_budget c)) c x c'"
  shows "runs (Reconcile L (honest L) (budget_namespace (cl_budget c)) (budget_name (cl_budget c))) c x c'"
proof -
  have get: "runs (do_get (honest L) (budget_namespace (cl_budget c)) (budget_name (cl_budget c))) c
      (Inr (cl_budget c)) c"
    unfolding do_get_def by (rule runs_perform) simp
  have del: "\<not> (case deletionTimestamp (cl_budget c) of None \<Rightarrow> False | Some t \<Rightarrow> \<not> IsZero t)"
    using assms(2) by (auto simp: deleting_def go_defs split: option.splits)
  show ?thesis
    unfolding Reconcile_def
    by (rule runs_bind [OF get]) (use assms(1,3) del in \<open>simp add: guarded_def\<close>)
qed

subsection \<open>Two passes\<close>

lemma report_frame [simp]:
  "spec (report_of L b r now) = spec b" "budget_namespace (report_of L b r now) = budget_namespace b"
  "budget_name (report_of L b r now) = budget_name b" "finalizers (report_of L b r now) = finalizers b"
  "deletionTimestamp (report_of L b r now) = deletionTimestamp b"
  "guarded L (report_of L b r now) = guarded L b" "deleting (report_of L b r now) = deleting b"
  "configured_action (report_of L b r now) = configured_action b"
  by (simp_all add: report_of_def kept_def reported_budget_def guarded_def deleting_def configured_action_def)

text \<open>The accounting and the ranking only look at the specification of a budget.\<close>

lemma same_spec:
  assumes "spec b = spec b'"
  shows "account_budget L b now pods = account_budget L b' now pods"
    and "offender L b pods now = offender L b' pods now" and "grace_of b = grace_of b'"
  using assms
  by (simp_all add: account_budget_def account_pods_def offender_def gpuResourceName_of_def window_of_def
      grace_of_def)

lemma flagged_report:
  assumes "conditions_contract L" and "now \<noteq> 0" and "over r"
  shows "flagged_since L (report_of L b r now) =
    Some (whole_second (case flagged_since L b of None \<Rightarrow> now | Some t \<Rightarrow> t))"
  using assms by (simp add: report_of_def flagged_kept flagged_reported split: option.splits)

text \<open>
  A cluster whose budget has a valid selector and its finalizer, is not being deleted, and is
  over its quota at a time.
\<close>

definition overspent :: "('q, 's) k8s \<Rightarrow> 's \<Rightarrow> 'q cluster \<Rightarrow> gotime \<Rightarrow> bool" where
  "overspent L sel c now \<longleftrightarrow>
     labelSelectorAsSelector L (selector (spec (cl_budget c))) = Inr sel \<and>
     guarded L (cl_budget c) \<and> \<not> deleting (cl_budget c) \<and> now \<noteq> 0 \<and>
     over (account_budget L (cl_budget c) now (listed L sel c))"

lemma listed_now [simp]: "listed L sel (c\<lparr>cl_now := now\<rparr>) = listed L sel c"
  by (simp add: listed_def visible_def)

lemma listed_budget:
  "budget_namespace b = budget_namespace (cl_budget c) \<Longrightarrow> listed L sel (c\<lparr>cl_budget := b\<rparr>) = listed L sel c"
  by (simp add: listed_def visible_def)

definition report_at :: "('q, 's) k8s \<Rightarrow> 's \<Rightarrow> 'q cluster \<Rightarrow> gotime \<Rightarrow> 'q budget" where
  "report_at L sel c now =
     report_of L (cl_budget c) (account_budget L (cl_budget c) now (listed L sel c)) now"

lemma pass_over:
  assumes o: "overspent L sel c now"
    and enf: "runs (maybeEnforce L (honest L) (report_at L sel c now) (listed L sel c) now)
      (c\<lparr>cl_now := now, cl_budget := report_at L sel c now\<rparr>) None c'"
  shows "pass_at L now c = c'"
proof -
  let ?c = "c\<lparr>cl_now := now\<rparr>"
  have "runs (reconcile_live L (honest L) (cl_budget ?c)) ?c (Inr overBudgetRequeueInterval) c'"
    by (rule runs_over [where sel = sel and b' = "report_at L sel c now"])
      (use o enf in \<open>simp_all add: overspent_def report_at_def\<close>)
  then have "runs (Reconcile L (honest L) (budget_namespace (cl_budget ?c)) (budget_name (cl_budget ?c))) ?c
      (Inr overBudgetRequeueInterval) c'"
    using o by (intro runs_Reconcile) (simp_all add: overspent_def)
  then show ?thesis using runs_env by (simp add: pass_at_def)
qed

lemma first_pass:
  assumes "conditions_contract L" and "overspent L sel c start"
    and "flagged_since L (cl_budget c) = None" and "0 < sint (gracePeriodSeconds (enforcement (spec (cl_budget c))))"
  shows "pass_at L start c = c\<lparr>cl_now := start, cl_budget := report_at L sel c start\<rparr>"
    and "flagged_since L (report_at L sel c start) = Some (whole_second start)"
proof -
  show f: "flagged_since L (report_at L sel c start) = Some (whole_second start)"
    unfolding report_at_def using assms by (simp add: flagged_report overspent_def)
  have "sint (grace_of (report_at L sel c start)) =
      sint (gracePeriodSeconds (enforcement (spec (cl_budget c)))) * 1000000000"
    unfolding sint_grace_of by (simp add: report_at_def)
  then have "\<not> gate L (report_at L sel c start) start"
    using f assms(4) whole_second_bounds(2) [of start]
    by (simp add: gate_flagged not_le del: of_int_sint)
  then show "pass_at L start c = c\<lparr>cl_now := start, cl_budget := report_at L sel c start\<rparr>"
    by (intro pass_over [OF assms(2)] runs_closed)
qed

lemma due_pass_evicts:
  assumes "conditions_contract L" and "overspent L sel c now" and "configured_action (cl_budget c) = ActionEvict"
    and "flagged_since L (cl_budget c) = Some since" and "whole_second since + sint (grace_of (cl_budget c)) \<le> now"
    and "offender L (cl_budget c) (listed L sel c) now = Some p"
  shows "flagged_since L (report_at L sel c now) = Some (whole_second since)"
    and "pass_at L now c = evicted (c\<lparr>cl_now := now, cl_budget := report_at L sel c now\<rparr>) p now"
proof -
  let ?b = "report_at L sel c now"
  have sp: "spec ?b = spec (cl_budget c)" by (simp add: report_at_def)
  show f: "flagged_since L ?b = Some (whole_second since)"
    unfolding report_at_def using assms by (simp add: flagged_report overspent_def)
  then have g: "gate L ?b now"
    using assms(5) same_spec(3) [OF sp] by (simp add: gate_flagged del: of_int_sint)
  have "runs (maybeEnforce L (honest L) ?b (listed L sel c) now)
      (c\<lparr>cl_now := now, cl_budget := ?b\<rparr>) None (evicted (c\<lparr>cl_now := now, cl_budget := ?b\<rparr>) p now)"
    using assms(3,6) same_spec(2) [OF sp, of L]
    by (intro runs_enforce [OF g]) (simp_all add: report_at_def)
  then show "pass_at L now c = evicted (c\<lparr>cl_now := now, cl_budget := ?b\<rparr>) p now"
    by (rule pass_over [OF assms(2)])
qed

lemma due_pass:
  assumes "conditions_contract L" and "overspent L sel c now" and "configured_action (cl_budget c) = ActionEvict"
    and "flagged_since L (cl_budget c) = Some since" and "whole_second since + sint (grace_of (cl_budget c)) \<le> now"
    and "offender L (cl_budget c) (listed L sel c) now = Some p"
  shows "cl_pods (pass_at L now c) =
    List.filter (\<lambda>q. \<not> is_pod (pod_namespace p) (pod_name p) q) (cl_pods c)"
  using due_pass_evicts(2) [OF assms] by (simp add: evicted_def)

lemma two_passes:
  assumes "conditions_contract L" and "overspent L sel c start" and "overspent L sel c now"
    and "flagged_since L (cl_budget c) = None" and "configured_action (cl_budget c) = ActionEvict"
    and "0 < sint (gracePeriodSeconds (enforcement (spec (cl_budget c))))"
    and "whole_second start + sint (gracePeriodSeconds (enforcement (spec (cl_budget c)))) * 1000000000 \<le> now"
    and "offender L (cl_budget c) (listed L sel c) now = Some p"
  shows "cl_pods (pass_at L start c) = cl_pods c"
    and "cl_pods (pass_at L now (pass_at L start c)) =
      List.filter (\<lambda>q. \<not> is_pod (pod_namespace p) (pod_name p) q) (cl_pods c)"
proof -
  let ?b = "report_at L sel c start"
  let ?c = "c\<lparr>cl_now := start, cl_budget := ?b\<rparr>"
  have one: "pass_at L start c = ?c" using assms by (intro first_pass)
  then show "cl_pods (pass_at L start c) = cl_pods c" by simp
  have sp: "spec ?b = spec (cl_budget c)" by (simp add: report_at_def)
  have l: "listed L sel ?c = listed L sel c"
    using listed_budget [of ?b "c\<lparr>cl_now := start\<rparr>" L sel] by (simp add: report_at_def)
  have "cl_pods (pass_at L now ?c) =
      List.filter (\<lambda>q. \<not> is_pod (pod_namespace p) (pod_name p) q) (cl_pods ?c)"
  proof (rule due_pass [OF assms(1), where sel = sel and since = "whole_second start"])
    show "overspent L sel ?c now"
      using assms(3) same_spec(1) [OF sp, of L] by (simp add: overspent_def l sp) (simp add: report_at_def)
    show "configured_action (cl_budget ?c) = ActionEvict" using assms(5) by (simp add: report_at_def)
    show "flagged_since L (cl_budget ?c) = Some (whole_second start)"
      using first_pass(2) [OF assms(1,2,4,6)] by simp
    show "whole_second (whole_second start) + sint (grace_of (cl_budget ?c)) \<le> now"
      using assms(7) same_spec(3) [OF sp] sint_grace_of [of "cl_budget c"] by (simp del: of_int_sint)
    show "offender L (cl_budget ?c) (listed L sel ?c) now = Some p"
      using assms(8) same_spec(2) [OF sp, of L] by (simp add: l)
  qed
  then show "cl_pods (pass_at L now (pass_at L start c)) =
      List.filter (\<lambda>q. \<not> is_pod (pod_namespace p) (pod_name p) q) (cl_pods c)"
    using one by simp
qed

subsection \<open>A sample cluster\<close>

definition sample_cluster :: "rat cluster" where
  "sample_cluster =
     \<lparr>cl_budget = sample_budget\<lparr>finalizers := [finalizerName],
        spec := sample_spec\<lparr>quota := \<lparr>gpuHours = 1, windowHours = 24\<rparr>\<rparr>\<rparr>,
      cl_pods = [sample_pod], cl_now = 0\<rparr>"

lemma sample_listed: "listed ref_lib sample_selector sample_cluster = [sample_pod]"
  by (simp add: listed_def visible_def sample_cluster_def ref_lib_def ref_matches_def samples fmpred_iff)

lemma sample_spec_fields:
  "gpuResourceName_of (cl_budget sample_cluster) = ''nvidia.com/gpu''"
  "window_of (cl_budget sample_cluster) = 86400000000000"
  by (simp_all add: gpuResourceName_of_def window_of_def Hour_def sample_cluster_def samples)

lemma sample_consumption:
  assumes "now = 7200000000000 \<or> now = 10800000000000" and "from \<le> 3600000000000"
  shows "\<exists>n. WindowUsage
    \<lparr>acc_id = ''uid-1'', acc_start = 3600000000000, acc_end = None, acc_gpus = Fin 2\<rparr> from now = Fin (of_int n) \<and>
    2 \<le> n \<and> n \<le> 4"
proof -
  let ?a = "\<lparr>acc_id = ''uid-1'', acc_start = 3600000000000, acc_end = None, acc_gpus = Fin 2\<rparr>"
  have e: "exact_usage ?a from now = (if now = 7200000000000 then 2 else 4)"
    using assms by (auto simp: exact_usage_def hours_exact_def overlap_def)
  have "whole_hours from now ?a"
    unfolding whole_hours_def using assms
    by (intro exI [of _ 2] exI [of _ "if now = 7200000000000 then 1 else 2"])
      (auto simp: overlap_def)
  then have "WindowUsage ?a from now = Fin (exact_usage ?a from now)"
    by (rule whole_usage) (simp add: e)
  then show ?thesis unfolding e
    by (intro exI [of _ "if now = 7200000000000 then 2 else 4"]) simp
qed

lemma sample_overspent:
  assumes "now = 7200000000000 \<or> now = 10800000000000"
  shows "overspent ref_lib sample_selector sample_cluster now"
proof -
  have "Add now (- 86400000000000) \<le> 3600000000000" using assms by (auto simp: Add_def)
  then obtain n where n: "WindowUsage
      \<lparr>acc_id = ''uid-1'', acc_start = 3600000000000, acc_end = None, acc_gpus = Fin 2\<rparr>
      (Add now (- 86400000000000)) now = Fin (of_int n)" "2 \<le> n" "n \<le> 4"
    using sample_consumption [OF assms] by blast
  have "round64 (of_int n) = Fin (of_int n)"
    using n by (intro round64_rep64 rep64_int) auto
  then have "over (account_budget ref_lib (cl_budget sample_cluster) now [sample_pod])"
    using n round64_rep64 [OF rep64_int [of 1]]
    by (simp add: account_budget_def account_pods_def sample_spec_fields sample_plain sample_accounting
        map_filter_simps window_start_def sum_usage_def)
      (simp add: sample_cluster_def samples)
  then show ?thesis using assms
    unfolding overspent_def sample_listed
    by (auto simp: sample_cluster_def guarded_def deleting_def ref_lib_def samples ref_compile_def)
qed

lemma sample_cluster_offender:
  "offender ref_lib (cl_budget sample_cluster) [sample_pod] 10800000000000 = Some sample_pod"
proof -
  obtain n where n: "usage_of ref_lib ''nvidia.com/gpu'' (Add 10800000000000 (- 86400000000000))
      10800000000000 sample_pod = Fin (of_int n)" "2 \<le> n"
    using sample_consumption [of 10800000000000 "Add 10800000000000 (- 86400000000000)"]
    by (auto simp: usage_of_def sample_plain sample_accounting Add_def)
  then have "candidate ref_lib ''nvidia.com/gpu'' (Add 10800000000000 (- 86400000000000)) 10800000000000 sample_pod"
    by (simp add: candidate_def terminating_def) (simp add: samples)
  then show ?thesis
    by (simp add: offender_def sample_spec_fields pickWorstOffender_scan scan_def scan_step_def)
qed

end
