(* ===== verification/Draining.thy ===== *)
theory Draining
  imports Cluster
begin

text \<open>
  Enforcement over many passes: a flagged budget with the Evict action whose grace period has
  passed loses its worst offender in every pass, until its consumption is below the quota or
  no pod that could be charged is left. The number of pods bounds the number of passes.
\<close>

text \<open>The budget's grace period has passed by the deadline, and a pass would evict for it.\<close>

definition armed :: "('q, 's) k8s \<Rightarrow> 's \<Rightarrow> 'q cluster \<Rightarrow> gotime \<Rightarrow> bool" where
  "armed L sel c deadline \<longleftrightarrow>
     labelSelectorAsSelector L (selector (spec (cl_budget c))) = Inr sel \<and>
     guarded L (cl_budget c) \<and> \<not> deleting (cl_budget c) \<and> configured_action (cl_budget c) = ActionEvict \<and>
     (\<exists>since. flagged_since L (cl_budget c) = Some since \<and>
        whole_second since + sint (grace_of (cl_budget c)) \<le> deadline)"

definition over_quota :: "('q, 's) k8s \<Rightarrow> 's \<Rightarrow> 'q cluster \<Rightarrow> gotime \<Rightarrow> bool" where
  "over_quota L sel c now \<longleftrightarrow> over (account_budget L (cl_budget c) now (listed L sel c))"

text \<open>The cluster after passes at the given times.\<close>

definition passes_at :: "('q, 's) k8s \<Rightarrow> gotime list \<Rightarrow> 'q cluster \<Rightarrow> 'q cluster" where
  "passes_at L ts c = foldl (\<lambda>c t. pass_at L t c) c ts"

lemma passes_at_simps [simp]:
  "passes_at L [] c = c" "passes_at L (t # ts) c = passes_at L ts (pass_at L t c)"
  by (simp_all add: passes_at_def)

lemma kept_stamped_frame [simp]:
  "spec (kept (stamped b now)) = spec b" "guarded L (kept (stamped b now)) = guarded L b"
  "deleting (kept (stamped b now)) = deleting b"
  "configured_action (kept (stamped b now)) = configured_action b"
  "grace_of (kept (stamped b now)) = grace_of b"
  by (simp_all add: kept_def stamped_def guarded_def deleting_def configured_action_def grace_of_def)

text \<open>One pass: a pod goes, and the budget stays armed.\<close>

lemma armed_pass:
  assumes "conditions_contract L" and "armed L sel c deadline" and "deadline \<le> now" and "now \<noteq> 0"
    and "over_quota L sel c now" and "offender L (cl_budget c) (listed L sel c) now = Some p"
  shows "armed L sel (pass_at L now c) deadline"
    and "cl_pods (pass_at L now c) = List.filter (\<lambda>q. \<not> is_pod (pod_namespace p) (pod_name p) q) (cl_pods c)"
    and "p \<in> set (cl_pods c)"
proof -
  obtain since where since: "flagged_since L (cl_budget c) = Some since"
      "whole_second since + sint (grace_of (cl_budget c)) \<le> deadline"
    using assms(2) by (auto simp: armed_def)
  have o: "overspent L sel c now"
    using assms(2,4,5) by (simp add: overspent_def armed_def over_quota_def)
  have evict: "configured_action (cl_budget c) = ActionEvict" using assms(2) by (simp add: armed_def)
  have due: "whole_second since + sint (grace_of (cl_budget c)) \<le> now" using since(2) assms(3) by linarith
  note ev = due_pass_evicts [OF assms(1) o evict since(1) due assms(6)]
  have sp: "spec (report_at L sel c now) = spec (cl_budget c)" by (simp add: report_at_def)
  have "flagged_since L (kept (stamped (report_at L sel c now) now)) = Some (whole_second since)"
    using ev(1) by (simp add: flagged_kept [OF assms(1)])
  then show "armed L sel (pass_at L now c) deadline"
    using assms(2) since(2) same_spec(3) [OF sp]
    by (simp add: armed_def ev(2) evicted_def sp del: of_int_sint) (simp add: report_at_def)
  show "cl_pods (pass_at L now c) = List.filter (\<lambda>q. \<not> is_pod (pod_namespace p) (pod_name p) q) (cl_pods c)"
    by (simp add: ev(2) evicted_def)
  have "p \<in> set (listed L sel c)"
    using assms(6) by (simp add: offender_def pickWorstOffender_candidate)
  then show "p \<in> set (cl_pods c)" by (auto simp: listed_def visible_def)
qed

lemma drained:
  assumes "conditions_contract L" and "armed L sel c deadline"
    and "\<forall>t \<in> set ts. deadline \<le> t \<and> t \<noteq> 0" and "length (cl_pods c) < length ts"
  shows "\<exists>k < length ts. armed L sel (passes_at L (take k ts) c) deadline \<and>
    set (cl_pods (passes_at L (take k ts) c)) \<subseteq> set (cl_pods c) \<and>
    (\<not> over_quota L sel (passes_at L (take k ts) c) (ts ! k) \<or>
     offender L (cl_budget (passes_at L (take k ts) c)) (listed L sel (passes_at L (take k ts) c)) (ts ! k) = None)"
  using assms(2-)
proof (induction ts arbitrary: c)
  case (Cons t ts)
  show ?case
  proof (cases "\<not> over_quota L sel c t \<or> offender L (cl_budget c) (listed L sel c) t = None")
    case True
    then show ?thesis using Cons.prems(1) by (intro exI [of _ 0]) simp
  next
    case False
    then obtain p where p: "over_quota L sel c t" "offender L (cl_budget c) (listed L sel c) t = Some p" by blast
    have t: "deadline \<le> t" "t \<noteq> 0" using Cons.prems(2) by simp_all
    note ps = armed_pass [OF assms(1) Cons.prems(1) t p]
    have "is_pod (pod_namespace p) (pod_name p) p" by (simp add: is_pod_def)
    then have "length (cl_pods (pass_at L t c)) < length (cl_pods c)"
      unfolding ps(2) using ps(3) by (intro length_filter_less) auto
    then obtain k where "k < length ts" "armed L sel (passes_at L (take k ts) (pass_at L t c)) deadline"
        "set (cl_pods (passes_at L (take k ts) (pass_at L t c))) \<subseteq> set (cl_pods (pass_at L t c))"
        "\<not> over_quota L sel (passes_at L (take k ts) (pass_at L t c)) (ts ! k) \<or>
          offender L (cl_budget (passes_at L (take k ts) (pass_at L t c)))
            (listed L sel (passes_at L (take k ts) (pass_at L t c))) (ts ! k) = None"
      using Cons.IH [OF ps(1)] Cons.prems(2,3) by auto
    then show ?thesis using ps(2) by (intro exI [of _ "Suc k"]) auto
  qed
qed simp

subsection \<open>A sample\<close>

definition flagged_cluster :: "rat cluster" where
  "flagged_cluster = sample_cluster\<lparr>cl_budget := (cl_budget sample_cluster)
     \<lparr>status := (status (cl_budget sample_cluster))\<lparr>conditions := [sample_flag]\<rparr>\<rparr>\<rparr>"

lemma flagged_armed: "armed ref_lib sample_selector flagged_cluster 7200000000000"
proof -
  have "flagged_since ref_lib (cl_budget flagged_cluster) = Some 3600000000000"
    by (simp add: flagged_since_def flagged_cluster_def ref_lib_def ref_find_def sample_flag_def)
  moreover have "sint (grace_of (cl_budget flagged_cluster)) = 300000000000"
    unfolding sint_grace_of by (simp add: flagged_cluster_def sample_cluster_def samples)
  ultimately show ?thesis
    by (auto simp: armed_def whole_second_def simp del: of_int_sint)
      (simp_all add: flagged_cluster_def sample_cluster_def guarded_def deleting_def ref_lib_def samples
        ref_compile_def configured_action_def)
qed

lemma flagged_pods: "cl_pods flagged_cluster = [sample_pod]"
  by (simp add: flagged_cluster_def sample_cluster_def)

end
