(* ===== verification/Steady.thy ===== *)
theory Steady
  imports Draining
begin

text \<open>
  Passes that have nothing new to report. A pass that is within the quota, or over it with the
  grace period still running, only writes the status; and if the accounting has not changed
  since the last one, it writes what is there already: the operator's own status writes do not
  keep it busy.
\<close>

subsection \<open>A pass that only reports\<close>

definition calm :: "('q, 's) k8s \<Rightarrow> 's \<Rightarrow> 'q cluster \<Rightarrow> gotime \<Rightarrow> bool" where
  "calm L sel c now \<longleftrightarrow>
     labelSelectorAsSelector L (selector (spec (cl_budget c))) = Inr sel \<and>
     guarded L (cl_budget c) \<and> \<not> deleting (cl_budget c) \<and> now \<noteq> 0 \<and>
     (over_quota L sel c now \<longrightarrow> \<not> gate L (report_at L sel c now) now)"

lemma runs_within:
  assumes sel: "labelSelectorAsSelector L (selector (spec (cl_budget c))) = Inr sel"
    and under: "\<not> over (account_budget L (cl_budget c) (cl_now c) (listed L sel c))"
    and rep: "b' = report_of L (cl_budget c) (account_budget L (cl_budget c) (cl_now c) (listed L sel c)) (cl_now c)"
  shows "runs (reconcile_live L (honest L) (cl_budget c)) c (Inr defaultRequeueInterval) (c\<lparr>cl_budget := b'\<rparr>)"
proof -
  let ?b = "cl_budget c" and ?now = "cl_now c" and ?pods = "listed L sel c"
  let ?r = "account_budget L ?b ?now ?pods"
  have clk: "runs (reconciler_now (honest L)) c ?now c"
    unfolding reconciler_now_def by (rule runs_perform) simp
  have lst: "runs (do_list_pods (honest L) (budget_namespace ?b) sel) c (Inr ?pods) c"
    unfolding do_list_pods_def by (rule runs_perform) (simp add: listed_def)
  have ws: "runs (writeStatus L (honest L) ?b ?r ?now) c (Inr b') (c\<lparr>cl_budget := b'\<rparr>)"
    using runs_writeStatus [of c ?now L ?b ?r] by (simp add: rep)
  have tail: "runs (State_Monad.bind (publishMetrics b' ?r) (\<lambda>_.
      if over ?r then State_Monad.bind (maybeEnforce L (honest L) b' ?pods ?now) (\<lambda>e.
        State_Monad.return (case e of Some err \<Rightarrow> Inl err | None \<Rightarrow> Inr overBudgetRequeueInterval))
      else State_Monad.return (Inr defaultRequeueInterval)))
      (c\<lparr>cl_budget := b'\<rparr>) (Inr defaultRequeueInterval) (c\<lparr>cl_budget := b'\<rparr>)"
    by (rule runs_bind [OF runs_publish], simp only: under if_False) (rule runs_return)
  show ?thesis
    unfolding reconcile_live_def Let_def
    by (rule runs_bind [OF clk], simp only: sel sum.case, rule runs_bind [OF lst],
        simp only: sum.case, rule runs_bind [OF ws], simp only: sum.case tail)
qed

lemma calm_pass:
  assumes "calm L sel c now"
  shows "pass_at L now c = c\<lparr>cl_now := now, cl_budget := report_at L sel c now\<rparr>"
proof (cases "over_quota L sel c now")
  case True
  have "overspent L sel c now" using assms True by (simp add: calm_def overspent_def over_quota_def)
  then show ?thesis by (rule pass_over) (use assms True in \<open>simp add: calm_def runs_closed\<close>)
next
  case False
  let ?c = "c\<lparr>cl_now := now\<rparr>"
  have "runs (reconcile_live L (honest L) (cl_budget ?c)) ?c (Inr defaultRequeueInterval)
      (?c\<lparr>cl_budget := report_at L sel c now\<rparr>)"
    by (rule runs_within [where sel = sel]) (use assms False in \<open>simp_all add: calm_def over_quota_def report_at_def\<close>)
  then have "runs (Reconcile L (honest L) (budget_namespace (cl_budget ?c)) (budget_name (cl_budget ?c))) ?c
      (Inr defaultRequeueInterval) (?c\<lparr>cl_budget := report_at L sel c now\<rparr>)"
    using assms by (intro runs_Reconcile) (simp_all add: calm_def)
  then show ?thesis using runs_env by (simp add: pass_at_def)
qed

subsection \<open>The same report again\<close>

text \<open>Two budgets that differ at most in how the list of conditions is laid out.\<close>

definition same_stored :: "('q, 's) k8s \<Rightarrow> 'q budget \<Rightarrow> 'q budget \<Rightarrow> bool" where
  "same_stored L b b' \<longleftrightarrow>
     b\<lparr>status := (status b)\<lparr>conditions := []\<rparr>\<rparr> = b'\<lparr>status := (status b')\<lparr>conditions := []\<rparr>\<rparr> \<and>
     (\<forall>t. condition_of L b t = condition_of L b' t)"

lemma kept_condition_idem [simp]: "kept_condition (kept_condition c) = kept_condition c"
  by (simp add: kept_condition_def)

lemma condition_of_kept:
  "conditions_contract L \<Longrightarrow> condition_of L (kept b) t = map_option kept_condition (condition_of L b t)"
  by (simp add: conditions_contract_def kept_def)

lemma merged_again:
  assumes "cond_status d = cond_status c" and "d\<lparr>lastTransitionTime := 0\<rparr> = c\<lparr>lastTransitionTime := 0\<rparr>"
  shows "kept_condition (merged_condition now' (Some (kept_condition (merged_condition now x c))) d) =
    kept_condition (merged_condition now x c)"
proof -
  have "d\<lparr>lastTransitionTime := t\<rparr> = c\<lparr>lastTransitionTime := t\<rparr>" for t
    using assms(2) by (cases c, cases d) simp
  then show ?thesis using assms(1)
    by (simp add: merged_condition_def Let_def kept_condition_def)
qed

lemma report_conditions:
  assumes "conditions_contract L"
  shows "condition_of L (report_of L b r now) t =
    (if t = ConditionReady then
       Some (kept_condition (merged_condition now (condition_of L b t) (ready_condition now)))
     else if t = ConditionQuotaExceeded then
       Some (kept_condition (merged_condition now (condition_of L b t) (quota_condition r now)))
     else if t = ConditionDegraded then
       Some (kept_condition (merged_condition now (condition_of L b t) (recovered_condition now)))
     else map_option kept_condition (condition_of L b t))"
  unfolding report_of_def condition_of_kept [OF assms]
  by (auto simp: reported_conditions [OF assms])
    (simp add: reported_budget_def status_after_def find_set [OF assms])

lemma report_again:
  assumes "conditions_contract L"
  shows "same_stored L (report_of L (report_of L b r now) r now') (report_of L b r now)"
  unfolding same_stored_def
proof (intro conjI allI)
  show "condition_of L (report_of L (report_of L b r now) r now') t = condition_of L (report_of L b r now) t" for t
    unfolding report_conditions [OF assms]
    by (auto simp: ready_condition_def quota_condition_def recovered_condition_def option.map_comp o_def
        intro!: merged_again)
  show "(report_of L (report_of L b r now) r now')
      \<lparr>status := (status (report_of L (report_of L b r now) r now'))\<lparr>conditions := []\<rparr>\<rparr> =
    (report_of L b r now)\<lparr>status := (status (report_of L b r now))\<lparr>conditions := []\<rparr>\<rparr>"
    by (simp add: report_of_def kept_def reported_budget_def status_after_def option.map_comp o_def)
qed

lemma steady_passes:
  assumes "conditions_contract L" and "calm L sel c now" and "calm L sel (pass_at L now c) now'"
    and "account_budget L (cl_budget c) now' (listed L sel c) = account_budget L (cl_budget c) now (listed L sel c)"
  shows "same_stored L (cl_budget (pass_at L now' (pass_at L now c))) (cl_budget (pass_at L now c))"
    and "cl_pods (pass_at L now' (pass_at L now c)) = cl_pods c"
proof -
  let ?c = "pass_at L now c"
  have c: "?c = c\<lparr>cl_now := now, cl_budget := report_at L sel c now\<rparr>" by (rule calm_pass [OF assms(2)])
  have sp: "spec (report_at L sel c now) = spec (cl_budget c)" by (simp add: report_at_def)
  have l: "listed L sel ?c = listed L sel c"
    using listed_budget [of "report_at L sel c now" "c\<lparr>cl_now := now\<rparr>" L sel] by (simp add: c report_at_def)
  have "report_at L sel ?c now' = report_of L (report_at L sel c now)
      (account_budget L (cl_budget c) now (listed L sel c)) now'"
    using same_spec(1) [OF sp, of L] assms(4) unfolding report_at_def [of L sel ?c] l by (simp add: c)
  then show "same_stored L (cl_budget (pass_at L now' ?c)) (cl_budget ?c)"
    using report_again [OF assms(1)] unfolding calm_pass [OF assms(3)] by (simp add: c report_at_def)
  show "cl_pods (pass_at L now' ?c) = cl_pods c" unfolding calm_pass [OF assms(3)] by (simp add: c)
qed

subsection \<open>A sample\<close>

definition idle_cluster :: "rat cluster" where
  "idle_cluster = sample_cluster\<lparr>cl_pods := []\<rparr>"

lemma idle_account: "account_budget ref_lib (cl_budget idle_cluster) now [] =
    account_budget ref_lib (cl_budget idle_cluster) now' []"
  by (simp add: account_budget_def account_pods_def map_filter_simps Compute_def sum_usage_def Let_def)

lemma idle_calm:
  assumes "now \<noteq> 0"
  shows "calm ref_lib sample_selector idle_cluster now"
    and "listed ref_lib sample_selector idle_cluster = []"
    and "now' \<noteq> 0 \<Longrightarrow> calm ref_lib sample_selector (pass_at ref_lib now idle_cluster) now'"
proof -
  show l: "listed ref_lib sample_selector idle_cluster = []"
    by (simp add: listed_def visible_def idle_cluster_def)
  have o: "\<not> over (account_budget ref_lib b t [])" if "spec b = spec (cl_budget idle_cluster)" for b t
    using that round64_rep64 [OF rep64_int [of 1]]
    by (simp add: account_budget_def account_pods_def map_filter_simps sum_usage_def)
      (simp add: idle_cluster_def sample_cluster_def samples)
  show c: "calm ref_lib sample_selector idle_cluster now"
    unfolding calm_def over_quota_def l using assms o
    by (simp add: idle_cluster_def sample_cluster_def guarded_def deleting_def ref_lib_def samples ref_compile_def)
  let ?b = "report_at ref_lib sample_selector idle_cluster now"
  have sp: "spec ?b = spec (cl_budget idle_cluster)" by (simp add: report_at_def)
  have l': "listed ref_lib sample_selector (idle_cluster\<lparr>cl_now := now, cl_budget := ?b\<rparr>) = []"
    by (simp add: listed_def visible_def idle_cluster_def)
  show "calm ref_lib sample_selector (pass_at ref_lib now idle_cluster) now'" if "now' \<noteq> 0"
    unfolding calm_pass [OF c] using c that o [OF sp]
    by (simp add: calm_def over_quota_def l' sp) (simp add: report_at_def)
qed

end
