(* ===== verification/ApiServer.thy ===== *)
theory ApiServer
  imports ReconcileLaws
begin

text \<open>
  The API server's side of a budget's life, shared with other clients: the versions of every
  stored object, the operator's cache that lags behind them, what other clients may do
  between two calls of a pass, and how each call is answered. A server that keeps to this is
  the locale \<open>conforming_server\<close>; every run of the reconciler against one is a trace of the
  specification that the server served.
\<close>

subsection \<open>The store\<close>

text \<open>
  The versions of an object the operator's cache has not moved past, oldest first, each with
  its revision (\<open>metadata.resourceVersion\<close>); \<open>None\<close> stands for an absent object. The head is
  what the cache shows and the last one is what is stored. \<open>in_hand\<close> is the revision of the
  object the operator last received.
\<close>

record 'q budget_store =
  versions :: "string \<times> string \<Rightarrow> (nat \<times> 'q budget option) list"
  revision :: nat
  in_hand :: nat

definition key_of :: "'q budget \<Rightarrow> string \<times> string" where
  "key_of b = (budget_namespace b, budget_name b)"

definition stored :: "'q budget_store \<Rightarrow> string \<times> string \<Rightarrow> 'q budget option" where
  "stored s k = snd (last (versions s k))"

definition put :: "string \<times> string \<Rightarrow> 'q budget option \<Rightarrow> 'q budget_store \<Rightarrow> 'q budget_store" where
  "put k v s = s\<lparr>versions := (versions s)(k := versions s k @ [(revision s, v)]), revision := revision s + 1\<rparr>"

text \<open>A budget that is being deleted goes when its last finalizer goes.\<close>

definition settled :: "'q budget \<Rightarrow> 'q budget option" where
  "settled b = (if deleting b \<and> finalizers b = [] then None else Some b)"

definition advance :: "string \<times> string \<Rightarrow> 'q budget_store \<Rightarrow> 'q budget_store" where
  "advance k s = s\<lparr>versions := (versions s)(k := tl (versions s k))\<rparr>"

definition receive :: "nat \<Rightarrow> 'q budget_store \<Rightarrow> 'q budget_store" where
  "receive i s = s\<lparr>in_hand := i\<rparr>"

lemma store_simps [simp]:
  "versions (put k v s) = (versions s)(k := versions s k @ [(revision s, v)])"
  "revision (put k v s) = revision s + 1" "in_hand (put k v s) = in_hand s"
  "versions (advance k s) = (versions s)(k := tl (versions s k))"
  "revision (advance k s) = revision s" "in_hand (advance k s) = in_hand s"
  "versions (receive i s) = versions s" "revision (receive i s) = revision s"
  "in_hand (receive i s) = i"
  by (simp_all add: put_def advance_def receive_def)

lemma stored_simps [simp]:
  "stored (put k v s) k' = (if k' = k then v else stored s k')"
  "stored (receive i s) k' = stored s k'"
  by (simp_all add: stored_def)

lemma stored_advance: "tl (versions s k) \<noteq> [] \<Longrightarrow> stored (advance k s) k' = stored s k'"
  by (simp add: stored_def last_tl)

subsection \<open>What other clients do\<close>

text \<open>
  Creations and updates pass the webhook, an update changes neither the key nor the deletion
  mark and gives a budget that is being deleted no new finalizer. What is assumed of the
  other clients is that none takes the operator's finalizer away.
\<close>

inductive client_step :: "('q, 's) k8s \<Rightarrow> 'q budget_store \<Rightarrow> 'q budget_store \<Rightarrow> bool" for L where
  create: "stored s (key_of b) = None \<Longrightarrow> deletionTimestamp b = None \<Longrightarrow>
    snd (ValidateCreate L b) = None \<Longrightarrow> client_step L s (put (key_of b) (Some b) s)"
| edit: "stored s (key_of b) = Some a \<Longrightarrow> deletionTimestamp b = deletionTimestamp a \<Longrightarrow>
    (guarded L a \<longrightarrow> guarded L b) \<Longrightarrow> (deleting a \<longrightarrow> set (finalizers b) \<subseteq> set (finalizers a)) \<Longrightarrow>
    snd (ValidateUpdate L a b) = None \<Longrightarrow> client_step L s (put (key_of b) (settled b) s)"
| write_status: "stored s k = Some a \<Longrightarrow> client_step L s (put k (Some (a\<lparr>status := st\<rparr>)) s)"
| delete: "stored s k = Some a \<Longrightarrow> \<not> deleting a \<Longrightarrow> snd (ValidateDelete a) = None \<Longrightarrow> t \<noteq> 0 \<Longrightarrow>
    client_step L s (put k (settled (a\<lparr>deletionTimestamp := Some t\<rparr>)) s)"

subsection \<open>How a call is answered\<close>

fun budget_call :: "('q, 's) call \<Rightarrow> bool" where
  "budget_call (GetBudget ns n r) = True"
| "budget_call (UpdateBudget b r) = True"
| "budget_call (PatchStatus base b r) = True"
| "budget_call c = False"

text \<open>
  An update is taken only at the revision in hand; status, key and deletion mark are not its
  business, and the webhook has its say.
\<close>

definition takes_update :: "('q, 's) k8s \<Rightarrow> 'q budget_store \<Rightarrow> 'q budget \<Rightarrow> 'q budget \<Rightarrow> bool" where
  "takes_update L s b b' \<longleftrightarrow>
     (\<exists>a. last (versions s (key_of b)) = (in_hand s, Some a) \<and>
        b' = b\<lparr>deletionTimestamp := deletionTimestamp a, status := status a\<rparr> \<and>
        (deleting a \<longrightarrow> set (finalizers b) \<subseteq> set (finalizers a)) \<and> snd (ValidateUpdate L a b) = None)"

text \<open>
  A read shows the cache. A status patch carries no revision and changes nothing but the
  status, in a way that is left open. A call that changes something may fail, with or without
  having taken effect.
\<close>

inductive answers :: "('q, 's) k8s \<Rightarrow> 'q budget_store \<Rightarrow> ('q, 's) call \<Rightarrow> 'q budget_store \<Rightarrow> bool" for L where
  read: "versions s (ns, n) = (i, Some b) # vs \<Longrightarrow> answers L s (GetBudget ns n (Inr b)) (receive i s)"
| read_absent: "snd (hd (versions s (ns, n))) = None \<Longrightarrow> isNotFound L e \<Longrightarrow>
    answers L s (GetBudget ns n (Inl e)) s"
| read_failed: "\<not> isNotFound L e \<Longrightarrow> answers L s (GetBudget ns n (Inl e)) s"
| update: "takes_update L s b b' \<Longrightarrow>
    answers L s (UpdateBudget b (Inr b')) (receive (revision s) (put (key_of b) (settled b') s))"
| update_lost: "takes_update L s b b' \<Longrightarrow>
    answers L s (UpdateBudget b (Inl e)) (put (key_of b) (settled b') s)"
| update_failed: "answers L s (UpdateBudget b (Inl e)) s"
| patch: "stored s (key_of b) = Some a \<Longrightarrow> b' = a\<lparr>status := st\<rparr> \<Longrightarrow>
    answers L s (PatchStatus base b (Inr b')) (receive (revision s) (put (key_of b) (Some b') s))"
| patch_lost: "stored s (key_of b) = Some a \<Longrightarrow>
    answers L s (PatchStatus base b (Inl e)) (put (key_of b) (Some (a\<lparr>status := st\<rparr>)) s)"
| patch_failed: "answers L s (PatchStatus base b (Inl e)) s"
| elsewhere: "\<not> budget_call c \<Longrightarrow> answers L s c s"

text \<open>
  A list of calls is served with the steps of other clients (if there are any) and the
  progress of the cache interleaved in any order.
\<close>

inductive serves :: "bool \<Rightarrow> ('q, 's) k8s \<Rightarrow> 'q budget_store \<Rightarrow> ('q, 's) call list \<Rightarrow> 'q budget_store \<Rightarrow> bool"
  for others L where
  idle: "serves others L s [] s"
| deliver: "tl (versions s k) \<noteq> [] \<Longrightarrow> serves others L (advance k s) cs s' \<Longrightarrow> serves others L s cs s'"
| client: "others \<Longrightarrow> client_step L s s1 \<Longrightarrow> serves others L s1 cs s' \<Longrightarrow> serves others L s cs s'"
| call: "answers L s c s1 \<Longrightarrow> serves others L s1 cs s' \<Longrightarrow> serves others L s (c # cs) s'"

inductive_cases servesE: "serves others L s cs s'"
inductive_cases client_stepE: "client_step L s s'"
inductive_cases answersE: "answers L s c s'"
inductive_cases answers_getE: "answers L s (GetBudget ns n (Inr b)) s'"
inductive_cases answers_getErrE: "answers L s (GetBudget ns n (Inl e)) s'"
inductive_cases answers_updateE: "answers L s (UpdateBudget b r) s'"
inductive_cases answers_updatedE: "answers L s (UpdateBudget b (Inr b')) s'"
inductive_cases answers_patchE: "answers L s (PatchStatus base b (Inr b')) s'"

lemma serves_append: "serves others L s cs s1 \<Longrightarrow> serves others L s1 ds s2 \<Longrightarrow> serves others L s (cs @ ds) s2"
  by (induction rule: serves.induct) (auto intro: serves.intros)

lemma serves_Cons:
  assumes "serves others L s (c # cs) s'"
  obtains s1 s2 where "serves others L s [] s1" and "answers L s1 c s2" and "serves others L s2 cs s'"
  using assms
proof (induction s "c # cs" s' arbitrary: thesis rule: serves.induct)
  case (deliver s k s')
  from deliver(3) obtain s1 s2 where s: "serves others L (advance k s) [] s1" "answers L s1 c s2" "serves others L s2 cs s'" by blast
  show ?case by (rule deliver(4) [OF serves.deliver [OF deliver(1) s(1)] s(2,3)])
next
  case (client s s1 s')
  from client(4) obtain s2 s3 where s: "serves others L s1 [] s2" "answers L s2 c s3" "serves others L s3 cs s'" by blast
  show ?case by (rule client(5) [OF serves.client [OF client(1,2) s(1)] s(2,3)])
next
  case (call s s1 s')
  then show ?case using serves.idle by blast
qed

lemma serves_split:
  assumes "serves others L s (cs @ ds) s'"
  obtains s1 where "serves others L s cs s1" and "serves others L s1 ds s'"
  using assms
proof (induction cs arbitrary: s thesis)
  case Nil
  then show ?case using serves.idle by (metis append_Nil)
next
  case (Cons c cs)
  from Cons.prems(2) obtain s1 s2 where s: "serves others L s [] s1" "answers L s1 c s2" "serves others L s2 (cs @ ds) s'"
    by (auto elim: serves_Cons)
  obtain s3 where "serves others L s2 cs s3" "serves others L s3 ds s'" using Cons.IH s(3) by blast
  then show ?case using Cons.prems(1) serves_append [OF s(1) serves.call [OF s(2)], of cs s3] by simp
qed

subsection \<open>Invariants of the store\<close>

lemma serves_invariant:
  assumes deliver: "\<And>s k. I s \<Longrightarrow> tl (versions s k) \<noteq> [] \<Longrightarrow> I (advance k s)"
    and client: "\<And>s s'. others \<Longrightarrow> I s \<Longrightarrow> client_step L s s' \<Longrightarrow> I s'"
    and run: "serves others L s cs s'"
  shows "I s \<Longrightarrow> (\<And>s c s'. c \<in> set cs \<Longrightarrow> I s \<Longrightarrow> answers L s c s' \<Longrightarrow> I s') \<Longrightarrow> I s'"
  using run
proof (induction rule: serves.induct)
  case (deliver s k cs s')
  show ?case
    by (rule deliver.IH [OF assms(1) [OF deliver.prems(1) deliver.hyps(1)] deliver.prems(2)])
next
  case (client s s1 cs s')
  show ?case
    by (rule client.IH [OF assms(2) [OF client.hyps(1) client.prems(1) client.hyps(2)] client.prems(2)])
next
  case (call s c s1 cs s')
  have "I s1" by (rule call.prems(2) [OF _ call.prems(1) call.hyps(1)]) simp
  then show ?case by (rule call.IH) (rule call.prems(2), simp_all)
qed

text \<open>
  Revisions grow, every version sits under its own key, and every specification was accepted
  by the webhook.
\<close>

definition in_order :: "'q budget_store \<Rightarrow> string \<times> string \<Rightarrow> bool" where
  "in_order s k \<longleftrightarrow> versions s k \<noteq> [] \<and> sorted_wrt (<) (map fst (versions s k)) \<and>
     (\<forall>x \<in> set (versions s k). fst x < revision s)"

definition lawful :: "('q, 's) k8s \<Rightarrow> 'q budget_store \<Rightarrow> bool" where
  "lawful L s \<longleftrightarrow> (\<forall>k. in_order s k \<and>
     (\<forall>i b. (i, Some b) \<in> set (versions s k) \<longrightarrow> key_of b = k \<and> valid_spec L (spec b)))"

lemma lawfulD:
  assumes "lawful L s"
  shows "versions s k \<noteq> []" "sorted_wrt (<) (map fst (versions s k))"
    "x \<in> set (versions s k) \<Longrightarrow> fst x < revision s"
    "(i, Some b) \<in> set (versions s k) \<Longrightarrow> key_of b = k"
    "(i, Some b) \<in> set (versions s k) \<Longrightarrow> valid_spec L (spec b)"
  using assms unfolding lawful_def in_order_def by blast+

lemma stored_version:
  assumes "lawful L s" and "stored s k = Some b"
  obtains i where "(i, Some b) \<in> set (versions s k)"
  using assms lawfulD(1) [OF assms(1), of k] last_in_set [of "versions s k"]
  by (metis prod.collapse stored_def)

lemma stored_lawful:
  "lawful L s \<Longrightarrow> stored s k = Some b \<Longrightarrow> key_of b = k \<and> valid_spec L (spec b)"
  by (metis stored_version lawfulD(4,5))

lemma in_order_put: "in_order s k' \<Longrightarrow> in_order (put k v s) k'"
  by (auto simp: in_order_def sorted_wrt_append less_Suc_eq)

lemma lawful_put:
  assumes "lawful L s" and "\<And>b. v = Some b \<Longrightarrow> key_of b = k \<and> valid_spec L (spec b)"
  shows "lawful L (put k v s)"
  using assms unfolding lawful_def by (auto simp: in_order_put)

lemma in_order_advance:
  assumes "in_order s k'" and "tl (versions s k) \<noteq> []"
  shows "in_order (advance k s) k'"
proof (cases "k' = k")
  case True
  then show ?thesis using assms
    by (cases "versions s k") (auto simp: in_order_def)
qed (use assms in \<open>simp add: in_order_def\<close>)

lemma lawful_advance:
  assumes "lawful L s" and "tl (versions s k) \<noteq> []"
  shows "lawful L (advance k s)"
proof -
  have "set (tl (versions s k)) \<subseteq> set (versions s k)" by (cases "versions s k") auto
  then show ?thesis using assms(1) in_order_advance [OF _ assms(2)]
    unfolding lawful_def by auto
qed

lemma lawful_receive [simp]: "lawful L (receive i s) = lawful L s"
  by (simp add: lawful_def in_order_def)

lemma settled_Some: "settled b = Some a \<Longrightarrow> a = b"
  by (simp add: settled_def split: if_splits)

lemma accepted_valid:
  "snd (ValidateCreate L b) = None \<longleftrightarrow> valid_spec L (spec b)"
  "snd (ValidateUpdate L a b) = None \<longleftrightarrow> valid_spec L (spec b)"
  by (simp_all add: ValidateCreate_def ValidateUpdate_def validateSpec_Nil)

lemma key_of_simps [simp]:
  "key_of (b\<lparr>status := st\<rparr>) = key_of b" "key_of (b\<lparr>deletionTimestamp := t\<rparr>) = key_of b"
  "key_of (b\<lparr>finalizers := fs\<rparr>) = key_of b"
  by (simp_all add: key_of_def)

lemma lawful_client:
  assumes "lawful L s" and "client_step L s s'"
  shows "lawful L s'"
  using assms(2)
  by cases (auto intro!: lawful_put [OF assms(1)] dest!: settled_Some
      dest: stored_lawful [OF assms(1)] simp: accepted_valid)

lemma lawful_answers:
  assumes "lawful L s" and "answers L s c s'"
  shows "lawful L s'"
  using assms(2)
  by cases (auto intro!: lawful_put [OF assms(1)] dest!: settled_Some
      dest: stored_lawful [OF assms(1)] simp: assms(1) accepted_valid takes_update_def)

lemma lawful_serves: "serves others L s cs s' \<Longrightarrow> lawful L s \<Longrightarrow> lawful L s'"
  by (erule serves_invariant [rotated 2]) (auto intro: lawful_advance lawful_client lawful_answers)

text \<open>What the server hands out sits under the key that was asked for.\<close>

lemma answers_key:
  assumes "lawful L s"
  shows "answers L s (GetBudget ns n (Inr b)) s' \<Longrightarrow> key_of b = (ns, n) \<and> valid_spec L (spec b)"
    and "answers L s (UpdateBudget b (Inr b')) s' \<Longrightarrow> key_of b' = key_of b"
    and "answers L s (PatchStatus base b (Inr b')) s' \<Longrightarrow> key_of b' = key_of b"
proof -
  show "key_of b = (ns, n) \<and> valid_spec L (spec b)" if "answers L s (GetBudget ns n (Inr b)) s'"
    using that lawfulD(4,5) [OF assms, of _ b "(ns, n)"]
    by (elim answers_getE) auto
  show "key_of b' = key_of b" if "answers L s (UpdateBudget b (Inr b')) s'"
    using that by (elim answers_updatedE) (auto simp: takes_update_def key_of_def)
  show "key_of b' = key_of b" if "answers L s (PatchStatus base b (Inr b')) s'"
    using that by (elim answers_patchE) (auto dest: stored_lawful [OF assms])
qed

lemma serves_member:
  assumes "serves others L s cs s'"
  shows "lawful L s \<Longrightarrow> c \<in> set cs \<Longrightarrow> \<exists>s1 s2. lawful L s1 \<and> answers L s1 c s2"
  using assms
proof (induction rule: serves.induct)
  case (call s c' s1 cs s')
  show ?case
  proof (cases "c = c'")
    case True
    then show ?thesis using call.prems(1) call.hyps(1) by blast
  next
    case False
    then show ?thesis using call.prems call.IH lawful_answers [OF call.prems(1) call.hyps(1)] by simp
  qed
qed (simp_all add: lawful_advance lawful_client)

lemma serves_key:
  assumes "serves others L s cs s'" and "lawful L s"
  shows "GetBudget ns n (Inr b) \<in> set cs \<Longrightarrow> key_of b = (ns, n) \<and> valid_spec L (spec b)"
    and "UpdateBudget b (Inr b') \<in> set cs \<Longrightarrow> key_of b' = key_of b"
    and "PatchStatus base b (Inr b') \<in> set cs \<Longrightarrow> key_of b' = key_of b"
  using serves_member [OF assms] answers_key(1) apply blast
  using serves_member [OF assms] answers_key(2) apply blast
  using serves_member [OF assms] answers_key(3) by blast

end
