(* ===== verification/ServedRuns.thy ===== *)
theory ServedRuns
  imports ApiServer
begin

text \<open>
  Runs of the operator's code against a server that keeps to the store's rules. The locale
  \<open>conforming_server\<close> is the interface to such a server; inside it every function of the
  reconciler is shown to leave a trace that the server served, so that the facts about served
  traces are facts about the code.
\<close>

subsection \<open>Traces a server served\<close>

text \<open>
  \<open>obeys others L shown m\<close>: in every world the run of \<open>m\<close> appends to the log a list of calls
  that takes the store, as \<open>shown\<close> shows it, from the one before the run to the one after it.
\<close>

definition obeys ::
    "bool \<Rightarrow> ('q, 's) k8s \<Rightarrow> ('w \<Rightarrow> 'q budget_store) \<Rightarrow> ('q, 's, 'w, 'a) io \<Rightarrow> bool" where
  "obeys others L shown m \<longleftrightarrow> (\<forall>w. \<exists>cs. log (snd (run_state m w)) = log w @ cs \<and>
     serves others L (shown (env w)) cs (shown (env (snd (run_state m w)))))"

lemma obeys_return: "obeys others L shown (State_Monad.return x)"
  by (simp add: obeys_def serves.idle)

lemma obeys_bind:
  assumes "obeys others L shown m" and "\<And>x. obeys others L shown (f x)"
  shows "obeys others L shown (State_Monad.bind m f)"
  unfolding obeys_def
proof
  fix w
  obtain x w1 where m: "run_state m w = (x, w1)" by force
  obtain y w2 where f: "run_state (f x) w1 = (y, w2)" by force
  from assms(1) m obtain cs where cs: "log w1 = log w @ cs" "serves others L (shown (env w)) cs (shown (env w1))"
    unfolding obeys_def by (metis snd_conv)
  from assms(2) f obtain ds where "log w2 = log w1 @ ds" "serves others L (shown (env w1)) ds (shown (env w2))"
    unfolding obeys_def by (metis snd_conv)
  with cs m f show "\<exists>cs. log (snd (run_state (State_Monad.bind m f) w)) = log w @ cs \<and>
      serves others L (shown (env w)) cs (shown (env (snd (run_state (State_Monad.bind m f) w))))"
    by (intro exI [of _ "cs @ ds"]) (auto intro: serves_append)
qed

lemma obeys_perform:
  assumes "\<And>e r e'. f e = (r, e') \<Longrightarrow> serves others L (shown e) [entry r] (shown e')"
  shows "obeys others L shown (perform entry f)"
  using assms by (auto simp: obeys_def perform_def split: prod.splits)

lemma obeys_emit: "\<not> budget_call c \<Longrightarrow> obeys others L shown (emit c)"
  unfolding emit_def
  by (rule obeys_perform) (auto intro!: serves.call [OF answers.elsewhere] serves.idle)

lemma obeys_if: "obeys others L shown m \<Longrightarrow> obeys others L shown n \<Longrightarrow> obeys others L shown (if b then m else n)"
  by simp

lemma obeys_sum:
  "(\<And>e. obeys others L shown (f e)) \<Longrightarrow> (\<And>x. obeys others L shown (g x)) \<Longrightarrow>
    obeys others L shown (case r of Inl e \<Rightarrow> f e | Inr x \<Rightarrow> g x)"
  by (cases r) auto

lemma obeys_option:
  "obeys others L shown f \<Longrightarrow> (\<And>x. obeys others L shown (g x)) \<Longrightarrow>
    obeys others L shown (case r of None \<Rightarrow> f | Some x \<Rightarrow> g x)"
  by (cases r) auto

lemmas obeys_rules = obeys_return obeys_bind obeys_if obeys_sum obeys_option obeys_emit

text \<open>A run seen both ways: a trace of its specification, and one the server served.\<close>

lemma obeys_run:
  assumes "obeys others L shown m" and "emits m Q" and "run_state m w = (x, w')"
  obtains cs where "log w' = log w @ cs" and "Q x cs"
    and "serves others L (shown (env w)) cs (shown (env w'))"
proof -
  obtain cs where cs: "log w' = log w @ cs" "serves others L (shown (env w)) cs (shown (env w'))"
    using assms(1,3) unfolding obeys_def by (metis snd_conv)
  obtain ds where "log w' = log w @ ds" "Q x ds" by (rule emits_run [OF assms(2,3)])
  then show thesis using that cs by simp
qed

subsection \<open>The interface\<close>

locale conforming_server =
  fixes others :: bool and L :: "('q, 's) k8s" and A :: "('q, 's, 'w) api"
    and shown :: "'w \<Rightarrow> 'q budget_store"
  assumes get_law: "getBudget A ns n e = (rb, e') \<Longrightarrow> serves others L (shown e) [GetBudget ns n rb] (shown e')"
    and update_law: "updateBudget A b e = (rb, e') \<Longrightarrow> serves others L (shown e) [UpdateBudget b rb] (shown e')"
    and patch_law: "patchStatus A base b e = (rb, e') \<Longrightarrow> serves others L (shown e) [PatchStatus base b rb] (shown e')"
    and list_law: "listPods A ns sel e = (rp, e') \<Longrightarrow> serves others L (shown e) [ListPods ns sel rp] (shown e')"
    and budgets_law: "listBudgets A ns e = (rl, e') \<Longrightarrow> serves others L (shown e) [ListBudgets ns rl] (shown e')"
    and pod_law: "patchPod A p p' e = (rq, e') \<Longrightarrow> serves others L (shown e) [PatchPod p p' rq] (shown e')"
    and evict_law: "evict A ns n grace e = (ro, e') \<Longrightarrow> serves others L (shown e) [EvictPod ns n grace ro] (shown e')"
    and clock_law: "clock A = Some c \<Longrightarrow> c e = (t, e') \<Longrightarrow> serves others L (shown e) [] (shown e')"
    and wall_law: "wallClock A e = (t, e') \<Longrightarrow> serves others L (shown e) [] (shown e')"
begin

lemma obeys_calls:
  "obeys others L shown (do_get A ns n)" "obeys others L shown (do_update A b)"
  "obeys others L shown (do_patch_status A b1 b2)" "obeys others L shown (do_list_pods A ns sel)"
  "obeys others L shown (do_list_budgets A ns)" "obeys others L shown (do_patch_pod A p1 p2)"
  "obeys others L shown (do_evict A ns n grace)"
  unfolding io_defs
  by (rule obeys_perform, erule get_law, rule obeys_perform, erule update_law,
      rule obeys_perform, erule patch_law, rule obeys_perform, erule list_law,
      rule obeys_perform, erule budgets_law, rule obeys_perform, erule pod_law,
      rule obeys_perform, erule evict_law)

lemma obeys_wall: "obeys others L shown (do_wall A)"
  unfolding obeys_def do_wall_def using wall_law by (auto split: prod.splits)

lemma obeys_now: "obeys others L shown (reconciler_now A)"
  unfolding reconciler_now_def
proof (rule obeys_perform)
  fix e t e'
  assume "(case clock A of None \<Rightarrow> wallClock A | Some c \<Rightarrow> c) e = (t, e')"
  then have "serves others L (shown e) [] (shown e')"
    using clock_law wall_law by (auto split: option.splits)
  moreover have "serves others L (shown e') [ReadClock t] (shown e')"
    by (rule serves.call [OF answers.elsewhere serves.idle]) simp
  ultimately show "serves others L (shown e) [ReadClock t] (shown e')"
    using serves_append by fastforce
qed

lemma obeys_enforcer: "obeys others L shown (New act L A b p now)"
proof -
  have "obeys others L shown (evictor_Enforce L A b p now)" "obeys others L shown (pauser_Enforce A b p now)"
    "obeys others L shown (alerter_Enforce b p now)"
    unfolding evictor_Enforce_def pauser_Enforce_def alerter_Enforce_def record_event_def Let_def
    by (intro obeys_rules obeys_calls; simp)+
  then show ?thesis by (simp add: New_def)
qed

lemma obeys_metrics:
  "obeys others L shown (publishMetrics b r)" "obeys others L shown (clearBudgetMetrics ns n)"
  unfolding publishMetrics_def clearBudgetMetrics_def Let_def
  by (intro obeys_rules; simp)+

lemma obeys_status:
  "obeys others L shown (writeStatus L A b r now)"
  "obeys others L shown (markDegradedAndRequeue L A b reason msg)"
  unfolding writeStatus_def markDegradedAndRequeue_def Let_def
  by (intro obeys_rules obeys_calls obeys_wall)+

lemma obeys_maybeEnforce: "obeys others L shown (maybeEnforce L A b pods now)"
  unfolding maybeEnforce_def
  by (intro obeys_rules obeys_calls obeys_enforcer; simp)

lemma obeys_finalize: "obeys others L shown (finalize L A b)"
  unfolding finalize_def by (intro obeys_rules obeys_calls obeys_metrics)

lemma obeys_live: "obeys others L shown (reconcile_live L A b)"
  unfolding reconcile_live_def Let_def
  by (intro obeys_rules obeys_calls obeys_now obeys_status obeys_metrics obeys_maybeEnforce)

lemma obeys_Reconcile: "obeys others L shown (Reconcile L A ns n)"
  unfolding Reconcile_def
  by (intro obeys_rules obeys_calls obeys_finalize obeys_live)

lemma obeys_map: "obeys others L shown (mapPodToBudgets L A obj)"
  unfolding mapPodToBudgets_def by (intro obeys_rules obeys_calls)

lemma pass_served:
  assumes "run_state (Reconcile L A ns n) w = (r, w')"
  obtains cs where "log w' = log w @ cs" and "reconcile_spec L ns n r cs"
    and "serves others L (shown (env w)) cs (shown (env w'))"
  using obeys_run [OF obeys_Reconcile Reconcile_spec assms] by blast

end

end
