(* ===== verification/Operator.thy ===== *)
theory Operator
  imports ServedRuns
begin

text \<open>
  The operator over its life: passes for any budgets, pod events, restarts, and between them
  whatever other clients do, all against one conforming server. The invariant ties the
  operator's memory (its gauge series) to the store: a series exists only for a stored budget
  that carries the operator's finalizer.
\<close>

subsection \<open>The finalizer\<close>

definition finalizer_contract :: "('q, 's) k8s \<Rightarrow> bool" where
  "finalizer_contract L \<longleftrightarrow>
     (\<forall>fs f. (containsFinalizer L fs f \<longleftrightarrow> f \<in> set fs) \<and>
       set (addFinalizer L fs f) = insert f (set fs) \<and> set (removeFinalizer L fs f) = set fs - {f})"

definition holds_guard :: "('q, 's) k8s \<Rightarrow> 'q budget option \<Rightarrow> bool" where
  "holds_guard L v \<longleftrightarrow> (case v of None \<Rightarrow> False | Some b \<Rightarrow> guarded L b)"

definition live_guard :: "('q, 's) k8s \<Rightarrow> 'q budget option \<Rightarrow> bool" where
  "live_guard L v \<longleftrightarrow> (case v of None \<Rightarrow> False | Some b \<Rightarrow> guarded L b \<and> \<not> deleting b)"

lemma guard_simps [simp]:
  "\<not> holds_guard L None" "holds_guard L (Some b) = guarded L b"
  "\<not> live_guard L None" "live_guard L (Some b) = (guarded L b \<and> \<not> deleting b)"
  by (simp_all add: holds_guard_def live_guard_def)

lemma live_holds: "live_guard L v \<Longrightarrow> holds_guard L v"
  by (cases v) auto

lemma guarded_frame [simp]:
  "guarded L (b\<lparr>status := st\<rparr>) = guarded L b" "guarded L (b\<lparr>deletionTimestamp := t\<rparr>) = guarded L b"
  by (simp_all add: guarded_def)

lemma guarded_with_guard: "finalizer_contract L \<Longrightarrow> guarded L (with_guard L b)"
  by (simp add: finalizer_contract_def guarded_def with_guard_def)

lemma holds_settled:
  assumes "finalizer_contract L" and "guarded L b"
  shows "settled b = Some b"
  using assms by (auto simp: finalizer_contract_def guarded_def settled_def)

subsection \<open>Steps that keep the finalizer\<close>

text \<open>Once a version of a budget is live and guarded, every later version is guarded.\<close>

definition faithful :: "('q, 's) k8s \<Rightarrow> 'q budget_store \<Rightarrow> bool" where
  "faithful L s \<longleftrightarrow>
     (\<forall>k. sorted_wrt (\<lambda>x y. live_guard L (snd x) \<longrightarrow> holds_guard L (snd y)) (versions s k))"

lemma sorted_wrt_last: "sorted_wrt R xs \<Longrightarrow> x \<in> set xs \<Longrightarrow> x = last xs \<or> R x (last xs)"
  by (induction xs) auto

lemma faithful_last:
  assumes "faithful L s" and "x \<in> set (versions s k)" and "live_guard L (snd x)"
  shows "holds_guard L (stored s k)"
proof -
  have "x = last (versions s k) \<or> (live_guard L (snd x) \<longrightarrow> holds_guard L (snd (last (versions s k))))"
    by (rule sorted_wrt_last [OF assms(1) [unfolded faithful_def, rule_format] assms(2)])
  then show ?thesis using assms(3) live_holds by (auto simp: stored_def)
qed

lemma faithful_put:
  assumes "faithful L s"
    and "(\<exists>x \<in> set (versions s k). live_guard L (snd x)) \<Longrightarrow> holds_guard L v"
  shows "faithful L (put k v s)"
  using assms unfolding faithful_def by (auto simp: sorted_wrt_append)

lemma sorted_wrt_tl: "sorted_wrt R xs \<Longrightarrow> sorted_wrt R (tl xs)"
  by (cases xs) auto

lemma faithful_advance: "faithful L s \<Longrightarrow> faithful L (advance k s)"
  unfolding faithful_def by (simp del: split_paired_All add: sorted_wrt_tl)

lemma faithful_receive [simp]: "faithful L (receive i s) = faithful L s"
  by (simp add: faithful_def)

text \<open>The steps of the store that take the finalizer from no budget.\<close>

definition mild :: "('q, 's) k8s \<Rightarrow> 'q budget_store \<Rightarrow> 'q budget_store \<Rightarrow> bool" where
  "mild L s s' \<longleftrightarrow> (\<exists>i. s' = receive i s) \<or>
     (\<exists>i k v. (s' = put k v s \<or> s' = receive i (put k v s)) \<and>
        (holds_guard L (stored s k) \<longrightarrow> holds_guard L v))"

lemma mild_same: "mild L s s"
  unfolding mild_def by (rule disjI1, rule exI [of _ "in_hand s"]) (simp add: receive_def)

lemma mild_put:
  "(holds_guard L (stored s k) \<Longrightarrow> holds_guard L v) \<Longrightarrow> mild L s (put k v s)"
  "(holds_guard L (stored s k) \<Longrightarrow> holds_guard L v) \<Longrightarrow> mild L s (receive i (put k v s))"
  unfolding mild_def by blast+

lemma mild_receive: "mild L s (receive i s)"
  unfolding mild_def by blast

lemma mild_faithful:
  assumes "mild L s s'" and "faithful L s"
  shows "faithful L s'"
proof -
  have "faithful L (put k v s)" if "holds_guard L (stored s k) \<longrightarrow> holds_guard L v" for k v
    using that faithful_last [OF assms(2)] by (intro faithful_put [OF assms(2)]) blast
  then show ?thesis using assms unfolding mild_def by auto
qed

lemma mild_guard: "mild L s s' \<Longrightarrow> holds_guard L (stored s k) \<Longrightarrow> holds_guard L (stored s' k)"
  unfolding mild_def by auto

lemma client_mild:
  assumes "finalizer_contract L" and "client_step L s s'"
  shows "mild L s s'"
  using assms(2)
  by cases (auto intro!: mild_put simp: holds_settled [OF assms(1)])

definition keeps_guard :: "('q, 's) k8s \<Rightarrow> ('q, 's) call \<Rightarrow> bool" where
  "keeps_guard L c \<longleftrightarrow> (\<forall>b r. c = UpdateBudget b r \<longrightarrow> guarded L b)"

lemma answers_mild:
  assumes "finalizer_contract L" and "answers L s c s'" and "keeps_guard L c"
  shows "mild L s s'"
  using assms(2)
proof cases
  case (update b b')
  then have "guarded L b'" using assms(3) by (auto simp: keeps_guard_def takes_update_def guarded_def)
  then show ?thesis using update(2) by (auto intro!: mild_put simp: holds_settled [OF assms(1)])
next
  case (update_lost b b' e)
  then have "guarded L b'" using assms(3) by (auto simp: keeps_guard_def takes_update_def guarded_def)
  then show ?thesis using update_lost(2) by (auto intro!: mild_put simp: holds_settled [OF assms(1)])
qed (auto intro: mild_put mild_same mild_receive)

text \<open>What a trace that keeps the finalizer preserves.\<close>

lemma steady_serves:
  assumes "finalizer_contract L" and "serves others L s cs s'" and "\<forall>c \<in> set cs. keeps_guard L c"
    and "lawful L s" and "faithful L s"
  shows "faithful L s'" and "holds_guard L (stored s k) \<Longrightarrow> holds_guard L (stored s' k)"
proof -
  let ?I = "\<lambda>t. faithful L t \<and> (holds_guard L (stored s k) \<longrightarrow> holds_guard L (stored t k))"
  have "?I s'"
  proof (rule serves_invariant [of ?I, OF _ _ assms(2)])
    show "?I (advance j t)" if "?I t" and "tl (versions t j) \<noteq> []" for t j
      using that by (simp add: faithful_advance stored_advance)
    show "?I t'" if "?I t" and "client_step L t t'" for t t'
      using that client_mild [OF assms(1) that(2)] mild_faithful mild_guard by blast
    show "?I s" using assms(5) by simp
    show "?I t'" if "c \<in> set cs" and "?I t" and "answers L t c t'" for t c t'
      using that answers_mild [OF assms(1) that(3) bspec [OF assms(3) that(1)]] mild_faithful mild_guard by blast
  qed
  then show "faithful L s'" and "holds_guard L (stored s k) \<Longrightarrow> holds_guard L (stored s' k)" by simp_all
qed

subsection \<open>The object in hand\<close>

text \<open>
  After a read the operator holds a version of the budget; the cache only moves forward, so
  an update is taken only if that version is the sole one left, the stored one.
\<close>

definition holding :: "'q budget_store \<Rightarrow> 'q budget \<Rightarrow> bool" where
  "holding s b \<longleftrightarrow> in_hand s < revision s \<and>
     (\<forall>x \<in> set (versions s (key_of b)). in_hand s \<le> fst x \<and> (fst x = in_hand s \<longrightarrow> snd x = Some b))"

lemma holding_read:
  assumes "lawful L s" and "answers L s (GetBudget ns n (Inr b)) s'"
  shows "holding s' b" and "\<exists>i. (i, Some b) \<in> set (versions s (ns, n)) \<and> s' = receive i s"
proof -
  from assms(2) obtain i vs where v: "versions s (ns, n) = (i, Some b) # vs" "s' = receive i s"
    by (rule answers_getE) auto
  have k: "key_of b = (ns, n)" using answers_key(1) [OF assms] by simp
  have "sorted_wrt (<) (map fst (versions s (ns, n)))" by (rule lawfulD(2) [OF assms(1)])
  moreover have "i < revision s" using lawfulD(3) [OF assms(1), of "(i, Some b)" "(ns, n)"] v(1) by simp
  ultimately show "holding s' b" unfolding holding_def k v(2) by (auto simp: v(1))
  show "\<exists>i. (i, Some b) \<in> set (versions s (ns, n)) \<and> s' = receive i s" using v by auto
qed

lemma holding_put: "holding s b \<Longrightarrow> holding (put k v s) b"
  unfolding holding_def by auto

lemma advance_subset: "set (versions (advance k s) k') \<subseteq> set (versions s k')"
  by (cases "versions s k") auto

lemma holding_advance: "holding s b \<Longrightarrow> holding (advance k s) b"
  using subsetD [OF advance_subset [of k s "key_of b"]]
  by (simp only: holding_def store_simps(5,6)) blast

lemma holding_serves:
  assumes "serves others L s cs s'" and "holding s b" and "\<And>c. c \<in> set cs \<Longrightarrow> \<not> budget_call c"
  shows "holding s' b"
proof (rule serves_invariant [of "\<lambda>s. holding s b", OF _ _ assms(1,2)])
  show "holding (advance k s) b" if "holding s b" for s k
    by (rule holding_advance [OF that])
  show "holding s' b" if "holding s b" and "client_step L s s'" for s s'
    using that(2) by cases (simp_all add: holding_put that(1))
  show "holding s' b" if "c \<in> set cs" "holding s b" "answers L s c s'" for s c s'
    using that(3) assms(3) [OF that(1)] by cases (simp_all add: that(2))
qed

lemma holding_update:
  assumes "lawful L s" and "holding s b" and "takes_update L s b1 b'" and "key_of b1 = key_of b"
  shows "versions s (key_of b) = [(in_hand s, Some b)]"
    and "b' = b1\<lparr>deletionTimestamp := deletionTimestamp b, status := status b\<rparr>"
proof -
  let ?vs = "versions s (key_of b)"
  obtain a where a: "last ?vs = (in_hand s, Some a)"
      "b' = b1\<lparr>deletionTimestamp := deletionTimestamp a, status := status a\<rparr>"
    using assms(3,4) by (auto simp: takes_update_def)
  have ne: "?vs \<noteq> []" and srt: "sorted_wrt (<) (map fst ?vs)"
    using lawfulD(1,2) [OF assms(1)] by blast+
  have b: "a = b" using assms(2) last_in_set [OF ne] a(1) unfolding holding_def by force
  have "butlast ?vs = []"
  proof (rule ccontr)
    assume "butlast ?vs \<noteq> []"
    then obtain x where x: "x \<in> set (butlast ?vs)" using last_in_set by blast
    then have "fst x < fst (last ?vs)"
      using srt by (subst (asm) append_butlast_last_id [OF ne, symmetric]) (auto simp: sorted_wrt_append)
    moreover have "in_hand s \<le> fst x" using assms(2) in_set_butlastD [OF x] by (simp add: holding_def)
    ultimately show False using a(1) by simp
  qed
  then show "?vs = [(in_hand s, Some b)]" using append_butlast_last_id [OF ne] a(1) b by simp
  show "b' = b1\<lparr>deletionTimestamp := deletionTimestamp b, status := status b\<rparr>" using a(2) b by simp
qed

subsection \<open>What the passes log\<close>

lemma clear_quiet: "c \<in> set (clear_calls ns n) \<Longrightarrow> \<not> budget_call c"
  "c \<in> set (clear_calls ns n) \<Longrightarrow> \<forall>m ls v. c \<noteq> GaugeSet m ls v"
  by (auto simp: clear_calls_def)

lemma enforce_spec_calls:
  assumes "enforce_spec L b pods now e cs" and "c \<in> set cs"
  shows "(\<forall>b r. c \<noteq> UpdateBudget b r) \<and> (\<forall>m ls v. c \<noteq> GaugeSet m ls v)"
  using assms
  by (cases rule: enforce_spec.cases)
    (auto simp: enforcement_spec_def enforce_post_def list_all_iff)

definition publishes :: "string \<times> string \<Rightarrow> ('q, 's) call list \<Rightarrow> ('q, 's) call \<Rightarrow> bool" where
  "publishes k cs c \<longleftrightarrow> (\<forall>m ls v. c = GaugeSet m ls v \<longrightarrow>
     m \<in> {consumedGPUHours, remainingGPUHours, trackedPodsGauge} \<and>
     (\<exists>b b1 b'. PatchStatus b b1 (Inr b') \<in> set cs \<and> key_of b1 = k \<and>
        ls = [budget_namespace b', budget_name b']))"

lemma reported_key [simp]: "key_of (reported_budget L t1 t2 t3 b r now) = key_of b"
  by (simp add: reported_budget_def)

lemma live_spec_calls:
  assumes "live_spec L b r cs" and "c \<in> set cs"
  shows "\<forall>b r. c \<noteq> UpdateBudget b r" and "publishes (key_of b) cs c"
proof -
  have deg: "(\<forall>b r. c \<noteq> UpdateBudget b r) \<and> (\<forall>m ls v. c \<noteq> GaugeSet m ls v)"
    if "degraded_spec L b reason msg r ds" "c \<in> set ds" for reason msg r ds c
    using that by (auto elim!: degraded_specE)
  show "\<forall>b r. c \<noteq> UpdateBudget b r"
    using assms
    by (cases rule: live_spec.cases)
      (auto simp: publish_calls_def dest: deg enforce_spec_calls)
  show "publishes (key_of b) cs c"
    using assms
  proof (cases rule: live_spec.cases)
    case (in_budget sel now pods t1 t2 t3 b')
    then show ?thesis using assms(2) reported_key unfolding publishes_def publish_calls_def by fastforce
  next
    case (over_budget sel now pods b' e ds t1 t2 t3)
    have "\<forall>m ls v. c \<noteq> GaugeSet m ls v" if "c \<in> set ds"
      using enforce_spec_calls [OF over_budget(5) that] by simp
    then show ?thesis using over_budget(2) assms(2) reported_key
      unfolding publishes_def publish_calls_def by fastforce
  qed (use deg in \<open>fastforce simp: publishes_def\<close>)+
qed

lemma live_spec_updates: "live_spec L b r cs \<Longrightarrow> UpdateBudget b1 r1 \<notin> set cs"
  using live_spec_calls(1) by blast

lemma gauge_source:
  "foldl gauge_step g cs (m, ls) \<noteq> None \<Longrightarrow> g (m, ls) \<noteq> None \<or> (\<exists>v. GaugeSet m ls v \<in> set cs)"
proof (induction cs arbitrary: g)
  case (Cons c cs)
  then show ?case by (cases c) (fastforce split: if_splits)+
qed simp

subsection \<open>No pass leaves a series behind\<close>

definition tidy :: "('q, 's) k8s \<Rightarrow> (string \<times> string list \<Rightarrow> float64 option) \<Rightarrow> 'q budget_store \<Rightarrow> bool" where
  "tidy L g s \<longleftrightarrow> (\<forall>m ls. g (m, ls) \<noteq> None \<longrightarrow>
     m \<in> {consumedGPUHours, remainingGPUHours, trackedPodsGauge} \<and>
     (\<exists>ns n. ls = [ns, n] \<and> holds_guard L (stored s (ns, n))))"

lemma tidy_steady:
  assumes "finalizer_contract L" and "serves others L s cs s'" and "lawful L s" and "faithful L s"
    and "tidy L g s" and "\<forall>c \<in> set cs. keeps_guard L c \<and> (\<forall>m ls v. c \<noteq> GaugeSet m ls v)"
  shows "faithful L s'" and "tidy L (foldl gauge_step g cs) s'"
proof -
  have kg: "\<forall>c \<in> set cs. keeps_guard L c" using assms(6) by blast
  note st = steady_serves [OF assms(1,2) kg assms(3,4)]
  show "faithful L s'" by (rule st(1))
  show "tidy L (foldl gauge_step g cs) s'"
    unfolding tidy_def
  proof (intro allI impI)
    fix m ls assume "foldl gauge_step g cs (m, ls) \<noteq> None"
    then have "g (m, ls) \<noteq> None" using gauge_source assms(6) by blast
    then show "m \<in> {consumedGPUHours, remainingGPUHours, trackedPodsGauge} \<and>
        (\<exists>ns n. ls = [ns, n] \<and> holds_guard L (stored s' (ns, n)))"
      using assms(5) st(2) unfolding tidy_def by blast
  qed
qed

lemma tidy_live:
  assumes "finalizer_contract L" and "serves others L s cs s'" and "lawful L s" and "faithful L s"
    and "tidy L g s" and "live_spec L b r cs" and "holds_guard L (stored s (key_of b))"
  shows "faithful L s'" and "tidy L (foldl gauge_step g cs) s'"
proof -
  have kg: "\<forall>c \<in> set cs. keeps_guard L c" using live_spec_calls(1) [OF assms(6)] by (auto simp: keeps_guard_def)
  note st = steady_serves [OF assms(1,2) kg assms(3,4)]
  show "faithful L s'" by (rule st(1))
  show "tidy L (foldl gauge_step g cs) s'"
    unfolding tidy_def
  proof (intro allI impI)
    fix m ls assume "foldl gauge_step g cs (m, ls) \<noteq> None"
    then consider "g (m, ls) \<noteq> None" | v where "GaugeSet m ls v \<in> set cs" using gauge_source by blast
    then show "m \<in> {consumedGPUHours, remainingGPUHours, trackedPodsGauge} \<and>
        (\<exists>ns n. ls = [ns, n] \<and> holds_guard L (stored s' (ns, n)))"
    proof cases
      case 1
      then show ?thesis using assms(5) st(2) unfolding tidy_def by blast
    next
      case 2
      then obtain c b1 b' where p: "m \<in> {consumedGPUHours, remainingGPUHours, trackedPodsGauge}"
          "PatchStatus c b1 (Inr b') \<in> set cs" "key_of b1 = key_of b"
          "ls = [budget_namespace b', budget_name b']"
        using live_spec_calls(2) [OF assms(6) 2] by (auto simp: publishes_def)
      have "key_of b' = key_of b" using serves_key(3) [OF assms(2,3) p(2)] p(3) by simp
      then show ?thesis using st(2) [OF assms(7)] p(1,4) by (simp add: key_of_def)
    qed
  qed
qed

lemma serves_nil_steady:
  assumes "finalizer_contract L" and "serves others L s [] s'" and "lawful L s" and "faithful L s"
  shows "lawful L s'" "faithful L s'" "holds_guard L (stored s k) \<Longrightarrow> holds_guard L (stored s' k)"
    "tidy L g s \<Longrightarrow> tidy L g s'"
  using lawful_serves [OF assms(2,3)] steady_serves [OF assms(1,2) _ assms(3,4)]
    tidy_steady(2) [OF assms(1,2,3,4), of g] by simp_all

text \<open>A read: the budget in hand is a version of the store, and nothing has changed.\<close>

lemma read_holding:
  assumes "serves others L s (GetBudget ns n (Inr b) # cs) s'" and "lawful L s"
  obtains i s0 where "serves others L s [] s0" and "lawful L s0" and "(i, Some b) \<in> set (versions s0 (ns, n))"
    and "serves others L (receive i s0) cs s'" and "holding (receive i s0) b" and "key_of b = (ns, n)"
proof -
  obtain s0 s1 where s: "serves others L s [] s0" "answers L s0 (GetBudget ns n (Inr b)) s1"
      "serves others L s1 cs s'" using assms(1) by (rule serves_Cons)
  have l: "lawful L s0" by (rule lawful_serves [OF s(1) assms(2)])
  obtain i where "(i, Some b) \<in> set (versions s0 (ns, n))" "s1 = receive i s0"
    using holding_read(2) [OF l s(2)] by blast
  then show thesis
    using that s l holding_read(1) [OF l s(2)] answers_key(1) [OF l s(2)] by blast
qed

lemma serves_read:
  assumes "finalizer_contract L" and "serves others L s (GetBudget ns n (Inr b) # cs) s'"
    and "lawful L s" and "faithful L s" and "tidy L g s"
  obtains s1 where "serves others L s1 cs s'" and "lawful L s1" and "faithful L s1" and "tidy L g s1"
    and "holding s1 b" and "key_of b = (ns, n)"
    and "live_guard L (Some b) \<Longrightarrow> holds_guard L (stored s1 (ns, n))"
proof -
  obtain i s0 where s: "serves others L s [] s0" "lawful L s0" "(i, Some b) \<in> set (versions s0 (ns, n))"
      "serves others L (receive i s0) cs s'" "holding (receive i s0) b" "key_of b = (ns, n)"
    by (rule read_holding [OF assms(2,3)])
  note s0 = serves_nil_steady [OF assms(1) s(1) assms(3,4)]
  show thesis
    by (rule that [OF s(4)])
      (use s s0(1,2) s0(4) [OF assms(5)] faithful_last [OF s0(2) s(3)] in \<open>simp_all add: tidy_def\<close>)
qed

text \<open>
  The release: the finalizer goes only if the version read, which is marked for deletion, is
  the sole one left, and the series have gone before it.
\<close>

lemma release_answered:
  assumes "lawful L s" and "faithful L s" and "holding s b" and "deleting b"
    and "answers L s (UpdateBudget (released L b) r) s'"
  shows "faithful L s'" and "k \<noteq> key_of b \<Longrightarrow> stored s' k = stored s k"
proof -
  have rk: "key_of (released L b) = key_of b" by (simp add: released_def)
  have eq: "s' = s \<or> (\<exists>v i. versions s (key_of b) = [(in_hand s, Some b)] \<and>
      (s' = put (key_of b) v s \<or> s' = receive i (put (key_of b) v s)))"
    using assms(5) holding_update(1) [OF assms(1,3) _ rk]
    by (elim answers_updateE) (auto simp: rk)
  show "faithful L s'"
    using eq
  proof (elim disjE exE conjE)
    fix v i assume v: "versions s (key_of b) = [(in_hand s, Some b)]"
    have "faithful L (put (key_of b) v s)"
      by (rule faithful_put [OF assms(2)]) (simp add: v assms(4))
    then show "s' = put (key_of b) v s \<Longrightarrow> faithful L s'"
      "s' = receive i (put (key_of b) v s) \<Longrightarrow> faithful L s'"
      by simp_all
  qed (simp add: assms(2))
  show "k \<noteq> key_of b \<Longrightarrow> stored s' k = stored s k" using eq by auto
qed

lemma clear_gone:
  assumes "tidy L (foldl gauge_step g (clear_calls ns n :: ('q, 's) call list)) s"
  shows "foldl gauge_step g (clear_calls ns n :: ('q, 's) call list) (m, [ns, n]) = None"
proof (cases "m \<in> {consumedGPUHours, remainingGPUHours, trackedPodsGauge}")
  case True
  then show ?thesis by (auto simp: foldl_gauge_clear)
next
  case False
  then show ?thesis using assms unfolding tidy_def by blast
qed

lemma tidy_release:
  fixes L :: "('q, 's) k8s"
  assumes "finalizer_contract L" and "serves others L s1 (clear_calls ns n @ [UpdateBudget (released L b) r]) s'"
    and "lawful L s1" and "faithful L s1" and "tidy L g s1" and "holding s1 b" and "key_of b = (ns, n)"
    and "deleting b"
  shows "faithful L s' \<and> tidy L (foldl gauge_step g (clear_calls ns n :: ('q, 's) call list)) s'"
proof -
  let ?g = "foldl gauge_step g (clear_calls ns n :: ('q, 's) call list)"
  obtain s2 where s2: "serves others L s1 (clear_calls ns n) s2"
      "serves others L s2 [UpdateBudget (released L b) r] s'" using assms(2) by (rule serves_split)
  obtain s3 s4 where s4: "serves others L s2 [] s3" "answers L s3 (UpdateBudget (released L b) r) s4"
      "serves others L s4 [] s'" using s2(2) by (rule serves_Cons)
  have quiet: "\<forall>c \<in> set (clear_calls ns n :: ('q, 's) call list). keeps_guard L c \<and> (\<forall>m ls v. c \<noteq> GaugeSet m ls v)"
    by (auto simp: keeps_guard_def clear_calls_def)
  note t2 = tidy_steady [OF assms(1) s2(1) assms(3-5) quiet]
  note s3 = serves_nil_steady [OF assms(1) s4(1) lawful_serves [OF s2(1) assms(3)] t2(1)]
  have h3: "holding s3 b"
    by (rule holding_serves [OF s4(1) holding_serves [OF s2(1) assms(6)]]) (auto simp: clear_calls_def)
  note s4' = release_answered [OF s3(1,2) h3 assms(8) s4(2), unfolded assms(7)]
  have t4: "tidy L ?g s4"
    unfolding tidy_def
  proof (intro allI impI)
    fix m ls assume g: "?g (m, ls) \<noteq> None"
    then obtain ns' n' where l: "m \<in> {consumedGPUHours, remainingGPUHours, trackedPodsGauge}"
        "ls = [ns', n']" "holds_guard L (stored s3 (ns', n'))"
      using s3(4) [OF t2(2)] unfolding tidy_def by blast
    have "(ns', n') \<noteq> (ns, n)" using g l(2) clear_gone [OF t2(2)] by auto
    then show "m \<in> {consumedGPUHours, remainingGPUHours, trackedPodsGauge} \<and>
        (\<exists>ns n. ls = [ns, n] \<and> holds_guard L (stored s4 (ns, n)))"
      using l s4'(2) by auto
  qed
  note s5 = serves_nil_steady [OF assms(1) s4(3) lawful_answers [OF s3(1) s4(2)] s4'(1)]
  show ?thesis using s5(2) s5(4) [OF t4] by blast
qed

lemma pass_keeps:
  fixes L :: "('q, 's) k8s"
  assumes fc: "finalizer_contract L" and spec: "reconcile_spec L ns n r cs" and run: "serves others L s cs s'"
    and inv: "lawful L s" "faithful L s" "tidy L g s"
  shows "faithful L s' \<and> tidy L (foldl gauge_step g cs) s'"
  using spec
proof (cases rule: reconcile_spec.cases)
  case (release b r')
  obtain s1 where s1: "serves others L s1 (clear_calls (budget_namespace b) (budget_name b) @ [UpdateBudget (released L b) r']) s'"
      "lawful L s1" "faithful L s1" "tidy L g s1" "holding s1 b" "key_of b = (ns, n)"
    using serves_read [OF fc run [unfolded release(2)] inv] by blast
  have b: "budget_namespace b = ns" "budget_name b = n" using s1(6) by (simp_all add: key_of_def)
  show ?thesis
    using tidy_release [OF fc s1(1) [unfolded b] s1(2-6) release(3)]
    by (simp add: release(2) b)
next
  case (guard b b' ds)
  obtain s1 where s1: "serves others L s1 (UpdateBudget (with_guard L b) (Inr b') # ds) s'"
      "lawful L s1" "faithful L s1" "tidy L g s1" "key_of b = (ns, n)"
    using serves_read [OF fc run [unfolded guard(1)] inv] by blast
  obtain s2 s3 where s3: "serves others L s1 [] s2" "answers L s2 (UpdateBudget (with_guard L b) (Inr b')) s3"
      "serves others L s3 ds s'" using s1(1) by (rule serves_Cons)
  note s2 = serves_nil_steady [OF fc s3(1) s1(2,3)]
  have "guarded L (with_guard L b)" by (rule guarded_with_guard [OF fc])
  then have g: "guarded L b'" and m: "mild L s2 s3" and k: "keeps_guard L (UpdateBudget (with_guard L b) (Inr b') :: ('q, 's) call)"
    using s3(2) answers_mild [OF fc s3(2)]
    by (auto simp: keeps_guard_def takes_update_def guarded_def elim!: answers_updatedE)
  have st: "holds_guard L (stored s3 (key_of b'))"
    using s3(2) answers_key(2) [OF s2(1) s3(2)] g holds_settled [OF fc g]
    by (auto elim!: answers_updatedE)
  have "tidy L g s3" using s2(4) [OF s1(4)] mild_guard [OF m] unfolding tidy_def by blast
  from tidy_live [OF fc s3(3) lawful_answers [OF s2(1) s3(2)] mild_faithful [OF m s2(2)] this guard(4) st]
  show ?thesis by (simp add: guard(1))
next
  case (live b ds)
  obtain s1 where s1: "serves others L s1 ds s'" "lawful L s1" "faithful L s1" "tidy L g s1"
      "key_of b = (ns, n)" "live_guard L (Some b) \<Longrightarrow> holds_guard L (stored s1 (ns, n))"
    using serves_read [OF fc run [unfolded live(1)] inv] by blast
  have "holds_guard L (stored s1 (key_of b))" using s1(5,6) live(2,3) by simp
  from tidy_live [OF fc s1(1-4) live(4) this] show ?thesis by (simp add: live(1))
qed (use tidy_steady [OF fc run inv] guarded_with_guard [OF fc] in \<open>simp add: keeps_guard_def\<close>)+

subsection \<open>The operator's life\<close>

text \<open>
  Worlds the operator can be in. It starts with empty registers on whatever store it finds,
  which its cache has listed, runs passes for any budget and handles pod events one at a time, loses its registers in a
  restart, and other clients act in between.
\<close>

definition caught_up :: "'q budget_store \<Rightarrow> bool" where
  "caught_up s \<longleftrightarrow> (\<forall>k. length (versions s k) = 1)"

lemma length_1_sorted_wrt: "length xs = 1 \<Longrightarrow> sorted_wrt R xs"
  by (cases xs) auto

lemma caught_up_faithful: "caught_up s \<Longrightarrow> faithful L s"
  unfolding caught_up_def faithful_def by (metis length_1_sorted_wrt)

inductive operating ::
    "bool \<Rightarrow> ('q, 's) k8s \<Rightarrow> ('q, 's, 'w) api \<Rightarrow> ('w \<Rightarrow> 'q budget_store) \<Rightarrow> ('q, 's, 'w) world \<Rightarrow> bool"
  for others L A shown where
  start: "lawful L (shown e) \<Longrightarrow> caught_up (shown e) \<Longrightarrow> operating others L A shown \<lparr>env = e, log = []\<rparr>"
| pass: "operating others L A shown w \<Longrightarrow> run_state (Reconcile L A ns n) w = (r, w') \<Longrightarrow>
    operating others L A shown w'"
| event: "operating others L A shown w \<Longrightarrow> run_state (mapPodToBudgets L A obj) w = (x, w') \<Longrightarrow>
    operating others L A shown w'"
| clients: "operating others L A shown w \<Longrightarrow> serves others L (shown (env w)) [] (shown e) \<Longrightarrow>
    operating others L A shown (w\<lparr>env := e\<rparr>)"
| restart: "operating others L A shown w \<Longrightarrow> operating others L A shown (w\<lparr>log := []\<rparr>)"

definition in_step :: "('q, 's) k8s \<Rightarrow> ('w \<Rightarrow> 'q budget_store) \<Rightarrow> ('q, 's, 'w) world \<Rightarrow> bool" where
  "in_step L shown w \<longleftrightarrow> lawful L (shown (env w)) \<and> faithful L (shown (env w)) \<and>
     tidy L (gauges (log w)) (shown (env w))"

lemma gauges_append: "gauges (cs @ ds) = foldl gauge_step (gauges cs) ds"
  by (simp add: gauges_def)

lemma map_calls: "emits (mapPodToBudgets L A obj)
    (\<lambda>x cs. \<forall>c \<in> set cs. keeps_guard L c \<and> (\<forall>m ls v. c \<noteq> GaugeSet m ls v))"
  unfolding mapPodToBudgets_def do_list_budgets_def
  by (intro emits_rules) (simp_all add: keeps_guard_def)

context conforming_server begin

lemma pass_in_step:
  assumes "finalizer_contract L" and "in_step L shown w" and "run_state (Reconcile L A ns n) w = (r, w')"
  shows "in_step L shown w'"
proof -
  obtain cs where cs: "log w' = log w @ cs" "reconcile_spec L ns n r cs"
      "serves others L (shown (env w)) cs (shown (env w'))"
    by (rule pass_served [OF assms(3)])
  show ?thesis
    using assms(2) pass_keeps [OF assms(1) cs(2,3), of "gauges (log w)"] lawful_serves [OF cs(3)]
    by (simp add: in_step_def cs(1) gauges_append)
qed

lemma event_in_step:
  assumes "finalizer_contract L" and "in_step L shown w" and "run_state (mapPodToBudgets L A obj) w = (x, w')"
  shows "in_step L shown w'"
proof -
  obtain cs where cs: "log w' = log w @ cs"
      "\<forall>c \<in> set cs. keeps_guard L c \<and> (\<forall>m ls v. c \<noteq> GaugeSet m ls v)"
      "serves others L (shown (env w)) cs (shown (env w'))"
    by (rule obeys_run [OF obeys_map map_calls assms(3)])
  show ?thesis
    using assms(2) tidy_steady [OF assms(1) cs(3) _ _ _ cs(2), of "gauges (log w)"] lawful_serves [OF cs(3)]
    by (simp add: in_step_def cs(1) gauges_append)
qed

lemma operating_in_step:
  assumes "finalizer_contract L" and "operating others L A shown w"
  shows "in_step L shown w"
  using assms(2)
proof (induction rule: operating.induct)
  case (start e)
  then show ?case by (simp add: in_step_def gauges_def tidy_def caught_up_faithful)
next
  case (pass w ns n r w')
  show ?case by (rule pass_in_step [OF assms(1) pass.IH pass.hyps(2)])
next
  case (event w obj x w')
  show ?case by (rule event_in_step [OF assms(1) event.IH event.hyps(2)])
next
  case (clients w e)
  then show ?case
    using serves_nil_steady [OF assms(1) clients.hyps(2)] by (simp add: in_step_def)
next
  case (restart w)
  then show ?case by (simp add: in_step_def gauges_def tidy_def)
qed

end

end
