(* ===== verification/OperatorLaws.thy ===== *)
theory OperatorLaws
  imports Operator
begin

text \<open>
  What one pass does to the store when no other client interferes: budgets that are not being
  deleted stay as they are, a deletion completes, and the operator's own updates are never
  refused by the operator's own webhook. Reads may still be stale and calls may still fail.
\<close>

subsection \<open>What an undisturbed pass does to the store\<close>

text \<open>A budget is still there, as it was but for its status and further finalizers.\<close>

definition intact :: "string \<times> string \<Rightarrow> 'q budget \<Rightarrow> 'q budget_store \<Rightarrow> bool" where
  "intact k b s \<longleftrightarrow> (\<exists>b'. stored s k = Some b' \<and> deletionTimestamp b' = deletionTimestamp b \<and>
     spec b' = spec b \<and> set (finalizers b) \<subseteq> set (finalizers b'))"

lemma intact_serves:
  assumes "serves False L s cs s'" and "intact k b s" and "\<And>b r. UpdateBudget b r \<notin> set cs"
  shows "intact k b s'"
proof (rule serves_invariant [of "intact k b", OF _ _ assms(1,2)])
  show "intact k b s'" if "c \<in> set cs" "intact k b s" "answers L s c s'" for s c s'
    using that(3,2) that(1) assms(3) by cases (auto simp: intact_def)
qed (simp_all add: intact_def stored_advance)

lemma intact_update:
  assumes "lawful L s" and "holding s b0" and "intact k b s" and "\<not> deleting b"
    and "answers L s (UpdateBudget b1 r) s'" and "key_of b1 = key_of b0" and "spec b1 = spec b0"
    and "deleting b0 \<or> set (finalizers b0) \<subseteq> set (finalizers b1)"
  shows "intact k b s'"
proof (cases "k = key_of b0 \<and> (\<exists>b'. takes_update L s b1 b')")
  case False
  then show ?thesis
    using assms(3,5,6) by (elim answers_updateE) (auto simp: intact_def)
next
  case True
  then have v: "stored s k = Some b0"
    using holding_update(1) [OF assms(1,2) _ assms(6)] by (auto simp: stored_def)
  then have live: "\<not> deleting b0" using assms(3,4) by (auto simp: intact_def deleting_def)
  have "intact k b (put (key_of b1) (settled b') s)" if "takes_update L s b1 b'" for b'
  proof -
    have b': "b' = b1\<lparr>deletionTimestamp := deletionTimestamp b0, status := status b0\<rparr>"
      by (rule holding_update(2) [OF assms(1,2) that assms(6)])
    then have "settled b' = Some b'" using live by (simp add: settled_def deleting_def)
    then show ?thesis using assms(3,6,7,8) v live True by (auto simp: intact_def b')
  qed
  then show ?thesis using assms(3,5) by (elim answers_updateE) (auto simp: intact_def)
qed

lemma intact_through_update:
  assumes run: "serves False L s (cs @ UpdateBudget b1 r # ds) s'" and law: "lawful L s"
    and hold: "holding s b0" and int: "intact k b s" and live: "\<not> deleting b"
    and quiet: "\<And>c. c \<in> set cs \<Longrightarrow> \<not> budget_call c" and rest: "\<And>b r. UpdateBudget b r \<notin> set ds"
    and b1: "key_of b1 = key_of b0" "spec b1 = spec b0" "deleting b0 \<or> set (finalizers b0) \<subseteq> set (finalizers b1)"
  shows "intact k b s'"
proof -
  obtain s2 where s2: "serves False L s cs s2" "serves False L s2 (UpdateBudget b1 r # ds) s'"
    using run by (rule serves_split)
  obtain s3 s4 where s4: "serves False L s2 [] s3" "answers L s3 (UpdateBudget b1 r) s4"
      "serves False L s4 ds s'" using s2(2) by (rule serves_Cons)
  have h3: "holding s3 b0"
    by (rule holding_serves [OF s4(1) holding_serves [OF s2(1) hold quiet]]) auto
  have "intact k b s3"
    by (rule intact_serves [OF s4(1) intact_serves [OF s2(1) int]]) (use quiet in force)+
  then have "intact k b s4"
    by (rule intact_update [OF lawful_serves [OF s4(1) lawful_serves [OF s2(1) law]] h3 _ live s4(2) b1])
  then show ?thesis by (rule intact_serves [OF s4(3) _ rest])
qed

lemma intact_pass:
  assumes fc: "finalizer_contract L" and spec: "reconcile_spec L ns n r cs" and run: "serves False L s cs s'"
    and law: "lawful L s" and int: "intact k b s" and live: "\<not> deleting b"
  shows "intact k b s'"
proof -
  have after_read: ?thesis
    if "cs = GetBudget ns n (Inr b0) # ds @ UpdateBudget b1 r1 # es" "\<And>c. c \<in> set ds \<Longrightarrow> \<not> budget_call c"
      "\<And>b r. UpdateBudget b r \<notin> set es" "key_of b1 = key_of b0" "spec b1 = spec b0"
      "deleting b0 \<or> set (finalizers b0) \<subseteq> set (finalizers b1)"
    for b0 ds b1 r1 es
  proof -
    have run': "serves False L s (GetBudget ns n (Inr b0) # ds @ UpdateBudget b1 r1 # es) s'"
      using run that(1) by simp
    obtain i s0 where s: "serves False L s [] s0" "lawful L s0" "holding (receive i s0) b0"
        "serves False L (receive i s0) (ds @ UpdateBudget b1 r1 # es) s'"
      using read_holding [OF run' law] by blast
    have "intact k b (receive i s0)" using intact_serves [OF s(1) int] by (simp add: intact_def)
    then show ?thesis using intact_through_update [OF s(4) _ s(3) _ live that(2-6)] s(2) by simp
  qed
  have wg: "key_of (with_guard L b) = key_of b" "spec (with_guard L b) = spec b"
    "set (finalizers b) \<subseteq> set (finalizers (with_guard L b))" for b :: "'a budget"
    using fc by (auto simp: with_guard_def finalizer_contract_def)
  show ?thesis
    using spec
  proof (cases rule: reconcile_spec.cases)
    case (release b0 r')
    show ?thesis
      by (rule after_read [of b0 "clear_calls (budget_namespace b0) (budget_name b0)" "released L b0" r' "[]"])
        (use release in \<open>auto simp: clear_calls_def released_def\<close>)
  next
    case (guard_failed b0 e)
    show ?thesis
      by (rule after_read [of b0 "[]" "with_guard L b0" "Inl e" "[]"]) (use guard_failed wg in auto)
  next
    case (guard b0 b' ds)
    show ?thesis
      by (rule after_read [of b0 "[]" "with_guard L b0" "Inr b'" ds])
        (use guard(1) wg live_spec_updates [OF guard(4)] in auto)
  next
    case (live b0 ds)
    show ?thesis
      by (rule intact_serves [OF run int]) (simp add: live(1) live_spec_updates [OF live(4)])
  qed (use intact_serves [OF run int] in simp)+
qed

text \<open>
  A budget marked for deletion, seen as it is: the pass ends in an error of a failed call, or
  with the series gone and the finalizer taken from the stored object, which goes if that was
  the last one.
\<close>

lemma sole_version:
  assumes "serves False L s cs s'" and "versions s k = [x]" and "\<And>c. c \<in> set cs \<Longrightarrow> \<not> budget_call c"
  shows "versions s' k = [x]"
proof (rule serves_invariant [of "\<lambda>s. versions s k = [x]", OF _ _ assms(1,2)])
  show "versions s' k = [x]" if "c \<in> set cs" "versions s k = [x]" "answers L s c s'" for s c s'
    using that(3) assms(3) [OF that(1)] by cases (simp_all add: that(2))
qed auto

lemma stored_serves_nil:
  assumes "serves False L s [] s'"
  shows "stored s' k = stored s k"
  by (rule serves_invariant [of "\<lambda>t. stored t k = stored s k", OF _ _ assms]) (simp_all add: stored_advance)

definition failed_call :: "string \<times> string \<Rightarrow> ('q, 's) call \<Rightarrow> bool" where
  "failed_call k c \<longleftrightarrow> (\<exists>e. c = GetBudget (fst k) (snd k) (Inl e)) \<or> (\<exists>b e. key_of b = k \<and> c = UpdateBudget b (Inl e))"

lemma deletion_read:
  assumes "serves False L s (GetBudget ns n x # cs) s'" and "versions s (ns, n) = [(i, Some b)]"
  shows "(\<exists>e. x = Inl e \<and> \<not> isNotFound L e) \<or> x = Inr b"
proof -
  obtain s0 s1 where s: "serves False L s [] s0" "answers L s0 (GetBudget ns n x) s1"
    using assms(1) by (rule serves_Cons)
  have "versions s0 (ns, n) = [(i, Some b)]" by (rule sole_version [OF s(1) assms(2)]) simp
  then show ?thesis using s(2) by (elim answersE) auto
qed

lemma deletion_pass:
  assumes spec: "reconcile_spec L ns n r cs" and run: "serves False L s cs s'" and law: "lawful L s"
    and only: "versions s (ns, n) = [(i, Some b)]" and del: "deleting b" and gd: "guarded L b"
  shows "((\<exists>e. r = Inl e) \<and> list_ex (failed_call (ns, n)) cs) \<or>
    (r = Inr 0 \<and> stored s' (ns, n) = settled (released L b) \<and>
     cs = GetBudget ns n (Inr b) # clear_calls ns n @ [UpdateBudget (released L b) (Inr (released L b))])"
proof -
  have kb: "key_of b = (ns, n)" using lawfulD(4) [OF law, of i b "(ns, n)"] only by simp
  then have b: "budget_namespace b = ns" "budget_name b = n" by (simp_all add: key_of_def)
  have got: "(\<exists>e. x = Inl e \<and> \<not> isNotFound L e) \<or> x = Inr b" if "cs = GetBudget ns n x # ds" for x ds
    using deletion_read [OF run [unfolded that] only] .
  from spec show ?thesis
  proof (cases rule: reconcile_spec.cases)
    case (release b0 r')
    then have b0: "b0 = b" using got by auto
    show ?thesis
    proof (cases r')
      case (Inl e)
      then show ?thesis using release b0 kb by (auto simp: failed_call_def released_def)
    next
      case (Inr b')
      have run': "serves False L s ((GetBudget ns n (Inr b) # clear_calls ns n) @ [UpdateBudget (released L b) (Inr b')]) s'"
        using run release(2) b0 b Inr by simp
      obtain s2 where s2: "serves False L s (GetBudget ns n (Inr b) # clear_calls ns n) s2"
          "serves False L s2 [UpdateBudget (released L b) (Inr b')] s'" using run' by (rule serves_split)
      obtain j s0 where s0: "lawful L s0" "serves False L (receive j s0) (clear_calls ns n) s2" "holding (receive j s0) b"
        using read_holding [OF s2(1) law] by blast
      obtain s3 s4 where s4: "serves False L s2 [] s3" "answers L s3 (UpdateBudget (released L b) (Inr b')) s4"
          "serves False L s4 [] s'" using s2(2) by (rule serves_Cons)
      have h3: "holding s3 b"
        by (rule holding_serves [OF s4(1) holding_serves [OF s0(2,3)]]) (auto simp: clear_calls_def)
      have up: "takes_update L s3 (released L b) b'" "stored s4 (ns, n) = settled b'"
        using s4(2) kb by (auto elim!: answers_updatedE simp: released_def)
      have "b' = released L b"
        using holding_update(2) [OF lawful_serves [OF s4(1) lawful_serves [OF s2(1) law]] h3 up(1)]
        by (simp add: released_def)
      then show ?thesis
        using release b0 b Inr up(2) stored_serves_nil [OF s4(3)] by simp
    qed
  qed (use got del gd in \<open>auto simp: failed_call_def\<close>)
qed

lemma own_update_valid:
  assumes "reconcile_spec L ns n r cs" and "serves others L s cs s'" and "lawful L s"
    and "UpdateBudget b x \<in> set cs"
  shows "valid_spec L (spec b)"
proof -
  have "\<exists>b0. GetBudget ns n (Inr b0) \<in> set cs \<and> spec b = spec b0"
    using assms(1,4)
    by (cases rule: reconcile_spec.cases)
      (auto simp: clear_calls_def released_def with_guard_def dest: live_spec_updates)
  then show ?thesis using serves_key(1) [OF assms(2,3)] by auto
qed

text \<open>
  A budget marked for deletion whose specification the webhook would not accept (stored before
  the webhook was there, or under an older one): the update that would take the finalizer is
  refused every time, so nothing changes but the status of the error.
\<close>

definition no_other_update :: "('q, 's) k8s \<Rightarrow> ('q, 's) call \<Rightarrow> bool" where
  "no_other_update L c \<longleftrightarrow> (\<forall>b r. c = UpdateBudget b r \<longrightarrow> \<not> valid_spec L (spec b))"

lemma refused_serves:
  assumes "serves False L s cs s'" and "versions s k = [x]"
    and "\<And>c. c \<in> set cs \<Longrightarrow> no_other_update L c \<and> (\<forall>base b r. c \<noteq> PatchStatus base b r)"
  shows "versions s' k = [x]" and "UpdateBudget b (Inr b') \<notin> set cs"
proof -
  have not: "\<not> takes_update L s b b'" if "UpdateBudget b r \<in> set cs" for s b b' r
    using assms(3) [OF that] by (simp add: no_other_update_def takes_update_def accepted_valid)
  show "versions s' k = [x]"
  proof (rule serves_invariant [of "\<lambda>s. versions s k = [x]", OF _ _ assms(1,2)])
    show "versions s' k = [x]" if "c \<in> set cs" "versions s k = [x]" "answers L s c s'" for s c s'
      using that(3,1) assms(3) [OF that(1)] not by cases (simp_all add: that(2))
  qed auto
  show "UpdateBudget b (Inr b') \<notin> set cs"
  proof
    assume m: "UpdateBudget b (Inr b') \<in> set cs"
    have "\<exists>s1 s2. answers L s1 (UpdateBudget b (Inr b')) s2"
      using assms(1) m by (induction rule: serves.induct) auto
    then show False using not [OF m] by (auto elim!: answers_updatedE)
  qed
qed

lemma stuck_pass:
  assumes spec: "reconcile_spec L ns n r cs" and run: "serves False L s cs s'"
    and only: "versions s (ns, n) = [(i, Some b)]" and del: "deleting b" and gd: "guarded L b"
    and bad: "\<not> valid_spec L (spec b)"
  shows "(\<exists>e. r = Inl e) \<and> versions s' (ns, n) = [(i, Some b)]"
proof -
  have got: "(\<exists>e. x = Inl e \<and> \<not> isNotFound L e) \<or> x = Inr b" if "cs = GetBudget ns n x # ds" for x ds
    using deletion_read [OF run [unfolded that] only] .
  from spec show ?thesis
  proof (cases rule: reconcile_spec.cases)
    case (release b0 r')
    then have "b0 = b" using got by auto
    then have calls: "no_other_update L c \<and> (\<forall>base b r. c \<noteq> PatchStatus base b r)" if "c \<in> set cs" for c
      using that bad by (auto simp: release(2) no_other_update_def clear_calls_def released_def)
    have "UpdateBudget (released L b0) r' \<in> set cs" by (simp add: release(2))
    then show ?thesis
      using refused_serves [OF run only calls] release(1) by (cases r') auto
  next
    case (fetch_failed e)
    then show ?thesis
      using refused_serves(1) [OF run only] by (auto simp: no_other_update_def)
  qed (use got del gd in auto)
qed

text \<open>
  A live budget without the finalizer, seen as it is: the pass ends in the error of a failed call,
  or leaves the stored budget guarded, with its specification and a status written for it.
\<close>

lemma live_spec_status:
  assumes "live_spec L b (Inr d) cs"
  shows "\<exists>base nb b'. PatchStatus base nb (Inr b') \<in> set cs \<and> key_of nb = key_of b"
    and "d = defaultRequeueInterval \<or> d = overBudgetRequeueInterval"
  using assms
  by (cases; force elim!: degraded_specE simp: reported_budget_def degraded_budget_def key_of_def split: option.splits)+

lemma onboarding_pass:
  assumes fc: "finalizer_contract L" and spec: "reconcile_spec L ns n r cs" and run: "serves False L s cs s'"
    and law: "lawful L s" and only: "versions s (ns, n) = [(i, Some b)]" and live: "\<not> deleting b"
    and bare: "\<not> guarded L b"
  shows "(\<exists>e. r = Inl e) \<or>
    (\<exists>b'. stored s' (ns, n) = Some b' \<and> guarded L b' \<and> spec b' = spec b \<and> \<not> deleting b') \<and>
    (\<exists>base nb b'. PatchStatus base nb (Inr b') \<in> set cs \<and> key_of nb = (ns, n)) \<and>
    (r = Inr defaultRequeueInterval \<or> r = Inr overBudgetRequeueInterval)"
proof -
  have kb: "key_of b = (ns, n)" using lawfulD(4) [OF law, of i b "(ns, n)"] only by simp
  have got: "(\<exists>e. x = Inl e \<and> \<not> isNotFound L e) \<or> x = Inr b" if "cs = GetBudget ns n x # ds" for x ds
    using deletion_read [OF run [unfolded that] only] .
  have wg: "key_of (with_guard L b) = key_of b" "spec (with_guard L b) = spec b" "guarded L (with_guard L b)"
    "deletionTimestamp (with_guard L b) = deletionTimestamp b"
    using guarded_with_guard [OF fc, of b] by (simp_all add: with_guard_def)
  from spec show ?thesis
  proof (cases rule: reconcile_spec.cases)
    case (guard b0 b' ds)
    then have b0: "b0 = b" using got by auto
    have run': "serves False L s ([GetBudget ns n (Inr b)] @ UpdateBudget (with_guard L b) (Inr b') # ds) s'"
      using run guard(1) b0 by simp
    obtain s2 where s2: "serves False L s [GetBudget ns n (Inr b)] s2"
        "serves False L s2 (UpdateBudget (with_guard L b) (Inr b') # ds) s'" using run' by (rule serves_split)
    obtain j s0 where s0: "lawful L s0" "serves False L (receive j s0) [] s2" "holding (receive j s0) b"
      using read_holding [OF s2(1) law] by blast
    obtain s3 s4 where s4: "serves False L s2 [] s3" "answers L s3 (UpdateBudget (with_guard L b) (Inr b')) s4"
        "serves False L s4 ds s'" using s2(2) by (rule serves_Cons)
    have law3: "lawful L s3" by (rule lawful_serves [OF s4(1) lawful_serves [OF s2(1) law]])
    have h3: "holding s3 b"
      by (rule holding_serves [OF s4(1) holding_serves [OF s0(2,3)]]) auto
    have up: "takes_update L s3 (with_guard L b) b'" "stored s4 (ns, n) = settled b'"
      using s4(2) kb wg(1) by (auto elim!: answers_updatedE)
    have b': "b' = with_guard L b\<lparr>status := status b\<rparr>"
      using holding_update(2) [OF law3 h3 up(1)] wg by (simp add: with_guard_def)
    then have "intact (ns, n) b' s4"
      using up(2) live wg(4) by (simp add: intact_def settled_def deleting_def)
    then have int: "intact (ns, n) b' s'"
      by (rule intact_serves [OF s4(3)]) (use live_spec_updates [OF guard(4)] in simp)
    have "finalizerName \<in> set (finalizers b')"
      using wg(3) fc by (simp add: b' guarded_def finalizer_contract_def)
    then have "\<exists>c. stored s' (ns, n) = Some c \<and> guarded L c \<and> spec c = spec b \<and> \<not> deleting c"
      using int fc live wg(2,4) by (auto simp: intact_def b' guarded_def finalizer_contract_def deleting_def)
    moreover have "key_of b' = (ns, n)" using wg(1) kb by (simp add: b')
    ultimately show ?thesis
      using live_spec_status [of L b' _ ds] guard(1,4) by (cases r) fastforce+
  qed (use got live bare in auto)
qed

end
