(* ===== verification/ScriptedServer.thy ===== *)
theory ScriptedServer
  imports OperatorLaws Reference
begin

text \<open>
  An executable API server with other clients and failures at its script's will: before each
  call it plays the turns the script holds for it, then it serves the call, refuses it, or
  serves it and loses the answer. It interprets the interface \<open>conforming_server\<close>, and the
  worlds of the witnesses are runs against it.
\<close>

subsection \<open>The script\<close>

datatype 'q turn =
    Create "'q budget"
  | Edit "'q budget"
  | WriteStatus "string \<times> string" "'q budget_status"
  | Delete "string \<times> string" gotime
  | Deliver "string \<times> string"

datatype fate = Served | Refused | Lost

record 'q scripted =
  sv_store :: "'q budget_store"
  sv_keys :: "(string \<times> string) list"
  sv_pods :: "'q pod list"
  sv_now :: gotime
  sv_script :: "('q turn list \<times> fate) list"

text \<open>A turn that the rules do not allow changes nothing.\<close>

fun play :: "('q, 's) k8s \<Rightarrow> bool \<Rightarrow> 'q turn \<Rightarrow> 'q budget_store \<Rightarrow> 'q budget_store" where
  "play L others (Create b) s =
     (if others \<and> stored s (key_of b) = None \<and> deletionTimestamp b = None \<and> snd (ValidateCreate L b) = None
      then put (key_of b) (Some b) s else s)"
| "play L others (Edit b) s =
     (case stored s (key_of b) of
        None \<Rightarrow> s
      | Some a \<Rightarrow>
          if others \<and> deletionTimestamp b = deletionTimestamp a \<and> (guarded L a \<longrightarrow> guarded L b) \<and>
            (deleting a \<longrightarrow> set (finalizers b) \<subseteq> set (finalizers a)) \<and> snd (ValidateUpdate L a b) = None
          then put (key_of b) (settled b) s else s)"
| "play L others (WriteStatus k st) s =
     (case stored s k of
        None \<Rightarrow> s
      | Some a \<Rightarrow> if others then put k (Some (a\<lparr>status := st\<rparr>)) s else s)"
| "play L others (Delete k t) s =
     (case stored s k of
        None \<Rightarrow> s
      | Some a \<Rightarrow>
          if others \<and> \<not> deleting a \<and> snd (ValidateDelete a) = None \<and> t \<noteq> 0
          then put k (settled (a\<lparr>deletionTimestamp := Some t\<rparr>)) s else s)"
| "play L others (Deliver k) s = (if tl (versions s k) \<noteq> [] then advance k s else s)"

lemma client_turn: "others \<Longrightarrow> client_step L s s' \<Longrightarrow> serves others L s [] s'"
  by (rule serves.client [OF _ _ serves.idle])

lemma play_serves: "serves others L s [] (play L others t s)"
proof (cases t)
  case (Create b)
  then show ?thesis by (simp add: serves.idle client_turn client_step.create)
next
  case (Edit b)
  then show ?thesis
    by (cases "stored s (key_of b)") (simp_all add: serves.idle client_turn client_step.edit)
next
  case (WriteStatus k st)
  then show ?thesis
    by (cases "stored s k") (simp_all add: serves.idle client_turn client_step.write_status)
next
  case (Delete k t)
  then show ?thesis
    by (cases "stored s k") (simp_all add: serves.idle client_turn client_step.delete)
next
  case (Deliver k)
  then show ?thesis by (simp add: serves.idle serves.deliver [OF _ serves.idle])
qed

definition play_all :: "('q, 's) k8s \<Rightarrow> bool \<Rightarrow> 'q turn list \<Rightarrow> 'q budget_store \<Rightarrow> 'q budget_store" where
  "play_all L others ts s = foldl (\<lambda>s t. play L others t s) s ts"

lemma play_all_serves: "serves others L s [] (play_all L others ts s)"
proof (induction ts arbitrary: s)
  case (Cons t ts)
  then show ?case using serves_append [OF play_serves Cons.IH] by (simp add: play_all_def)
qed (simp add: play_all_def serves.idle)

definition next_turn :: "('q, 's) k8s \<Rightarrow> bool \<Rightarrow> 'q scripted \<Rightarrow> fate \<times> 'q scripted" where
  "next_turn L others c =
     (case sv_script c of
        [] \<Rightarrow> (Served, c)
      | (ts, f) # rest \<Rightarrow> (f, c\<lparr>sv_store := play_all L others ts (sv_store c), sv_script := rest\<rparr>))"

lemma next_turn_serves:
  "next_turn L others c = (f, c') \<Longrightarrow> serves others L (sv_store c) [] (sv_store c')"
  using play_all_serves by (auto simp: next_turn_def intro: serves.idle split: list.splits)

subsection \<open>The calls\<close>

definition timeout :: goerr where "timeout = Ext ''Timeout'' ''no answer''"
definition not_found :: goerr where "not_found = Ext ''NotFound'' ''budget not found''"
definition conflict :: goerr where "conflict = Ext ''Conflict'' ''object has been modified''"

definition updated ::
    "('q, 's) k8s \<Rightarrow> 'q budget_store \<Rightarrow> 'q budget \<Rightarrow> 'q budget option" where
  "updated L s b =
     (case last (versions s (key_of b)) of
        (i, None) \<Rightarrow> None
      | (i, Some a) \<Rightarrow>
          if i = in_hand s \<and> (deleting a \<longrightarrow> set (finalizers b) \<subseteq> set (finalizers a)) \<and>
            snd (ValidateUpdate L a b) = None
          then Some (b\<lparr>deletionTimestamp := deletionTimestamp a, status := status a\<rparr>) else None)"

lemma updated_taken: "updated L s b = Some b' \<Longrightarrow> takes_update L s b b'"
  by (auto simp: updated_def takes_update_def split: option.splits if_splits prod.splits)

text \<open>A change that is served, lost or refused.\<close>

definition settle_call ::
    "fate \<Rightarrow> string \<times> string \<Rightarrow> 'q budget \<Rightarrow> 'q budget option \<Rightarrow> 'q scripted
      \<Rightarrow> (goerr + 'q budget) \<times> 'q scripted" where
  "settle_call f k b' v c =
     (case f of
        Served \<Rightarrow> (Inr b', c\<lparr>sv_store := receive (revision (sv_store c)) (put k v (sv_store c))\<rparr>)
      | Lost \<Rightarrow> (Inl timeout, c\<lparr>sv_store := put k v (sv_store c)\<rparr>)
      | Refused \<Rightarrow> (Inl timeout, c))"

definition scripted_api :: "bool \<Rightarrow> ('q, 's) k8s \<Rightarrow> ('q, 's, 'q scripted) api" where
  "scripted_api others L =
     \<lparr>getBudget = (\<lambda>ns n c0. case next_turn L others c0 of (f, c) \<Rightarrow>
        if f \<noteq> Served then (Inl timeout, c)
        else case versions (sv_store c) (ns, n) of
            (i, Some b) # vs \<Rightarrow> (Inr b, c\<lparr>sv_store := receive i (sv_store c)\<rparr>)
          | (i, None) # vs \<Rightarrow> (Inl not_found, c)
          | [] \<Rightarrow> (Inl timeout, c)),
      updateBudget = (\<lambda>b c0. case next_turn L others c0 of (f, c) \<Rightarrow>
        (case updated L (sv_store c) b of
           None \<Rightarrow> (Inl conflict, c)
         | Some b' \<Rightarrow> settle_call f (key_of b) b' (settled b') c)),
      patchStatus = (\<lambda>base b c0. case next_turn L others c0 of (f, c) \<Rightarrow>
        (case stored (sv_store c) (key_of b) of
           None \<Rightarrow> (Inl not_found, c)
         | Some a \<Rightarrow>
             let b' = a\<lparr>status := status (kept b)\<rparr>
             in settle_call f (key_of b) b' (Some b') c)),
      listPods = (\<lambda>ns sel c0. case next_turn L others c0 of (f, c) \<Rightarrow>
        (if f \<noteq> Served then Inl timeout
         else Inr (List.filter (\<lambda>p. pod_namespace p = ns \<and> selectorMatches L sel (pod_labels p)) (sv_pods c)), c)),
      listBudgets = (\<lambda>ns c0. case next_turn L others c0 of (f, c) \<Rightarrow>
        (if f \<noteq> Served then Inl timeout
         else Inr (List.map_filter (\<lambda>k. if fst k = ns then stored (sv_store c) k else None) (sv_keys c)), c)),
      patchPod = (\<lambda>base p c0. case next_turn L others c0 of (f, c) \<Rightarrow>
        if f \<noteq> Served then (Inl timeout, c)
        else (Inr p, c\<lparr>sv_pods := map (\<lambda>q. if podKey q = podKey p then p else q) (sv_pods c)\<rparr>)),
      evict = (\<lambda>ns n grace c0. case next_turn L others c0 of (f, c) \<Rightarrow>
        if f \<noteq> Served then (Some timeout, c)
        else (None, c\<lparr>sv_pods := List.filter (\<lambda>q. \<not> (pod_namespace q = ns \<and> pod_name q = n)) (sv_pods c)\<rparr>)),
      clock = Some (\<lambda>c. (sv_now c, c)),
      wallClock = (\<lambda>c. (sv_now c, c))\<rparr>"

text \<open>An answer at the end of the script's turns.\<close>

lemma serves_then:
  assumes "serves others L s [] s1" and "answers L s1 c s'"
  shows "serves others L s [c] s'"
  using serves_append [OF assms(1) serves.call [OF assms(2) serves.idle]] by simp

lemma serves_elsewhere:
  assumes "serves others L s [] s'" and "\<not> budget_call c"
  shows "serves others L s [c] s'"
  by (rule serves_then [OF assms(1) answers.elsewhere [OF assms(2)]])

lemma ref_errors [simp]:
  "\<not> isNotFound ref_lib timeout" "isNotFound ref_lib not_found" "\<not> isNotFound ref_lib conflict"
  by (simp_all add: ref_lib_def timeout_def not_found_def conflict_def)

lemma answers_head:
  "versions s (ns, n) = (i, Some b) # vs \<Longrightarrow> answers L s (GetBudget ns n (Inr b)) (receive i s)"
  "versions s (ns, n) = (i, None) # vs \<Longrightarrow> isNotFound L e \<Longrightarrow> answers L s (GetBudget ns n (Inl e)) s"
  by (auto intro: answers.read answers.read_absent)

lemma scripted_get:
  assumes "getBudget (scripted_api others ref_lib) ns n c0 = (rb, c')"
  shows "serves others ref_lib (sv_store c0) [GetBudget ns n rb] (sv_store c')"
proof -
  obtain f c where nt: "next_turn ref_lib others c0 = (f, c)" by force
  have "answers ref_lib (sv_store c) (GetBudget ns n rb) (sv_store c')"
  proof (cases "f = Served \<and> versions (sv_store c) (ns, n) \<noteq> []")
    case True
    then obtain i v vs where v: "versions (sv_store c) (ns, n) = (i, v) # vs"
      by (metis list.exhaust prod.exhaust)
    show ?thesis
    proof (cases v)
      case None
      then have "rb = Inl not_found" "c' = c" using assms nt True v by (auto simp: scripted_api_def)
      then show ?thesis using answers_head(2) [OF v [unfolded None], of ref_lib not_found] by simp
    next
      case (Some b)
      then have "rb = Inr b" "c' = c\<lparr>sv_store := receive i (sv_store c)\<rparr>"
        using assms nt True v by (auto simp: scripted_api_def)
      then show ?thesis using answers_head(1) [OF v [unfolded Some], of ref_lib] by simp
    qed
  next
    case False
    then show ?thesis
      using assms nt by (auto simp: scripted_api_def answers.read_failed split: if_splits)
  qed
  then show ?thesis by (rule serves_then [OF next_turn_serves [OF nt]])
qed

lemma scripted_update:
  assumes "updateBudget (scripted_api others L) b c0 = (rb, c')"
  shows "serves others L (sv_store c0) [UpdateBudget b rb] (sv_store c')"
proof -
  obtain f c where nt: "next_turn L others c0 = (f, c)" by force
  have "answers L (sv_store c) (UpdateBudget b rb) (sv_store c')"
    using assms nt
    by (auto simp: scripted_api_def settle_call_def split: option.splits fate.splits dest!: updated_taken
        intro: answers.update answers.update_lost answers.update_failed)
  then show ?thesis by (rule serves_then [OF next_turn_serves [OF nt]])
qed

lemma scripted_patch:
  assumes "patchStatus (scripted_api others L) base b c0 = (rb, c')"
  shows "serves others L (sv_store c0) [PatchStatus base b rb] (sv_store c')"
proof -
  obtain f c where nt: "next_turn L others c0 = (f, c)" by force
  have "answers L (sv_store c) (PatchStatus base b rb) (sv_store c')"
    using assms nt
    by (auto simp: scripted_api_def settle_call_def Let_def split: option.splits fate.splits
        intro: answers.patch answers.patch_lost answers.patch_failed)
  then show ?thesis by (rule serves_then [OF next_turn_serves [OF nt]])
qed

interpretation scripted: conforming_server others ref_lib "scripted_api others ref_lib" sv_store for others
proof (unfold_locales, goal_cases)
  case (1 ns n e rb e') then show ?case by (rule scripted_get)
next
  case (2 b e rb e') then show ?case by (rule scripted_update)
next
  case (3 base b e rb e') then show ?case by (rule scripted_patch)
next
  case (4 ns sel e rp e')
  then have "serves others ref_lib (sv_store e) [] (sv_store e')"
    using next_turn_serves by (fastforce simp: scripted_api_def split: prod.splits)
  then show ?case by (rule serves_elsewhere) simp
next
  case (5 ns e rl e')
  then have "serves others ref_lib (sv_store e) [] (sv_store e')"
    using next_turn_serves by (fastforce simp: scripted_api_def split: prod.splits)
  then show ?case by (rule serves_elsewhere) simp
next
  case (6 p p' e rq e')
  then have "serves others ref_lib (sv_store e) [] (sv_store e')"
    using next_turn_serves by (fastforce simp: scripted_api_def split: prod.splits if_splits)
  then show ?case by (rule serves_elsewhere) simp
next
  case (7 ns n grace e ro e')
  then have "serves others ref_lib (sv_store e) [] (sv_store e')"
    using next_turn_serves by (fastforce simp: scripted_api_def split: prod.splits if_splits)
  then show ?case by (rule serves_elsewhere) simp
qed (auto simp: scripted_api_def intro: serves.idle)

subsection \<open>Sample sites\<close>

definition sample_key :: "string \<times> string" where "sample_key = (''ml'', ''gpu'')"

definition sample_site ::
    "(nat \<times> rat budget option) list \<Rightarrow> (rat turn list \<times> fate) list \<Rightarrow> rat scripted" where
  "sample_site vs script =
     \<lparr>sv_store = \<lparr>versions = (\<lambda>k. if k = sample_key then vs else [(0, None)]), revision = 3, in_hand = 0\<rparr>,
      sv_keys = [sample_key], sv_pods = [], sv_now = 7200000000000, sv_script = script\<rparr>"

definition live_budget :: "rat budget" where
  "live_budget = sample_budget\<lparr>finalizers := [finalizerName]\<rparr>"

definition dying_budget :: "rat budget" where
  "dying_budget = live_budget\<lparr>deletionTimestamp := Some 3600000000000\<rparr>"

definition sample_run ::
    "bool \<Rightarrow> (nat \<times> rat budget option) list \<Rightarrow> (rat turn list \<times> fate) list
      \<Rightarrow> (goerr + duration) \<times> (rat, label_selector, rat scripted) world" where
  "sample_run others vs script =
     run_state (Reconcile ref_lib (scripted_api others ref_lib) ''ml'' ''gpu'')
       \<lparr>env = sample_site vs script, log = []\<rparr>"

text \<open>Between the listing and the status write of a pass, a client asks for the deletion.\<close>

definition interruption :: "(rat turn list \<times> fate) list" where
  "interruption = [([], Served), ([], Served), ([Delete sample_key 7200000000000], Served)]"

lemma live_budget_fields [simp]:
  "key_of live_budget = sample_key" "deletionTimestamp live_budget = None"
  "containsFinalizer ref_lib (finalizers live_budget) finalizerName"
  "budget_namespace live_budget = ''ml''" "budget_name live_budget = ''gpu''"
  "labelSelectorAsSelector ref_lib (selector (spec live_budget)) = Inr sample_selector"
  "valid_spec ref_lib (spec live_budget)" "guarded ref_lib live_budget"
  by (simp_all add: live_budget_def key_of_def sample_key_def samples ref_lib_def ref_compile_def
      valid_spec_def isEmptyLabelSelector_def guarded_def)

lemma live_not_over: "\<not> over (account_budget ref_lib live_budget now [])"
  by (simp add: account_budget_def account_pods_def map_filter_simps live_budget_def samples
      round64_numeral sum_usage_def)

lemma live_consumed: "consumed (account_budget ref_lib live_budget now []) = Fin 0"
  by (simp add: account_budget_def account_pods_def map_filter_simps live_budget_def samples
      round64_numeral sum_usage_def)

lemma sample_key_fold: "(''ml'', ''gpu'') = sample_key" by (simp add: sample_key_def)

lemma live_settled:
  "settled (live_budget\<lparr>deletionTimestamp := Some t\<rparr>) =
    Some (live_budget\<lparr>deletionTimestamp := Some t\<rparr>)"
  by (simp add: settled_def live_budget_def)

lemma interrupted_run:
  obtains w' b where "sample_run True [(0, Some live_budget)] interruption = (Inr defaultRequeueInterval, w')"
    and "stored (sv_store (env w')) sample_key = Some b" and "deletionTimestamp b = Some 7200000000000"
    and "gauges (log w') (consumedGPUHours, [''ml'', ''gpu'']) = Some (Fin 0)"
proof -
  have nd: "\<not> deleting live_budget" by (simp add: deleting_def)
  let ?run = "sample_run True [(0, Some live_budget)] interruption"
  have "fst ?run = Inr defaultRequeueInterval \<and>
      (\<exists>b. stored (sv_store (env (snd ?run))) sample_key = Some b \<and>
        deletionTimestamp b = Some 7200000000000) \<and>
      gauges (log (snd ?run)) (consumedGPUHours, [''ml'', ''gpu'']) = Some (Fin 0)"
    unfolding sample_run_def interruption_def
    by (simp add: Reconcile_def do_get_def perform_def scripted_api_def next_turn_def
        sample_site_def play_all_def sample_key_fold reconcile_live_def reconciler_now_def do_list_pods_def
        Let_def writeStatus_def do_wall_def do_patch_status_def live_not_over live_consumed stored_def
        settle_call_def publishMetrics_def emit_def gauges_def nd ValidateDelete_def live_settled metric_neq)
  then show thesis using that by (metis prod.collapse)
qed

lemma site_lawful:
  assumes "sorted_wrt (<) (map fst vs)" "vs \<noteq> []" "\<forall>x \<in> set vs. fst x < 3"
   "\<forall>i b. (i, Some b) \<in> set vs \<longrightarrow> key_of b = sample_key \<and> valid_spec ref_lib (spec b)"
  shows "lawful ref_lib (sv_store (sample_site vs script))"
  using assms by (auto simp: lawful_def in_order_def sample_site_def)

lemma ref_finalizers: "finalizer_contract ref_lib"
  by (auto simp: finalizer_contract_def ref_lib_def)

lemma sample_operating:
  assumes "lawful ref_lib (sv_store (sample_site vs script))" and "length vs = 1"
    and "sample_run others vs script = (r, w')"
  shows "operating others ref_lib (scripted_api others ref_lib) sv_store w'"
proof (rule operating.pass [OF operating.start])
  show "lawful ref_lib (sv_store (sample_site vs script))" by (rule assms(1))
  show "caught_up (sv_store (sample_site vs script))"
    using assms(2) by (simp add: caught_up_def sample_site_def)
  show "run_state (Reconcile ref_lib (scripted_api others ref_lib) ''ml'' ''gpu'')
      \<lparr>env = sample_site vs script, log = []\<rparr> = (r, w')"
    using assms(3) by (simp add: sample_run_def)
qed

lemma dying_fields [simp]:
  "key_of dying_budget = sample_key" "spec dying_budget = spec live_budget"
  "deleting dying_budget" "guarded ref_lib dying_budget" "\<not> deleting live_budget"
  by (simp_all add: dying_budget_def deleting_def)

lemma dying_run:
  obtains w' where "sample_run False [(0, Some dying_budget)] [] = (Inr 0, w')"
    and "UpdateBudget (released ref_lib dying_budget) (Inr (released ref_lib dying_budget)) \<in> set (log w')"
proof -
  let ?run = "sample_run False [(0, Some dying_budget)] []"
  have up: "updated ref_lib
      \<lparr>versions = (\<lambda>k. if k = sample_key then [(0, Some dying_budget)] else [(0, None)]), revision = 3, in_hand = 0\<rparr>
      (dying_budget\<lparr>finalizers := removeFinalizer ref_lib (finalizers dying_budget) finalizerName\<rparr>) =
      Some (released ref_lib dying_budget)"
    by (simp add: updated_def accepted_valid released_def) (auto simp: ref_lib_def)
  have del: "deletionTimestamp dying_budget = Some 3600000000000"
    "containsFinalizer ref_lib (finalizers dying_budget) finalizerName"
    by (simp_all add: dying_budget_def)
  have "fst ?run = Inr 0 \<and>
      UpdateBudget (released ref_lib dying_budget) (Inr (released ref_lib dying_budget)) \<in> set (log (snd ?run))"
    unfolding sample_run_def
    by (simp add: Reconcile_def do_get_def perform_def scripted_api_def next_turn_def sample_site_def sample_key_fold
        finalize_def do_update_def clearBudgetMetrics_def emit_def settle_call_def del up receive_def go_defs)
      (simp add: released_def)
  then show thesis using that by (metis prod.collapse)
qed

text \<open>A budget that the webhook would not accept, in the middle of its deletion.\<close>

definition invalid_budget :: "rat budget" where
  "invalid_budget = dying_budget\<lparr>spec := sample_spec\<lparr>quota := \<lparr>gpuHours = 0, windowHours = 24\<rparr>\<rparr>\<rparr>"

lemma invalid_fields [simp]:
  "deleting invalid_budget" "guarded ref_lib invalid_budget" "\<not> valid_spec ref_lib (spec invalid_budget)"
  by (simp_all add: invalid_budget_def deleting_def dying_budget_def valid_spec_def ref_lib_def guarded_def
      live_budget_def)

text \<open>A budget that the operator has not seen before.\<close>

lemma sample_budget_fields [simp]:
  "key_of sample_budget = sample_key" "\<not> deleting sample_budget" "\<not> guarded ref_lib sample_budget"
  "valid_spec ref_lib (spec sample_budget)" "with_guard ref_lib sample_budget = live_budget"
  using live_budget_fields(7)
  by (simp_all add: live_budget_def key_of_def sample_key_def deleting_def guarded_def with_guard_def ref_lib_def)
    (simp_all add: samples)

lemma fresh_run:
  obtains w' where "sample_run False [(0, Some sample_budget)] [] = (Inr defaultRequeueInterval, w')"
proof -
  have up: "updated ref_lib
      \<lparr>versions = (\<lambda>k. if k = sample_key then [(0, Some sample_budget)] else [(0, None)]), revision = 3, in_hand = 0\<rparr>
      live_budget = Some live_budget"
    by (simp add: updated_def accepted_valid) (simp add: live_budget_def samples)
  have del: "deletionTimestamp sample_budget = None"
    "\<not> containsFinalizer ref_lib (finalizers sample_budget) finalizerName"
    by (simp_all add: samples ref_lib_def)
  have "fst (sample_run False [(0, Some sample_budget)] []) = Inr defaultRequeueInterval"
    unfolding sample_run_def
    by (simp add: Reconcile_def do_get_def perform_def scripted_api_def next_turn_def sample_site_def sample_key_fold
        del with_guard_def [symmetric] do_update_def settle_call_def up receive_def settled_def put_def
        reconcile_live_def reconciler_now_def do_list_pods_def Let_def writeStatus_def do_wall_def
        do_patch_status_def live_not_over stored_def publishMetrics_def emit_def)
  then show thesis using that by (metis prod.collapse)
qed

end
