(* ===== verification/PassLaws.thy ===== *)
theory PassLaws
  imports ReconcileLaws
begin

text \<open>
  Two more groups of laws on the rules of the specification: how much work a pass can do,
  whatever the cluster holds, and what the webhook's checks buy the reconciler.
\<close>

subsection \<open>The work of a pass\<close>

fun is_list :: "('q, 's) call \<Rightarrow> bool" where
  "is_list (ListPods ns s r) = True"
| "is_list (ListBudgets ns r) = True"
| "is_list c = False"

fun is_update :: "('q, 's) call \<Rightarrow> bool" where
  "is_update (UpdateBudget b r) = True"
| "is_update c = False"

fun is_status_write :: "('q, 's) call \<Rightarrow> bool" where
  "is_status_write (PatchStatus base b r) = True"
| "is_status_write c = False"

definition count :: "(('q, 's) call \<Rightarrow> bool) \<Rightarrow> ('q, 's) call list \<Rightarrow> nat" where
  "count P cs = length (List.filter P cs)"

lemma count_simps [simp]:
  "count P [] = 0" "count P (c # cs) = (if P c then Suc (count P cs) else count P cs)"
  "count P (cs @ ds) = count P cs + count P ds"
  by (simp_all add: count_def)

definition work_bounded :: "('q, 's) call list \<Rightarrow> bool" where
  "work_bounded cs \<longleftrightarrow> length cs \<le> 12 \<and> count is_list cs \<le> 1 \<and> count is_update cs \<le> 1 \<and>
     count is_status_write cs \<le> 2 \<and> count mutates_pod cs \<le> 1"

lemma enforcement_work:
  assumes "enforcement_spec L act b p now r cs"
  shows "length cs \<le> 2" and "count is_list cs = 0" and "count is_update cs = 0"
    and "count is_status_write cs = 0" and "count mutates_pod cs \<le> 1"
  using assms
  by (auto simp: enforcement_spec_def eviction_request_def warning_def
      elim!: eviction_specE pause_specE alert_specE split: if_splits)

lemma enforce_spec_work:
  assumes "enforce_spec L b pods now e cs"
  shows "length cs \<le> 4" and "count is_list cs = 0" and "count is_update cs = 0"
    and "count is_status_write cs \<le> 1" and "count mutates_pod cs \<le> 1"
  using assms by (auto elim!: enforce_specE dest: enforcement_work)

lemma publish_work [simp]:
  "length (publish_calls b r) = 3" "count is_list (publish_calls b r) = 0"
  "count is_update (publish_calls b r) = 0" "count is_status_write (publish_calls b r) = 0"
  "count mutates_pod (publish_calls b r) = 0"
  by (simp_all add: publish_calls_def)

lemma clear_work [simp]:
  "length (clear_calls ns n) = 4" "count is_list (clear_calls ns n) = 0"
  "count is_update (clear_calls ns n) = 0" "count is_status_write (clear_calls ns n) = 0"
  "count mutates_pod (clear_calls ns n) = 0"
  by (simp_all add: clear_calls_def)

lemma live_spec_work:
  assumes "live_spec L b r cs"
  shows "length cs \<le> 10" and "count is_list cs \<le> 1" and "count is_update cs = 0"
    and "count is_status_write cs \<le> 2" and "count mutates_pod cs \<le> 1"
  using assms by (auto elim!: live_specE degraded_specE dest: enforce_spec_work)

lemma reconcile_spec_work: "reconcile_spec L ns n r cs \<Longrightarrow> work_bounded cs"
  unfolding work_bounded_def
  by (auto elim!: reconcile_specE dest: live_spec_work)

lemma one_pod_per_pass: "emits (Reconcile L A ns n) (\<lambda>r cs. mutations cs \<le> 1)"
  by (rule emits_conseq [OF Reconcile_spec]) (rule reconcile_spec_once)

subsection \<open>Admitted budgets\<close>

text \<open>The budgets the server returned to the pass, all of which went through the webhook.\<close>

definition all_admitted :: "('q, 's) k8s \<Rightarrow> ('q, 's) call list \<Rightarrow> bool" where
  "all_admitted L cs \<longleftrightarrow>
     (\<forall>ns n b. GetBudget ns n (Inr b) \<in> set cs \<longrightarrow> snd (ValidateCreate L b) = None) \<and>
     (\<forall>x b. UpdateBudget x (Inr b) \<in> set cs \<longrightarrow> snd (ValidateCreate L b) = None) \<and>
     (\<forall>x y b. PatchStatus x y (Inr b) \<in> set cs \<longrightarrow> snd (ValidateCreate L b) = None)"

text \<open>
  For admitted budgets a pass that reads the clock goes on to list pods by the selector of a
  budget it was given, and an action that is counted is the action that was configured.
\<close>

definition as_configured :: "('q, 's) k8s \<Rightarrow> ('q, 's) call list \<Rightarrow> bool" where
  "as_configured L cs \<longleftrightarrow>
     ((\<exists>t. ReadClock t \<in> set cs) \<longrightarrow>
       (\<exists>b sel r. ((\<exists>ns n. GetBudget ns n (Inr b) \<in> set cs) \<or> (\<exists>x. UpdateBudget x (Inr b) \<in> set cs)) \<and> labelSelectorAsSelector L (selector (spec b)) = Inr sel \<and>
         ListPods (budget_namespace b) sel r \<in> set cs)) \<and>
     (\<forall>m ns n a. CounterInc m [ns, n, a] \<in> set cs \<longrightarrow>
       (\<exists>x y b. PatchStatus x y (Inr b) \<in> set cs \<and> ns = budget_namespace b \<and> n = budget_name b \<and>
         a = configured_action b))"

lemma admitted_valid:
  assumes "snd (ValidateCreate L b) = None"
  shows "valid_spec L (spec b)" and "effective_action (configured_action b) = configured_action b"
proof -
  show v: "valid_spec L (spec b)" using assms by (simp add: ValidateCreate_def validateSpec_Nil)
  show "effective_action (configured_action b) = configured_action b"
    using v by (auto simp: valid_spec_def configured_action_def effective_action_def)
qed

lemma no_counter:
  "CounterInc m ls \<notin> set (publish_calls b r)" "CounterInc m ls \<notin> set (clear_calls ns n)"
  by (simp_all add: publish_calls_def clear_calls_def)

lemma enforcement_no_counter: "enforcement_spec L act b p now r cs \<Longrightarrow> CounterInc m ls \<notin> set cs"
  by (auto simp: enforcement_spec_def eviction_request_def warning_def
      elim!: eviction_specE pause_specE alert_specE split: if_splits)

lemma enforce_spec_counter:
  assumes "enforce_spec L b pods now e cs" and "CounterInc m [ns, n, a] \<in> set cs"
  shows "ns = budget_namespace b \<and> n = budget_name b \<and> a = effective_action (configured_action b)"
  using assms
proof (cases rule: enforce_spec.cases)
  case (failed p err)
  then show ?thesis using enforcement_no_counter assms(2) by metis
next
  case (acted p oc cs' x)
  have "CounterInc m [ns, n, a] \<notin> set cs'" using enforcement_no_counter [OF acted(5)] .
  moreover have "oc_action oc = effective_action (configured_action b)"
    using acted(5) by (simp add: enforcement_spec_def enforce_post_def)
  ultimately show ?thesis using acted(2) assms(2) by simp
qed simp_all

lemma degraded_no_counter: "degraded_spec L b reason msg r cs \<Longrightarrow> CounterInc m ls \<notin> set cs"
  by (auto elim!: degraded_specE)

lemma live_spec_counter:
  assumes "live_spec L b r cs" and "CounterInc m [ns, n, a] \<in> set cs"
  shows "\<exists>x y b'. PatchStatus x y (Inr b') \<in> set cs \<and> ns = budget_namespace b' \<and> n = budget_name b' \<and>
    a = effective_action (configured_action b')"
  using assms
proof (cases rule: live_spec.cases)
  case (over_budget sel now pods b' e cs' t1 t2 t3)
  then have "CounterInc m [ns, n, a] \<in> set cs'" using assms(2) by (simp add: no_counter)
  from enforce_spec_counter [OF over_budget(5) this] show ?thesis using over_budget(2) by auto
qed (auto simp: no_counter degraded_no_counter)

lemma live_spec_listing:
  assumes "live_spec L b r cs" and "valid_spec L (spec b)"
  shows "\<exists>sel x. labelSelectorAsSelector L (selector (spec b)) = Inr sel \<and>
    ListPods (budget_namespace b) sel x \<in> set cs"
  using assms by (auto elim!: live_specE simp: valid_spec_def)

lemma reconcile_spec_counter:
  assumes "reconcile_spec L ns0 n0 r cs" and "CounterInc m [ns, n, a] \<in> set cs"
  shows "\<exists>x y b. PatchStatus x y (Inr b) \<in> set cs \<and> ns = budget_namespace b \<and> n = budget_name b \<and>
    a = effective_action (configured_action b)"
  using assms
proof (cases rule: reconcile_spec.cases)
  case (guard b b' cs')
  then show ?thesis using live_spec_counter [OF guard(4), of m ns n a] assms(2) by auto
next
  case (live b cs')
  then show ?thesis using live_spec_counter [OF live(4), of m ns n a] assms(2) by auto
qed (auto simp: no_counter)

lemma reconcile_spec_listing:
  assumes "reconcile_spec L ns n r cs" and "all_admitted L cs" and "ReadClock t \<in> set cs"
  shows "\<exists>b sel x. ((\<exists>ns n. GetBudget ns n (Inr b) \<in> set cs) \<or> (\<exists>x. UpdateBudget x (Inr b) \<in> set cs)) \<and>
    labelSelectorAsSelector L (selector (spec b)) = Inr sel \<and> ListPods (budget_namespace b) sel x \<in> set cs"
  using assms
proof (cases rule: reconcile_spec.cases)
  case (guard b b' cs')
  then have "valid_spec L (spec b')" using assms(2) by (auto simp: all_admitted_def intro: admitted_valid)
  then show ?thesis using live_spec_listing [OF guard(4)] guard(1) by auto
next
  case (live b cs')
  then have "valid_spec L (spec b)" using assms(2) by (auto simp: all_admitted_def intro: admitted_valid)
  then show ?thesis using live_spec_listing [OF live(4)] live(1) by auto
qed (auto simp: clear_calls_def)

lemma reconcile_spec_as_configured:
  assumes "reconcile_spec L ns n r cs" and "all_admitted L cs"
  shows "as_configured L cs"
proof -
  have "\<exists>x y b. PatchStatus x y (Inr b) \<in> set cs \<and> ns = budget_namespace b \<and> n = budget_name b \<and>
      a = configured_action b" if c: "CounterInc m [ns, n, a] \<in> set cs" for m ns n a
    using reconcile_spec_counter [OF assms(1) c] admitted_valid(2) assms(2)
    unfolding all_admitted_def by metis
  then show ?thesis
    using reconcile_spec_listing [OF assms] by (auto simp: as_configured_def)
qed

definition admission_law :: "('q, 's) k8s \<Rightarrow> ('q, 's) call list \<Rightarrow> bool" where
  "admission_law L cs \<longleftrightarrow> (all_admitted L cs \<longrightarrow> as_configured L cs)"

subsection \<open>Metric calls on their own\<close>

lemma metric_calls_well_labelled:
  "emits (Reconcile L A ns n) (\<lambda>r cs. list_all well_labelled cs)"
  by (rule emits_conseq [OF Reconcile_spec]) (rule reconcile_spec_labelled)

lemma deletion_clears_gauges: "emits (Reconcile L A ns n) (\<lambda>r cs. gauges_released L cs)"
  by (rule emits_conseq [OF Reconcile_spec]) (rule reconcile_spec_released)

end
