(* ===== verification/EndToEnd.thy ===== *)
theory EndToEnd
  imports Reference
begin

text \<open>
  From the objects of the API server to the decision: the translation of pods, the accounting
  engine, the conversion of quantities and the reconcile pass composed. The reference is a
  calculation without floats, on the exact values of the quantities the pods and the budget
  hold; the theorems bound how far the status may be off, and say when the decision that a
  budget is over its quota is the exact one.
\<close>

subsection \<open>The exact consumption\<close>

text \<open>The span a pod ran, from its observed start to its observed end, if it started.\<close>

definition run_of :: "'q pod \<Rightarrow> (gotime \<times> gotime option) option" where
  "run_of p =
     map_option (\<lambda>s. (s,
         if phase p = PodSucceeded \<or> phase p = PodFailed
         then if observed_finishes p = [] then pod_deletionTimestamp p
           else Some (Max (set (observed_finishes p)))
         else None))
       (if observed_starts p = [] then startTime p else Some (Min (set (observed_starts p))))"

definition run_time :: "'q pod \<Rightarrow> gotime \<Rightarrow> gotime \<Rightarrow> int" where
  "run_time p from to =
     (case run_of p of
        None \<Rightarrow> 0
      | Some (s, e) \<Rightarrow> max 0 ((case e of None \<Rightarrow> to | Some t \<Rightarrow> min t to) - max s from))"

definition requested :: "('q \<Rightarrow> rat) \<Rightarrow> string \<Rightarrow> 'q container list \<Rightarrow> rat" where
  "requested value name cs =
     sum_list (map (\<lambda>c. case fmlookup (requests c) name of None \<Rightarrow> 0 | Some q \<Rightarrow> value q) cs)"

definition true_hours :: "('q \<Rightarrow> rat) \<Rightarrow> string \<Rightarrow> gotime \<Rightarrow> gotime \<Rightarrow> 'q pod \<Rightarrow> rat" where
  "true_hours value name from to p = requested value name (containers p) * hours_exact (run_time p from to)"

definition window_hours :: "'q budget \<Rightarrow> int" where
  "window_hours b = sint (windowHours (quota (spec b)))"

definition true_total :: "('q \<Rightarrow> rat) \<Rightarrow> 'q budget \<Rightarrow> gotime \<Rightarrow> 'q pod list \<Rightarrow> rat" where
  "true_total value b now pods =
     sum_list (map (true_hours value (gpuResourceName_of b) (now - window_hours b * 3600000000000) now) pods)"

definition true_quota :: "('q \<Rightarrow> rat) \<Rightarrow> 'q budget \<Rightarrow> rat" where
  "true_quota value b = value (gpuHours (quota (spec b)))"

subsection \<open>What is relied on\<close>

text \<open>
  The documented behaviour of a quantity: its float is its value up to \<open>k\<close> roundings and, unless
  zero, at least a nano-unit, the finest step a quantity has; no value exceeds \<open>2^63\<close>.
\<close>

definition faithful_quantity :: "('q, 's) k8s \<Rightarrow> ('q \<Rightarrow> rat) \<Rightarrow> nat \<Rightarrow> 'q \<Rightarrow> bool" where
  "faithful_quantity L value k q \<longleftrightarrow>
     (\<exists>x. asApproximateFloat64 L q = Fin x \<and> rep64 x \<and> near k x (value q) \<and> (x = 0 \<or> 1 / 10 ^ 9 \<le> x)) \<and>
     value q \<le> 2 ^ 63"

text \<open>The number of roundings on the way of a pod's hours into the sum.\<close>

definition roundings :: "nat \<Rightarrow> nat \<Rightarrow> 'q pod list \<Rightarrow> nat" where
  "roundings k m pods = k + m + 3 + length pods"

definition metered :: "('q, 's) k8s \<Rightarrow> ('q \<Rightarrow> rat) \<Rightarrow> nat \<Rightarrow> nat \<Rightarrow> 'q budget \<Rightarrow> gotime \<Rightarrow> 'q pod list \<Rightarrow> bool" where
  "metered L value k m b now pods \<longleftrightarrow>
     faithful_quantity L value k (gpuHours (quota (spec b))) \<and>
     (\<forall>p \<in> set pods. length (containers p) \<le> m \<and>
        (\<forall>c \<in> set (containers p). \<forall>q. fmlookup (requests c) (gpuResourceName_of b) = Some q \<longrightarrow>
           faithful_quantity L value k q)) \<and>
     0 < window_hours b \<and> window_hours b \<le> 2562047 \<and>
     roundings k m pods \<le> 2 ^ 20 \<and> true_total value b now pods \<le> 2 ^ 29"

subsection \<open>Rounding factors\<close>

lemma near_trans:
  assumes "near j v f" and "near i f e"
  shows "near (j + i) v e"
proof -
  have "(1 - eps) ^ j * ((1 - eps) ^ i * e) \<le> (1 - eps) ^ j * f"
    "(1 + eps) ^ j * f \<le> (1 + eps) ^ j * ((1 + eps) ^ i * e)"
    using assms(2) eps_range by (auto simp: near_def intro!: mult_left_mono)
  then show ?thesis using assms by (auto simp: near_def power_add mult.assoc)
qed

lemma near_zero: "near k 0 e \<Longrightarrow> e = 0"
  using near_pos [of k 0 e] by (auto simp: near_def order_less_le)

definition margin :: "nat \<Rightarrow> rat" where
  "margin n = of_nat n / 2 ^ 52"

lemma factor_le:
  assumes "n \<le> 2 ^ 20"
  shows "(1 + eps) ^ n \<le> 1 + margin n" and "margin n \<le> 1"
proof -
  have n: "of_nat n * eps \<le> 1 / 2" "0 \<le> of_nat n * eps"
  proof -
    have "(of_nat n :: rat) \<le> 2 ^ 20" using assms by (metis of_nat_le_iff of_nat_numeral of_nat_power)
    then show "of_nat n * eps \<le> 1 / 2" by (simp add: eps_def)
    show "0 \<le> of_nat n * eps" by (simp add: eps_def)
  qed
  have m: "margin n = 2 * (of_nat n * eps)" by (simp add: margin_def eps_def)
  then show "margin n \<le> 1" using n by simp
  have b: "1 - of_nat n * eps \<le> (1 - eps) ^ n"
    using Bernoulli_inequality [of "- eps" n] eps_range by simp
  have "(1 + eps) ^ n * (1 - of_nat n * eps) \<le> (1 + eps) ^ n * (1 - eps) ^ n"
    using b eps_range by (intro mult_left_mono) auto
  also have "\<dots> = ((1 + eps) * (1 - eps)) ^ n" by (simp only: power_mult_distrib)
  also have "\<dots> \<le> 1" by (rule power_le_one) (simp_all add: eps_def)
  finally have le: "(1 + eps) ^ n * (1 - of_nat n * eps) \<le> 1" .
  have "1 \<le> (1 + 2 * (of_nat n * eps)) * (1 - of_nat n * eps)"
    using n mult_nonneg_nonneg [of "of_nat n * eps" "1 - 2 * (of_nat n * eps)"]
    by (simp add: algebra_simps)
  with le have "(1 + eps) ^ n * (1 - of_nat n * eps) \<le> (1 + 2 * (of_nat n * eps)) * (1 - of_nat n * eps)"
    by (rule order_trans)
  moreover have "0 < 1 - of_nat n * eps" using n by linarith
  ultimately show "(1 + eps) ^ n \<le> 1 + margin n"
    unfolding m by (simp only: mult_le_cancel_right)
qed

lemma near_margin:
  assumes "near n v e" and "n \<le> 2 ^ 20"
  shows "\<bar>v - e\<bar> \<le> margin n * e" and "v \<le> 2 * e"
proof -
  have e: "0 \<le> e" using assms(1) by (simp add: near_def)
  have "((1 + eps) ^ n - 1) * e \<le> margin n * e"
    using factor_le(1) [OF assms(2)] e by (intro mult_right_mono) auto
  then show m: "\<bar>v - e\<bar> \<le> margin n * e" using near_error [OF assms(1)] by linarith
  have "margin n * e \<le> 1 * e" using factor_le(2) [OF assms(2)] e by (rule mult_right_mono)
  then show "v \<le> 2 * e" using m by linarith
qed

subsection \<open>Requests\<close>

lemma requested_snoc:
  "requested value name (cs @ [c]) =
    requested value name cs + (case fmlookup (requests c) name of None \<Rightarrow> 0 | Some q \<Rightarrow> value q)"
  by (simp add: requested_def)

lemma requested_near:
  assumes "\<forall>c \<in> set cs. \<forall>q. fmlookup (requests c) name = Some q \<longrightarrow> faithful_quantity L value k q"
    and "k + length cs \<le> 2 ^ 20"
  shows "\<exists>g. foldl (\<lambda>total c. case fmlookup (requests c) name of None \<Rightarrow> total
      | Some q \<Rightarrow> fadd total (asApproximateFloat64 L q)) (Fin 0) cs = Fin g \<and> rep64 g \<and>
    near (k + length cs) g (requested value name cs) \<and> (g = 0 \<or> 1 / 10 ^ 9 \<le> g) \<and>
    requested value name cs \<le> of_nat (length cs) * 2 ^ 63"
  using assms
proof (induction cs rule: rev_induct)
  case Nil
  then show ?case using near_refl [of 0 k] by (simp add: requested_def)
next
  case (snoc c cs)
  let ?f = "\<lambda>total c. case fmlookup (requests c) name of None \<Rightarrow> total
      | Some q \<Rightarrow> fadd total (asApproximateFloat64 L q)"
  obtain g where g: "foldl ?f (Fin 0) cs = Fin g" "rep64 g" "near (k + length cs) g (requested value name cs)"
      "g = 0 \<or> 1 / 10 ^ 9 \<le> g" "requested value name cs \<le> of_nat (length cs) * 2 ^ 63"
    using snoc.IH snoc.prems by auto
  show ?case
  proof (cases "fmlookup (requests c) name")
    case None
    then show ?thesis
      using g near_weaken [OF g(3), of "k + length (cs @ [c])"] by (simp add: requested_snoc distrib_right)
  next
    case (Some q)
    then obtain x where x: "asApproximateFloat64 L q = Fin x" "rep64 x" "near k x (value q)"
        "x = 0 \<or> 1 / 10 ^ 9 \<le> x" "value q \<le> 2 ^ 63"
      using snoc.prems(1) by (auto simp: faithful_quantity_def)
    let ?E = "requested value name cs + value q"
    have n: "near (k + length cs) (g + x) ?E" using near_add [OF g(3) near_weaken [OF x(3)]] by simp
    have nn: "0 \<le> g" "0 \<le> x" "0 \<le> ?E" using near_nonneg [OF g(3)] near_nonneg [OF x(3)] n by (auto simp: near_def)
    have le: "?E \<le> of_nat (length (cs @ [c])) * 2 ^ 63" using g(5) x(5) by (simp add: distrib_right)
    have "(of_nat (length (cs @ [c])) :: rat) \<le> 2 ^ 20"
      using snoc.prems(2) by (metis add_leD2 of_nat_le_iff of_nat_numeral of_nat_power)
    then have "?E \<le> 2 ^ 20 * 2 ^ 63" using le by (auto intro: order_trans mult_right_mono)
    moreover have "g + x \<le> 2 * ?E" using near_margin(2) [OF n] snoc.prems(2) by simp
    moreover have "(2 * (2 ^ 20 * 2 ^ 63) :: rat) \<le> 2 ^ 100" by simp
    ultimately have "g + x \<le> 2 ^ 100"
      by (meson mult_left_mono order_trans zero_le_numeral)
    then have r: "round64 (g + x) = Fin (round_grid (g + x))" "rep64 (round_grid (g + x))"
      using round64_moderate_Fin [of "g + x"] nn by simp_all
    have tiny: "2 powi (- 1022) \<le> (1 / 10 ^ 9 :: rat)" by simp
    have "g + x = 0 \<or> 2 powi (- 1022) \<le> g + x" using g(4) x(4) nn tiny by linarith
    with n have near': "near (Suc (k + length cs)) (round_grid (g + x)) ?E" by (rule near_round)
    have "round_grid (g + x) = 0 \<or> 1 / 10 ^ 9 \<le> round_grid (g + x)"
      using g(4) x(4) nn round_grid_mono [of g "g + x"] round_grid_mono [of x "g + x"]
        rep64_round_grid [OF g(2)] rep64_round_grid [OF x(2)] by (cases "g = 0") auto
    then show ?thesis using g(1) x(1) r near' le Some by (simp add: requested_snoc)
  qed
qed

lemma total_near:
  assumes "\<forall>c \<in> set (containers p). \<forall>q. fmlookup (requests c) name = Some q \<longrightarrow> faithful_quantity L value k q"
    and "length (containers p) \<le> m" and "k + m \<le> 2 ^ 20"
  shows "\<exists>g. gpuRequestTotal L p name = Fin g \<and> rep64 g \<and>
    near (k + m) g (requested value name (containers p)) \<and> (g = 0 \<or> 1 / 10 ^ 9 \<le> g)"
  using requested_near [OF assms(1)] assms(2,3) near_weaken
  unfolding gpuRequestTotal_def by fastforce

subsection \<open>One pod\<close>

lemma accounted_run:
  assumes "podToAccounting L p name = Some a"
  shows "run_of p = Some (acc_start a, acc_end a)"
  using podToAccounting_Some(3,4) [OF assms]
  by (auto simp: run_of_def start_is_earliest end_is_latest split: if_splits)

lemma unaccounted:
  assumes "podToAccounting L p name = None" and "\<not> fle (gpuRequestTotal L p name) (Fin 0)"
  shows "run_of p = None"
  using assms by (auto simp: podToAccounting_def run_of_def start_is_earliest Let_def split: option.splits if_splits)

lemma run_time_overlap:
  assumes "podToAccounting L p name = Some a"
  shows "run_time p from to = max 0 (overlap a from to)"
  by (simp add: run_time_def accounted_run [OF assms] overlap_def)

lemma hours_exact_nonneg: "0 \<le> n \<Longrightarrow> 0 \<le> hours_exact n"
  by (simp add: hours_exact_def)

text \<open>What the engine is charged with for a pod, against the exact hours.\<close>

definition charged :: "('q, 's) k8s \<Rightarrow> string \<Rightarrow> gotime \<Rightarrow> gotime \<Rightarrow> 'q pod \<Rightarrow> rat" where
  "charged L name from to p =
     (case podToAccounting L p name of None \<Rightarrow> 0 | Some a \<Rightarrow> exact_usage a from to)"

lemma charged_near:
  assumes "\<forall>c \<in> set (containers p). \<forall>q. fmlookup (requests c) name = Some q \<longrightarrow> faithful_quantity L value k q"
    and "length (containers p) \<le> m" and "k + m \<le> 2 ^ 20"
  shows "near (k + m) (charged L name from to p) (true_hours value name from to p)"
proof -
  obtain g where g: "gpuRequestTotal L p name = Fin g"
      "near (k + m) g (requested value name (containers p))"
    using total_near [OF assms] by auto
  have zero: "near (k + m) 0 0" by (rule near_refl) simp
  have nn: "0 \<le> g" using g(2) by (rule near_nonneg)
  show ?thesis
  proof (cases "podToAccounting L p name")
    case None
    have "true_hours value name from to p = 0"
    proof (cases "g = 0")
      case True
      then show ?thesis using near_zero g(2) by (simp add: true_hours_def)
    next
      case False
      then have "run_of p = None" using unaccounted [OF None] g(1) nn by simp
      then show ?thesis by (simp add: true_hours_def run_time_def hours_exact_def)
    qed
    then show ?thesis using zero None by (simp add: charged_def)
  next
    case (Some a)
    have a: "acc_gpus a = Fin g" using podToAccounting_Some(1) [OF Some] g(1) by simp
    have "charged L name from to p = hours_exact (run_time p from to) * g"
      using nn by (auto simp: charged_def Some exact_usage_def a run_time_overlap [OF Some] hours_exact_def)
    then show ?thesis
      using near_scale [OF g(2) hours_exact_nonneg [of "run_time p from to"]] 
      by (simp add: true_hours_def mult.commute run_time_overlap [OF Some])
  qed
qed

lemma charged_sum:
  "exact_sum from to (List.map_filter (\<lambda>p. podToAccounting L p name) pods) =
    sum_list (map (charged L name from to) pods)"
  by (induction pods) (auto simp: exact_sum_def charged_def map_filter_simps split: option.splits)

lemma near_sum:
  assumes "\<forall>p \<in> set ps. near k (f p) (g p)"
  shows "near k (sum_list (map f ps)) (sum_list (map g ps))"
  using assms near_refl [of 0 k] by (induction ps) (auto intro: near_add)

subsection \<open>The consumption\<close>

lemma metered_window:
  assumes "metered L value k m b now pods"
  shows "window_start \<lparr>acc_window = window_of b, acc_quota = q\<rparr> now = now - window_hours b * 3600000000000"
proof -
  have r: "0 < window_hours b" "window_hours b \<le> 2562047" using assms by (simp_all add: metered_def)
  then have s: "sint (window_of b) = window_hours b * 3600000000000"
    using sint_window_of [of b] by (simp add: window_hours_def)
  have "sint (- window_of b) = - (window_hours b * 3600000000000)"
  proof -
    have "- window_of b = word_of_int (- (window_hours b * 3600000000000))"
      unfolding s [symmetric] by simp
    then show ?thesis using r by (simp only:) (rule sint_word_of_int64; simp)
  qed
  then show ?thesis using s r by (simp add: window_start_def Add_def)
qed

lemma metered_measurable:
  assumes "metered L value k m b now pods" and "a \<in> set (account_pods L b pods)"
  shows "measurable (now - window_hours b * 3600000000000) now a"
proof -
  obtain p where p: "p \<in> set pods" "podToAccounting L p (gpuResourceName_of b) = Some a"
    using assms(2) by (auto simp: account_pods_def List.map_filter_def)
  have f: "\<forall>c \<in> set (containers p). \<forall>q. fmlookup (requests c) (gpuResourceName_of b) = Some q \<longrightarrow> faithful_quantity L value k q"
    "length (containers p) \<le> m" "k + m \<le> 2 ^ 20" "window_hours b \<le> 2562047"
    using assms(1) p(1) by (auto simp: metered_def roundings_def)
  have "overlap a (now - window_hours b * 3600000000000) now \<le> window_hours b * 3600000000000"
    using overlap_window [of a "now - window_hours b * 3600000000000" now] by simp
  then have "overlap a (now - window_hours b * 3600000000000) now < 2 ^ 63" using f(4) by simp
  then show ?thesis
    using total_near [OF f(1-3)] podToAccounting_Some(1) [OF p(2)] by (auto simp: measurable_def)
qed

lemma consumed_near:
  assumes "metered L value k m b now pods"
  shows "\<exists>c. consumed (account_budget L b now pods) = Fin c \<and>
    near (roundings k m pods) c (true_total value b now pods)"
proof -
  let ?from = "now - window_hours b * 3600000000000" and ?as = "account_pods L b pods"
  have n: "roundings k m pods \<le> 2 ^ 20" and T: "true_total value b now pods \<le> 2 ^ 29"
    using assms by (simp_all add: metered_def)
  have "\<forall>p \<in> set pods. near (k + m) (charged L (gpuResourceName_of b) ?from now p)
      (true_hours value (gpuResourceName_of b) ?from now p)"
    using assms n by (intro ballI charged_near) (auto simp: metered_def roundings_def)
  then have e: "near (k + m) (exact_sum ?from now ?as) (true_total value b now pods)"
    unfolding account_pods_def charged_sum true_total_def by (rule near_sum)
  have len: "length ?as \<le> length pods" by (simp add: account_pods_def List.map_filter_def)
  have meas: "\<forall>a \<in> set ?as. measurable ?from now a" using metered_measurable [OF assms] by blast
  have "exact_sum ?from now ?as \<le> 2 * true_total value b now pods"
    using near_margin(2) [OF e] n by (simp add: roundings_def)
  also have "\<dots> \<le> 2 * 2 ^ 29" using T by simp
  also have "\<dots> \<le> (2 ^ 98 :: rat)" by simp
  finally have "exact_sum ?from now ?as \<le> 2 ^ 98" .
  then have fin: "sum_usage (\<lambda>a. WindowUsage a ?from now) ?as \<noteq> PInf"
    using sum_finite [OF meas] len n by (simp add: roundings_def)
  obtain c where c: "sum_usage (\<lambda>a. WindowUsage a ?from now) ?as = Fin c"
      "near (length ?as + 3) c (exact_sum ?from now ?as)"
    using sum_near [OF meas fin] by blast
  have "near (roundings k m pods) c (true_total value b now pods)"
    using near_weaken [OF near_trans [OF c(2) e]] len by (simp add: roundings_def)
  then show ?thesis
    using c(1) by (simp add: account_budget_def metered_window [OF assms])
qed

subsection \<open>The status and the decision\<close>

lemma status_hours:
  assumes "metered L value k m b now pods"
  shows "\<exists>u. gpuHoursToQuantity L (consumed (account_budget L b now pods)) = newMilliQuantity L u \<and>
    \<bar>of_int (sint u) - 1000 * true_total value b now pods\<bar>
      \<le> 1 / 2 + 1 / 2 ^ 11 + margin (roundings k m pods) * (1000 * true_total value b now pods)"
proof -
  let ?E = "true_total value b now pods" and ?n = "roundings k m pods"
  have n: "?n \<le> 2 ^ 20" and T: "?E \<le> 2 ^ 29" using assms by (simp_all add: metered_def)
  obtain c where c: "consumed (account_budget L b now pods) = Fin c" "near ?n c ?E"
    using consumed_near [OF assms] by blast
  have "c \<le> 2 * 2 ^ 29" using near_margin(2) [OF c(2) n] T by (meson mult_left_mono order_trans zero_le_numeral)
  then have le: "c \<le> 2 ^ 30" by simp
  have "\<bar>of_int (sint (milli_units L (Fin c))) - 1000 * c\<bar> \<le> 1 / 2 + 1 / 2 ^ 11"
    by (rule milli_units_near [OF near_nonneg [OF c(2)] le])
  moreover have "\<bar>1000 * c - 1000 * ?E\<bar> \<le> margin ?n * (1000 * ?E)"
    using near_margin(1) [OF c(2) n] by (simp add: abs_if algebra_simps split: if_splits)
  ultimately have "\<bar>of_int (sint (milli_units L (Fin c))) - 1000 * ?E\<bar>
      \<le> 1 / 2 + 1 / 2 ^ 11 + margin ?n * (1000 * ?E)" by linarith
  then show ?thesis using gpuHoursToQuantity_milli [of L "Fin c"] c(1) by auto
qed

text \<open>The exact consumption and the quota differ by more than the rounding can.\<close>

definition clear_cut :: "('q \<Rightarrow> rat) \<Rightarrow> nat \<Rightarrow> nat \<Rightarrow> 'q budget \<Rightarrow> gotime \<Rightarrow> 'q pod list \<Rightarrow> bool" where
  "clear_cut value k m b now pods \<longleftrightarrow>
     margin (roundings k m pods) * (true_total value b now pods + true_quota value b)
       < \<bar>true_total value b now pods - true_quota value b\<bar>"

lemma decision_exact:
  assumes "metered L value k m b now pods" and "clear_cut value k m b now pods"
  shows "over (account_budget L b now pods) \<longleftrightarrow> true_quota value b \<le> true_total value b now pods"
proof -
  let ?E = "true_total value b now pods" and ?Q = "true_quota value b" and ?n = "roundings k m pods"
  have n: "?n \<le> 2 ^ 20" using assms(1) by (simp add: metered_def)
  obtain c where c: "consumed (account_budget L b now pods) = Fin c" "near ?n c ?E"
    using consumed_near [OF assms(1)] by blast
  obtain q where q: "asApproximateFloat64 L (gpuHours (quota (spec b))) = Fin q" "near k q ?Q"
    using assms(1) by (auto simp: metered_def faithful_quantity_def true_quota_def)
  have "near ?n q ?Q" using near_weaken [OF q(2)] by (simp add: roundings_def)
  then have dq: "\<bar>q - ?Q\<bar> \<le> margin ?n * ?Q" using n by (rule near_margin)
  have dc: "\<bar>c - ?E\<bar> \<le> margin ?n * ?E" using near_margin(1) [OF c(2) n] .
  have cut: "margin ?n * ?E + margin ?n * ?Q < \<bar>?E - ?Q\<bar>"
    using assms(2) by (simp add: clear_cut_def distrib_left)
  have "q \<le> c \<longleftrightarrow> ?Q \<le> ?E"
    using dq dc cut by (cases "?Q \<le> ?E") (auto simp: abs_if split: if_splits)
  moreover have "over (account_budget L b now pods) \<longleftrightarrow> q \<le> c"
    using c(1) q(1) by (simp add: account_budget_def)
  ultimately show ?thesis by simp
qed

subsection \<open>Passes\<close>

text \<open>
  In a trace whose listing is metered and not within the rounding margin of its quota, nothing
  happens to a pod while the exact consumption is below the quota; and once it has reached the
  quota, and the grace period is over, the call that is due happens.
\<close>

definition decided_exactly :: "('q, 's) k8s \<Rightarrow> ('q \<Rightarrow> rat) \<Rightarrow> nat \<Rightarrow> nat \<Rightarrow> ('q, 's) call list \<Rightarrow> bool" where
  "decided_exactly L value k m cs \<longleftrightarrow>
     (\<forall>pre now sel pods b b1 b' rest.
        cs = pre @ ReadClock now # ListPods (budget_namespace b) sel (Inr pods)
          # PatchStatus b b1 (Inr b') # rest \<longrightarrow>
        metered L value k m b now pods \<longrightarrow> clear_cut value k m b now pods \<longrightarrow>
        (if true_total value b now pods < true_quota value b
         then \<not> list_ex mutates_pod cs
         else \<forall>p. gate L b' now \<longrightarrow> offender L b' pods now = Some p \<longrightarrow>
           (configured_action b' = ActionPause \<longrightarrow> \<not> paused p) \<longrightarrow>
           (\<exists>c \<in> set rest. due_call (configured_action b') b' p now c)))"

lemma untouched_pods: "\<not> list_ex touches cs \<Longrightarrow> \<not> list_ex mutates_pod cs"
proof (induction cs)
  case (Cons c cs)
  then show ?case by (cases c) auto
qed simp

lemma live_spec_within:
  assumes "live_spec L b r (ReadClock now # ListPods (budget_namespace c) sel (Inr pods)
      # PatchStatus c c1 (Inr b') # rest)"
    and "\<not> over (account_budget L c now pods)"
  shows "\<not> list_ex mutates_pod rest"
  using assms(1)
proof cases
  case (in_budget t1 t2 t3)
  then show ?thesis using no_mutation(1) by (auto simp: list_all_iff list_ex_iff)
qed (use assms(2) in \<open>auto elim!: degraded_specE\<close>)

lemma reconcile_spec_decided:
  assumes "reconcile_spec L ns n r cs"
  shows "decided_exactly L value k m cs"
  unfolding decided_exactly_def
proof (intro allI impI)
  fix pre now sel pods b b1 b' rest
  assume cs: "cs = pre @ ReadClock now # ListPods (budget_namespace b) sel (Inr pods) # PatchStatus b b1 (Inr b') # rest"
    and m: "metered L value k m b now pods" and cut: "clear_cut value k m b now pods"
  obtain b0 where live: "live_spec L b0 r (ReadClock now # ListPods (budget_namespace b) sel (Inr pods)
      # PatchStatus b b1 (Inr b') # rest)" and pre: "\<not> list_ex touches pre"
    using reconcile_spec_suffix [OF assms cs] by blast
  have over: "over (account_budget L b now pods) \<longleftrightarrow> true_quota value b \<le> true_total value b now pods"
    using m cut by (rule decision_exact)
  show "if true_total value b now pods < true_quota value b then \<not> list_ex mutates_pod cs
    else \<forall>p. gate L b' now \<longrightarrow> offender L b' pods now = Some p \<longrightarrow>
      (configured_action b' = ActionPause \<longrightarrow> \<not> paused p) \<longrightarrow>
      (\<exists>c \<in> set rest. due_call (configured_action b') b' p now c)"
    using live_spec_within [OF live] untouched_pods [OF pre] live_spec_due [OF live] over
    by (auto simp: cs)
qed

subsection \<open>A sample\<close>

lemma sample_total: "true_total (\<lambda>q. q) sample_budget 7200000000000 [sample_pod] = 2"
proof -
  have "gpuResourceName_of sample_budget = ''nvidia.com/gpu''" "window_hours sample_budget = 24"
    by (simp_all add: gpuResourceName_of_def window_hours_def samples)
  moreover have "run_of sample_pod = Some (3600000000000, None)"
    by (simp add: run_of_def observed_starts_def starts_of_def PodSucceeded_def PodFailed_def samples)
  ultimately show ?thesis
    by (simp add: true_total_def true_hours_def run_time_def hours_exact_def)
      (simp add: requested_def samples)
qed

lemma faithful_numeral:
  assumes "numeral k \<le> (2 :: int) ^ 53"
  shows "faithful_quantity ref_lib (\<lambda>q. q) 1 (numeral k)"
proof -
  have "(numeral k :: rat) \<le> of_int (2 ^ 53)" using assms by (metis of_int_le_iff of_int_numeral)
  then have "(numeral k :: rat) \<le> 2 ^ 63" by (rule order_trans) simp
  moreover have "(1 / 10 ^ 9 :: rat) \<le> 1" "(1 :: rat) \<le> numeral k" by simp_all
  then have "(1 / 10 ^ 9 :: rat) \<le> numeral k" by (rule order_trans)
  ultimately show ?thesis
    using assms near_refl [of "numeral k" 1]
    by (simp add: faithful_quantity_def round64_numeral rep64_numeral del: one_add_one)
qed

lemma sample_metered: "metered ref_lib (\<lambda>q. q) 1 1 sample_budget 7200000000000 [sample_pod]"
  unfolding metered_def sample_total
  using faithful_numeral [of "num.Bit0 num.One"] faithful_numeral [of "num.Bit0 (num.Bit0 (num.Bit1 (num.Bit0 (num.Bit0 (num.Bit1 num.One)))))"]
  by (auto simp: roundings_def window_hours_def samples split: if_splits)

text \<open>The sample is metered and far from its quota: the laws are about something.\<close>

lemma sample_clear_cut: "clear_cut (\<lambda>q. q) 1 1 sample_budget 7200000000000 [sample_pod]"
  unfolding clear_cut_def sample_total by (simp add: margin_def roundings_def true_quota_def samples)

end
