(* ===== verification/Wiring.thy ===== *)
theory Wiring
  imports ReconcileLaws
begin

text \<open>
  The enforcement step with Go's interface values: the dependencies of the reconciler
  (\<open>GPUWorkloadBudgetReconciler\<close>) and of the enforcers that \<open>enforcement.New\<close> builds from them may
  be nil, and a method call on a nil interface panics. The laws: on the reconciler that
  \<open>cmd/main.go\<close> builds, the step is the one of \<open>Controller\<close>, without a panic; and what a missing
  dependency does.
\<close>

subsection \<open>Values and panics\<close>

datatype panic = NilDereference

text \<open>An event recorder is known by the component it records for.\<close>

datatype event_recorder = EventRecorder string

type_synonym 'w clientset = "string \<Rightarrow> string \<Rightarrow> 64 word \<Rightarrow> 'w \<Rightarrow> goerr option \<times> 'w"

record ('q, 's, 'w, 'sch) GPUWorkloadBudgetReconciler =
  Client :: "('q, 's, 'w) api option"
  Scheme :: "'sch option"
  Clock :: "('w \<Rightarrow> gotime \<times> 'w) option"
  Clientset :: "'w clientset option"
  Recorder :: "event_recorder option"

text \<open>The three structs behind the interface \<open>Enforcer\<close>.\<close>

record 'w evictor =
  ev_clientset :: "'w clientset option"
  ev_recorder :: "event_recorder option"

record ('q, 's, 'w) pauser =
  pa_client :: "('q, 's, 'w) api option"
  pa_recorder :: "event_recorder option"

record alerter =
  al_recorder :: "event_recorder option"

datatype ('q, 's, 'w) enforcer_value =
    EvictorValue "'w evictor"
  | PauserValue "('q, 's, 'w) pauser"
  | AlerterValue alerter

definition New_value ::
    "string \<Rightarrow> ('q, 's, 'w) api option \<Rightarrow> 'w clientset option \<Rightarrow> event_recorder option
      \<Rightarrow> ('q, 's, 'w) enforcer_value" where
  "New_value act c cs rec =
     (if act = ActionEvict then EvictorValue \<lparr>ev_clientset = cs, ev_recorder = rec\<rparr>
      else if act = ActionPause then PauserValue \<lparr>pa_client = c, pa_recorder = rec\<rparr>
      else AlerterValue \<lparr>al_recorder = rec\<rparr>)"

subsection \<open>The methods\<close>

text \<open>A call through an interface value: a panic if it is nil.\<close>

definition through ::
    "'h option \<Rightarrow> ('h \<Rightarrow> ('q, 's, 'w, panic + 'a) io) \<Rightarrow> ('q, 's, 'w, panic + 'a) io" where
  "through h call = (case h of None \<Rightarrow> State_Monad.return (Inl NilDereference) | Some x \<Rightarrow> call x)"

definition Event ::
    "event_recorder option \<Rightarrow> 'q budget \<Rightarrow> string \<Rightarrow> string \<Rightarrow> ('q, 's, 'w, panic + 'a) io
      \<Rightarrow> ('q, 's, 'w, panic + 'a) io" where
  "Event rec b reason msg rest = through rec (\<lambda>_. do { _ \<leftarrow> record_event b reason msg; rest })"

definition evictor_method ::
    "'w evictor \<Rightarrow> ('q, 's) k8s \<Rightarrow> 'q budget \<Rightarrow> 'q pod \<Rightarrow> gotime
      \<Rightarrow> ('q, 's, 'w, panic + (goerr + outcome)) io" where
  "evictor_method e L b p now =
     (if pod_deletionTimestamp p \<noteq> None then
        State_Monad.return (Inr (Inr \<lparr>oc_action = ActionEvict, oc_acted = False, oc_podKey = podKey p,
          oc_reason = ''AlreadyTerminating'',
          oc_message = ''Pod '' @ podKey p @ '' is already terminating.''\<rparr>))
      else through (ev_clientset e) (\<lambda>clients. do {
        r \<leftarrow> perform
               (EvictPod (pod_namespace p) (pod_name p) (scast (gracePeriodSeconds (enforcement (spec b)))))
               (clients (pod_namespace p) (pod_name p) (scast (gracePeriodSeconds (enforcement (spec b)))));
        case r of
          Some err \<Rightarrow>
            if isNotFound L err then
              State_Monad.return (Inr (Inr \<lparr>oc_action = ActionEvict, oc_acted = False, oc_podKey = podKey p,
                oc_reason = ''PodAlreadyGone'',
                oc_message = ''Pod '' @ podKey p @ '' disappeared before eviction completed.''\<rparr>))
            else if isTooManyRequests L err then
              (let msg = ''Eviction of '' @ podKey p @ '' blocked by PodDisruptionBudget; will retry.'' in
               Event (ev_recorder e) b ''EvictionBlocked'' msg
                 (State_Monad.return (Inr (Inr \<lparr>oc_action = ActionEvict, oc_acted = False, oc_podKey = podKey p,
                    oc_reason = ''EvictionBlocked'', oc_message = msg\<rparr>))))
            else State_Monad.return (Inr (Inl (Wrap (''evict '' @ podKey p) err)))
        | None \<Rightarrow>
            (let msg = ''Evicted pod '' @ podKey p @ '' after quota exceeded.'' in
             Event (ev_recorder e) b ''Evicted'' msg
               (State_Monad.return (Inr (Inr \<lparr>oc_action = ActionEvict, oc_acted = True, oc_podKey = podKey p,
                  oc_reason = ''Evicted'', oc_message = msg\<rparr>))))
      }))"

definition pauser_method ::
    "('q, 's, 'w) pauser \<Rightarrow> 'q budget \<Rightarrow> 'q pod \<Rightarrow> gotime \<Rightarrow> ('q, 's, 'w, panic + (goerr + outcome)) io" where
  "pauser_method e b p now =
     (if fmlookup (pod_annotations p) AnnotationPausedAt \<noteq> None then
        State_Monad.return (Inr (Inr \<lparr>oc_action = ActionPause, oc_acted = False, oc_podKey = podKey p,
          oc_reason = ''AlreadyPaused'',
          oc_message = ''Pod '' @ podKey p @ '' already carries the pause annotation.''\<rparr>))
      else through (pa_client e) (\<lambda>client. do {
        r \<leftarrow> do_patch_pod client p (stamp_pause b p now);
        case r of
          Inl err \<Rightarrow> State_Monad.return (Inr (Inl (Wrap (''stamp pause annotation on '' @ podKey p) err)))
        | Inr p' \<Rightarrow>
            (let msg = ''Paused pod '' @ podKey p' @ '' after quota exceeded.'' in
             Event (pa_recorder e) b ''Paused'' msg
               (State_Monad.return (Inr (Inr \<lparr>oc_action = ActionPause, oc_acted = True, oc_podKey = podKey p',
                  oc_reason = ''Paused'', oc_message = msg\<rparr>))))
      }))"

definition alerter_method ::
    "alerter \<Rightarrow> 'q budget \<Rightarrow> 'q pod \<Rightarrow> gotime \<Rightarrow> ('q, 's, 'w, panic + (goerr + outcome)) io" where
  "alerter_method e b p now =
     (let msg = ''Quota exceeded; AlertOnly mode '' @ em_dash @
        '' no pods modified. Top offender: '' @ podKey p @ ''.'' in
      Event (al_recorder e) b ''QuotaExceeded'' msg
        (State_Monad.return (Inr (Inr \<lparr>oc_action = ActionAlertOnly, oc_acted = False, oc_podKey = podKey p,
           oc_reason = ''QuotaExceeded'', oc_message = msg\<rparr>))))"

text \<open>The dynamic dispatch of \<open>enforcer.Enforce\<close>.\<close>

fun Enforce ::
    "('q, 's, 'w) enforcer_value \<Rightarrow> ('q, 's) k8s \<Rightarrow> 'q budget \<Rightarrow> 'q pod \<Rightarrow> gotime
      \<Rightarrow> ('q, 's, 'w, panic + (goerr + outcome)) io" where
  "Enforce (EvictorValue e) L b p now = evictor_method e L b p now"
| "Enforce (PauserValue e) L b p now = pauser_method e b p now"
| "Enforce (AlerterValue e) L b p now = alerter_method e b p now"

definition reconciler_maybeEnforce ::
    "('q, 's, 'w, 'sch) GPUWorkloadBudgetReconciler \<Rightarrow> ('q, 's) k8s \<Rightarrow> 'q budget \<Rightarrow> 'q pod list \<Rightarrow> gotime
      \<Rightarrow> ('q, 's, 'w, panic + goerr option) io" where
  "reconciler_maybeEnforce R L b pods now =
     (case findStatusCondition L (conditions (status b)) ConditionQuotaExceeded of
        None \<Rightarrow> State_Monad.return (Inr None)
      | Some cond \<Rightarrow>
          if cond_status cond \<noteq> ConditionTrue then State_Monad.return (Inr None)
          else if Before now (Add (lastTransitionTime cond) (grace_of b)) then State_Monad.return (Inr None)
          else case pickWorstOffender L pods (gpuResourceName_of b) (Add now (- window_of b)) now of
              None \<Rightarrow> State_Monad.return (Inr None)
            | Some pod \<Rightarrow> do {
                out \<leftarrow> Enforce (New_value (action (enforcement (spec b))) (Client R) (Clientset R) (Recorder R))
                         L b pod now;
                case out of
                  Inl panic \<Rightarrow> State_Monad.return (Inl panic)
                | Inr (Inl err) \<Rightarrow> State_Monad.return
                    (Inr (Some (Wrap (''enforce '' @ action (enforcement (spec b))) err)))
                | Inr (Inr oc) \<Rightarrow> do {
                    _ \<leftarrow> emit (CounterInc enforcementActionsTotal
                      [budget_namespace b, budget_name b, oc_action oc]);
                    through (Client R) (\<lambda>client. do {
                      p \<leftarrow> do_patch_status client b (b\<lparr>status := (status b)\<lparr>lastEnforcementAt := Some now\<rparr>\<rparr>);
                      State_Monad.return (Inr (case p of
                          Inl err \<Rightarrow> Some (Wrap ''patch last enforcement time'' err)
                        | Inr _ \<Rightarrow> None))
                    })
                  }
              })"

text \<open>The reconciler as \<open>cmd/main.go\<close> puts it together: every dependency is set.\<close>

definition main_reconciler ::
    "('q, 's, 'w) api \<Rightarrow> 'sch \<Rightarrow> ('q, 's, 'w, 'sch) GPUWorkloadBudgetReconciler" where
  "main_reconciler A s =
     \<lparr>Client = Some A, Scheme = Some s, Clock = Some (wallClock A), Clientset = Some (evict A),
      Recorder = Some (EventRecorder ''gwb-operator'')\<rparr>"

subsection \<open>Complete wiring\<close>

text \<open>What ends without a panic.\<close>

definition calmly :: "('q, 's, 'w, 'a) io \<Rightarrow> ('q, 's, 'w, panic + 'a) io" where
  "calmly m = do { x \<leftarrow> m; State_Monad.return (Inr x) }"

lemma through_Some [simp]: "through (Some x) call = call x"
  by (simp add: through_def)

lemma through_None [simp]: "through None call = State_Monad.return (Inl NilDereference)"
  by (simp add: through_def)

lemma calmly_bind: "calmly (State_Monad.bind m f) = State_Monad.bind m (\<lambda>x. calmly (f x))"
  by (simp add: calmly_def)

lemma calmly_return [simp]: "calmly (State_Monad.return x) = State_Monad.return (Inr x)"
  by (simp add: calmly_def)

lemma calmly_if: "calmly (if c then m else n) = (if c then calmly m else calmly n)"
  by simp

lemma calmly_option:
  "calmly (case r of None \<Rightarrow> m | Some x \<Rightarrow> f x) = (case r of None \<Rightarrow> calmly m | Some x \<Rightarrow> calmly (f x))"
  by (cases r) simp_all

lemma calmly_sum:
  "calmly (case r of Inl e \<Rightarrow> f e | Inr x \<Rightarrow> g x) = (case r of Inl e \<Rightarrow> calmly (f e) | Inr x \<Rightarrow> calmly (g x))"
  by (cases r) simp_all

lemmas calmly_rules = calmly_bind calmly_return calmly_if calmly_option calmly_sum

lemma method_wired:
  "evictor_method \<lparr>ev_clientset = Some (evict A), ev_recorder = Some r\<rparr> L b p now =
    calmly (evictor_Enforce L A b p now)"
  "pauser_method \<lparr>pa_client = Some A, pa_recorder = Some r\<rparr> b p now = calmly (pauser_Enforce A b p now)"
  "alerter_method \<lparr>al_recorder = Some r\<rparr> b p now = calmly (alerter_Enforce b p now)"
  by (simp_all only: evictor_method_def evictor_Enforce_def pauser_method_def pauser_Enforce_def
      alerter_method_def alerter_Enforce_def do_evict_def Event_def Let_def calmly_rules through_Some
      evictor.simps pauser.simps alerter.simps)

lemma Enforce_wired:
  "Enforce (New_value act (Some A) (Some (evict A)) (Some r)) L b p now = calmly (New act L A b p now)"
  by (simp add: New_value_def New_def method_wired)

lemma calmly_then:
  "State_Monad.bind (calmly m) (case_sum f g) = State_Monad.bind m g"
  by (simp add: calmly_def)

lemma bind_same: "(\<And>x. f x = g x) \<Longrightarrow> State_Monad.bind m f = State_Monad.bind m g"
  by (rule arg_cong [where f = "State_Monad.bind m"]) (rule ext)

lemma step_wired:
  "State_Monad.bind (Enforce (New_value act (Some A) (Some (evict A)) (Some r)) L b p now) (case_sum f g) =
    State_Monad.bind (New act L A b p now) g"
  by (simp add: Enforce_wired calmly_then)

lemma main_wired:
  "reconciler_maybeEnforce (main_reconciler A s) L b pods now = calmly (maybeEnforce L A b pods now)"
proof -
  have c: "Client (main_reconciler A s) = Some A" "Clientset (main_reconciler A s) = Some (evict A)"
    "Recorder (main_reconciler A s) = Some (EventRecorder ''gwb-operator'')"
    by (simp_all add: main_reconciler_def)
  show ?thesis
    unfolding reconciler_maybeEnforce_def maybeEnforce_def c step_wired calmly_option calmly_if calmly_bind
      calmly_return through_Some
    by (auto intro!: bind_same simp: calmly_rules split: option.split sum.split)
qed

subsection \<open>Missing dependencies\<close>

text \<open>Only evictions use the clientset.\<close>

lemma clientset_unused:
  assumes "configured_action b \<noteq> ActionEvict"
  shows "reconciler_maybeEnforce (R\<lparr>Clientset := c\<rparr>) L b pods now = reconciler_maybeEnforce R L b pods now"
proof -
  have "New_value (action (enforcement (spec b))) (Client (R\<lparr>Clientset := c\<rparr>)) (Clientset (R\<lparr>Clientset := c\<rparr>))
      (Recorder (R\<lparr>Clientset := c\<rparr>)) =
    New_value (action (enforcement (spec b))) (Client R) (Clientset R) (Recorder R)"
    using assms by (simp add: New_value_def configured_action_def)
  moreover have "Client (R\<lparr>Clientset := c\<rparr>) = Client R" by simp
  ultimately show ?thesis unfolding reconciler_maybeEnforce_def by (simp only:)
qed

lemma eviction_without_recorder:
  assumes "pod_deletionTimestamp p = None"
  shows "emits (Enforce (New_value ActionEvict c (Some cs) None) L b p now) (\<lambda>x calls. \<exists>res.
    calls = [eviction_request b p res] \<and> (res = None \<longrightarrow> x = Inl NilDereference))"
  using assms
  by (auto simp: New_value_def evictor_method_def Event_def eviction_request_def Let_def
      intro!: emits_bind emits_perform emits_option emits_return emits_if)

lemma pause_without_recorder:
  assumes "\<not> paused p"
  shows "emits (Enforce (New_value ActionPause (Some A) cs None) L b p now) (\<lambda>x calls. \<exists>res.
    calls = [PatchPod p (stamp_pause b p now) res] \<and> (\<forall>p'. res = Inr p' \<longrightarrow> x = Inl NilDereference))"
  using assms
  by (auto simp: New_value_def pauser_method_def paused_def Event_def do_patch_pod_def Let_def
      intro!: emits_bind emits_perform emits_sum emits_return)

text \<open>When the gate is open and there is an offender, the step is its enforcement and what follows.\<close>

lemma open_step:
  assumes "gate L b now" and "offender L b pods now = Some p"
    and "emits (Enforce (New_value (configured_action b) (Client R) (Clientset R) (Recorder R)) L b p now)
      (\<lambda>x calls. \<exists>c. calls = [c] \<and> (P c \<longrightarrow> x = Inl NilDereference) \<and> Q c)"
  shows "emits (reconciler_maybeEnforce R L b pods now)
    (\<lambda>x calls. \<exists>c rest. calls = c # rest \<and> (P c \<longrightarrow> x = Inl NilDereference \<and> rest = []) \<and> Q c)"
proof -
  obtain f where f: "findStatusCondition L (conditions (status b)) ConditionQuotaExceeded = Some f"
      "cond_status f = ConditionTrue" "\<not> Before now (Add (lastTransitionTime f) (grace_of b))"
    using assms(1) by (auto simp: gate_def go_defs split: option.splits)
  have off: "pickWorstOffender L pods (gpuResourceName_of b) (Add now (- window_of b)) now = Some p"
    using assms(2) by (simp add: offender_def)
  show ?thesis
    unfolding reconciler_maybeEnforce_def f(1) off option.case configured_action_def [symmetric]
    by (simp only: f(2,3) simp_thms if_False, rule emits_bind, rule emits_conseq [OF assms(3)])
      (auto simp: through_def do_patch_status_def intro!: emits_bind emits_return emits_emit emits_perform
        split: sum.split option.split)
qed

text \<open>
  Without a recorder a step that changes the pod panics right after the change: no event, no
  count, no enforcement time.
\<close>

lemma acted_unrecorded:
  assumes "gate L b now" and "offender L b pods now = Some p"
    and "configured_action b = ActionEvict \<or> configured_action b = ActionPause \<and> \<not> paused p"
    and "Client R = Some A" and "Clientset R = Some cs" and "Recorder R = None"
  shows "emits (reconciler_maybeEnforce R L b pods now) (\<lambda>x calls. \<exists>c rest.
    calls = c # rest \<and> (mutated_pod c \<longrightarrow> x = Inl NilDereference \<and> rest = []) \<and>
    due_call (configured_action b) b p now c)"
proof (rule open_step [OF assms(1,2)], unfold assms(4-6), use assms(3) in \<open>elim disjE conjE\<close>)
  assume a: "configured_action b = ActionEvict"
  show "emits (Enforce (New_value (configured_action b) (Some A) (Some cs) None) L b p now)
      (\<lambda>x calls. \<exists>c. calls = [c] \<and> (mutated_pod c \<longrightarrow> x = Inl NilDereference) \<and>
        due_call (configured_action b) b p now c)"
    unfolding a by (rule emits_conseq [OF eviction_without_recorder [OF offender_alive [OF assms(2)]]])
      (auto simp: due_call_def eviction_request_def)
next
  assume a: "configured_action b = ActionPause" and n: "\<not> paused p"
  show "emits (Enforce (New_value (configured_action b) (Some A) (Some cs) None) L b p now)
      (\<lambda>x calls. \<exists>c. calls = [c] \<and> (mutated_pod c \<longrightarrow> x = Inl NilDereference) \<and>
        due_call (configured_action b) b p now c)"
    unfolding a by (rule emits_conseq [OF pause_without_recorder [OF n]]) (auto simp: due_call_def)
qed

end
