(* ===== verification/GoHeap.thy ===== *)
theory GoHeap
  imports Prelude
begin

text \<open>
  Go's heap as far as the generated copies of \<open>api/v1alpha1\<close> need it: cells that hold
  structs and arrays, addresses handed out in order, slices that share an array, and the
  interface \<open>deep_copy\<close> between a copying method and what it promises: an equal value that
  lives in cells of its own. Pointers and slices are proved to satisfy it once their
  elements do. The parameter \<open>'c\<close> is the type of the cells.
\<close>

type_synonym loc = nat

record 'c heap =
  cells :: "loc \<Rightarrow> 'c"
  lim :: loc

definition alloc :: "'c \<Rightarrow> ('c heap, loc) state" where
  "alloc c = State (\<lambda>h. (lim h, h\<lparr>cells := (cells h)(lim h := c), lim := Suc (lim h)\<rparr>))"

definition get_cell :: "loc \<Rightarrow> ('c heap, 'c) state" where
  "get_cell l = State (\<lambda>h. (cells h l, h))"

definition put_cell :: "loc \<Rightarrow> 'c \<Rightarrow> ('c heap, unit) state" where
  "put_cell l c = State (\<lambda>h. ((), h\<lparr>cells := (cells h)(l := c)\<rparr>))"

text \<open>\<open>grows h h'\<close>: nothing that existed in \<open>h\<close> has changed in \<open>h'\<close>.\<close>

definition grows :: "'c heap \<Rightarrow> 'c heap \<Rightarrow> bool" where
  "grows h h' \<longleftrightarrow> lim h \<le> lim h' \<and> (\<forall>l < lim h. cells h' l = cells h l)"

lemma grows_refl [simp]: "grows h h"
  by (simp add: grows_def)

lemma grows_trans [trans]: "grows h h1 \<Longrightarrow> grows h1 h2 \<Longrightarrow> grows h h2"
  by (auto simp: grows_def)

lemma grows_alloc: "grows h (h\<lparr>cells := (cells h)(lim h := c), lim := Suc (lim h)\<rparr>)"
  by (simp add: grows_def)

lemma grows_store: "grows h h' \<Longrightarrow> lim h \<le> l \<Longrightarrow> grows h (h'\<lparr>cells := (cells h')(l := c)\<rparr>)"
  by (simp add: grows_def)

subsection \<open>What a value in the heap means\<close>

text \<open>
  For values of a Go type: when they are well typed in a heap, the cells they hang on, and
  the value they denote.
\<close>

record ('c, 'x, 'b) meaning =
  typed :: "'c heap \<Rightarrow> 'x \<Rightarrow> bool"
  refs :: "'c heap \<Rightarrow> 'x \<Rightarrow> loc set"
  view :: "'c heap \<Rightarrow> 'x \<Rightarrow> 'b"

text \<open>\<open>copied M h x h' y\<close>: going from \<open>h\<close> to \<open>h'\<close>, \<open>y\<close> became a copy of \<open>x\<close> in fresh cells.\<close>

definition copied ::
    "('c, 'x, 'b) meaning \<Rightarrow> 'c heap \<Rightarrow> 'x \<Rightarrow> 'c heap \<Rightarrow> 'x \<Rightarrow> bool" where
  "copied M h x h' y \<longleftrightarrow> grows h h' \<and> typed M h' y \<and> view M h' y = view M h x \<and>
     refs M h' y \<subseteq> {lim h..<lim h'}"

lemma copiedD:
  assumes "copied M h x h' y"
  shows "grows h h'" and "typed M h' y" and "view M h' y = view M h x"
    and "refs M h' y \<subseteq> {lim h..<lim h'}"
  using assms by (simp_all add: copied_def)

text \<open>
  The interface comes in two layers: what a meaning promises on its own (it hangs on existing
  cells, and only on them), and on top of it what a copying method promises.
\<close>

locale heap_value =
  fixes M :: "('c, 'x, 'b) meaning"
  assumes bound: "typed M h x \<Longrightarrow> refs M h x \<subseteq> {..<lim h}"
    and frame: "typed M h x \<Longrightarrow> lim h \<le> lim h' \<Longrightarrow> (\<And>l. l \<in> refs M h x \<Longrightarrow> cells h' l = cells h l)
      \<Longrightarrow> typed M h' x \<and> refs M h' x = refs M h x \<and> view M h' x = view M h x"
begin

lemma later:
  assumes "typed M h x" and "grows h h'"
  shows "typed M h' x" and "refs M h' x = refs M h x" and "view M h' x = view M h x"
proof -
  have "cells h' l = cells h l" if "l \<in> refs M h x" for l
    using bound [OF assms(1)] assms(2) that by (auto simp: grows_def)
  then show "typed M h' x" and "refs M h' x = refs M h x" and "view M h' x = view M h x"
    using frame [OF assms(1), of h'] assms(2) by (auto simp: grows_def)
qed

lemma copied_later:
  assumes "copied M h x h1 y" and "grows h1 h2"
  shows "copied M h x h2 y"
proof -
  note c = copiedD [OF assms(1)]
  show ?thesis
    using later [OF c(2) assms(2)] c(3,4) grows_trans [OF c(1) assms(2)] assms(2)
    by (force simp: copied_def grows_def)
qed

lemma copied_earlier:
  assumes "typed M h x" and "grows h h1" and "copied M h1 x h2 y"
  shows "copied M h x h2 y"
  using later [OF assms(1,2)] assms(2,3) grows_trans [of h h1 h2]
  by (auto simp: copied_def grows_def)

text \<open>Writes that stay off the cells of the copy do not change it.\<close>

lemma untouched:
  assumes "copied M h x h1 y" and "lim h1 \<le> lim h2"
    and "\<And>l. lim h \<le> l \<Longrightarrow> l < lim h1 \<Longrightarrow> cells h2 l = cells h1 l"
  shows "typed M h2 y" and "refs M h2 y = refs M h1 y" and "view M h2 y = view M h x"
proof -
  note c = copiedD [OF assms(1)]
  have "typed M h2 y \<and> refs M h2 y = refs M h1 y \<and> view M h2 y = view M h1 y"
    using c assms(2,3) by (intro frame) auto
  then show "typed M h2 y" and "refs M h2 y = refs M h1 y" and "view M h2 y = view M h x"
    using c by simp_all
qed

end

locale deep_copy = heap_value M
  for copy :: "'x \<Rightarrow> ('c heap, 'x) state" and M :: "('c, 'x, 'b) meaning" +
  assumes copies: "typed M h x \<Longrightarrow> run_state (copy x) h = (y, h') \<Longrightarrow> copied M h x h' y"
begin

lemma step:
  assumes "typed M h x" and "grows h h1" and "run_state (copy x) h1 = (y, h2)"
  shows "copied M h x h2 y"
  using copied_earlier [OF assms(1,2)] copies [OF later(1) [OF assms(1,2)] assms(3)] by blast

text \<open>One step of a longer copy: the result is still a copy when the rest has run.\<close>

lemma step_grows:
  assumes "typed M h x" and "grows h h1" and "run_state (copy x) h1 = (y, h2)"
  shows "grows h1 h2" and "grows h h2"
proof -
  show g: "grows h1 h2" by (rule copiedD(1) [OF copies [OF later(1) [OF assms(1,2)] assms(3)]])
  show "grows h h2" by (rule grows_trans [OF assms(2) g])
qed

lemma step_then:
  assumes "typed M h x" and "grows h h1" and "run_state (copy x) h1 = (y, h2)" and "grows h2 h3"
  shows "copied M h x h3 y"
  by (rule copied_later [OF step [OF assms(1-3)] assms(4)])

text \<open>The copy is frozen, and the original not touched, whatever happens to other cells later.\<close>

lemma frozen_copy:
  assumes "typed M h x" and "run_state (copy x) h = (y, h1)"
    and "lim h1 \<le> lim h2" and "\<And>k. lim h \<le> k \<Longrightarrow> k < lim h1 \<Longrightarrow> cells h2 k = cells h1 k"
  shows "view M h2 y = view M h x" and "refs M h2 y \<inter> refs M h x = {}" and "view M h1 x = view M h x"
proof -
  note c = copies [OF assms(1,2)]
  note u = untouched [OF c assms(3,4)]
  show "view M h2 y = view M h x" by (rule u(3))
  have "refs M h2 y \<subseteq> {lim h..<lim h1}" using u(2) copiedD(4) [OF c] by simp
  moreover have "refs M h x \<subseteq> {..<lim h}" by (rule bound [OF assms(1)])
  ultimately show "refs M h2 y \<inter> refs M h x = {}"
    by (auto simp: disjoint_iff subset_iff) (metis leD)
  show "view M h1 x = view M h x" by (rule later(3) [OF assms(1) copiedD(1) [OF c]])
qed

end

lemma deep_copyI:
  "heap_value M \<Longrightarrow> (\<And>h x y h'. typed M h x \<Longrightarrow> run_state (c x) h = (y, h') \<Longrightarrow> copied M h x h' y)
    \<Longrightarrow> deep_copy c M"
  by (simp add: deep_copy_def deep_copy_axioms_def)

lemma deep_copy_value: "deep_copy c M \<Longrightarrow> heap_value M"
  by (simp add: deep_copy_def)

subsection \<open>Meanings of structs\<close>

text \<open>A value without references, a field of a struct, two parts together, and a change of view.\<close>

definition plain :: "('c, 'x, 'x) meaning" where
  "plain = \<lparr>typed = (\<lambda>_ _. True), refs = (\<lambda>_ _. {}), view = (\<lambda>_ x. x)\<rparr>"

definition field :: "('y \<Rightarrow> 'x) \<Rightarrow> ('c, 'x, 'b) meaning \<Rightarrow> ('c, 'y, 'b) meaning" where
  "field f M = \<lparr>typed = (\<lambda>h y. typed M h (f y)), refs = (\<lambda>h y. refs M h (f y)),
     view = (\<lambda>h y. view M h (f y))\<rparr>"

definition both ::
    "('c, 'x, 'a) meaning \<Rightarrow> ('c, 'x, 'b) meaning \<Rightarrow> ('c, 'x, 'a \<times> 'b) meaning" where
  "both M N = \<lparr>typed = (\<lambda>h x. typed M h x \<and> typed N h x), refs = (\<lambda>h x. refs M h x \<union> refs N h x),
     view = (\<lambda>h x. (view M h x, view N h x))\<rparr>"

definition seen_as :: "('a \<Rightarrow> 'b) \<Rightarrow> ('c, 'x, 'a) meaning \<Rightarrow> ('c, 'x, 'b) meaning" where
  "seen_as g M = \<lparr>typed = typed M, refs = refs M, view = (\<lambda>h x. g (view M h x))\<rparr>"

lemma heap_value_plain: "heap_value plain"
  by unfold_locales (auto simp: plain_def)

lemma heap_value_field:
  assumes "heap_value M"
  shows "heap_value (field f M)"
proof
  fix h h' :: "'a heap" and x
  assume "typed (field f M) h x"
  then have t: "typed M h (f x)" by (simp add: field_def)
  show "refs (field f M) h x \<subseteq> {..<lim h}"
    using heap_value.bound [OF assms t] by (simp add: field_def)
  show "typed (field f M) h' x \<and> refs (field f M) h' x = refs (field f M) h x \<and>
      view (field f M) h' x = view (field f M) h x"
    if "lim h \<le> lim h'" and "\<And>l. l \<in> refs (field f M) h x \<Longrightarrow> cells h' l = cells h l"
    using heap_value.frame [OF assms t, of h'] that by (simp add: field_def)
qed

lemma heap_value_both:
  assumes "heap_value M" and "heap_value N"
  shows "heap_value (both M N)"
proof
  fix h h' :: "'a heap" and x
  assume t: "typed (both M N) h x"
  then have m: "typed M h x" and n: "typed N h x" by (simp_all add: both_def)
  show "refs (both M N) h x \<subseteq> {..<lim h}"
    using heap_value.bound [OF assms(1) m] heap_value.bound [OF assms(2) n] by (simp add: both_def)
  show "typed (both M N) h' x \<and> refs (both M N) h' x = refs (both M N) h x \<and>
      view (both M N) h' x = view (both M N) h x"
    if "lim h \<le> lim h'" and "\<And>l. l \<in> refs (both M N) h x \<Longrightarrow> cells h' l = cells h l"
    using heap_value.frame [OF assms(1) m, of h'] heap_value.frame [OF assms(2) n, of h'] that
    by (simp add: both_def)
qed

lemma heap_value_seen_as:
  assumes "heap_value M"
  shows "heap_value (seen_as g M)"
proof
  fix h h' :: "'a heap" and x
  assume "typed (seen_as g M) h x"
  then have t: "typed M h x" by (simp add: seen_as_def)
  show "refs (seen_as g M) h x \<subseteq> {..<lim h}"
    using heap_value.bound [OF assms t] by (simp add: seen_as_def)
  show "typed (seen_as g M) h' x \<and> refs (seen_as g M) h' x = refs (seen_as g M) h x \<and>
      view (seen_as g M) h' x = view (seen_as g M) h x"
    if "lim h \<le> lim h'" and "\<And>l. l \<in> refs (seen_as g M) h x \<Longrightarrow> cells h' l = cells h l"
    using heap_value.frame [OF assms t, of h'] that by (simp add: seen_as_def)
qed

lemmas heap_value_struct = heap_value_seen_as heap_value_both heap_value_field heap_value_plain

lemma copied_plain [simp]: "copied plain h x h' y \<longleftrightarrow> grows h h' \<and> y = x"
  by (auto simp: copied_def plain_def)

lemma copied_field [simp]: "copied (field f M) h x h' y \<longleftrightarrow> copied M h (f x) h' (f y)"
  by (simp add: copied_def field_def)

lemma copied_both [simp]: "copied (both M N) h x h' y \<longleftrightarrow> copied M h x h' y \<and> copied N h x h' y"
  by (auto simp: copied_def both_def)

lemma copied_seen_as: "copied M h x h' y \<Longrightarrow> copied (seen_as g M) h x h' y"
  by (simp add: copied_def seen_as_def)

lemma typed_struct [simp]:
  "typed plain h x" "typed (field f M) h y \<longleftrightarrow> typed M h (f y)"
  "typed (both M N) h x \<longleftrightarrow> typed M h x \<and> typed N h x" "typed (seen_as g M) h x \<longleftrightarrow> typed M h x"
  by (simp_all add: plain_def field_def both_def seen_as_def)

interpretation plain_copy: deep_copy State_Monad.return plain
  by (rule deep_copyI [OF heap_value_plain]) auto

subsection \<open>Pointers\<close>

text \<open>
  The generated \<open>DeepCopy\<close> of a type: nil for nil, else \<open>out := new(T)\<close>,
  \<open>in.DeepCopyInto(out)\<close> and \<open>out\<close>. The injection and projection say which cells hold a \<open>T\<close>.
\<close>

definition copy_pointer ::
    "('x \<Rightarrow> 'c) \<Rightarrow> ('c \<Rightarrow> 'x) \<Rightarrow> 'x \<Rightarrow> ('x \<Rightarrow> ('c heap, 'x) state) \<Rightarrow> loc option
      \<Rightarrow> ('c heap, loc option) state" where
  "copy_pointer box unbox zero into p = (case p of
       None \<Rightarrow> State_Monad.return None
     | Some l \<Rightarrow> do {
         out \<leftarrow> alloc (box zero);
         c \<leftarrow> get_cell l;
         x \<leftarrow> into (unbox c);
         _ \<leftarrow> put_cell out (box x);
         State_Monad.return (Some out)
       })"

definition pointer ::
    "('x \<Rightarrow> 'c) \<Rightarrow> ('c \<Rightarrow> 'x) \<Rightarrow> ('c, 'x, 'b) meaning \<Rightarrow> ('c, loc option, 'b option) meaning" where
  "pointer box unbox M =
     \<lparr>typed = (\<lambda>h p. case p of None \<Rightarrow> True
        | Some l \<Rightarrow> l < lim h \<and> cells h l = box (unbox (cells h l)) \<and> typed M h (unbox (cells h l))),
      refs = (\<lambda>h p. case p of None \<Rightarrow> {} | Some l \<Rightarrow> insert l (refs M h (unbox (cells h l)))),
      view = (\<lambda>h p. map_option (\<lambda>l. view M h (unbox (cells h l))) p)\<rparr>"

lemma heap_value_pointer:
  assumes "heap_value M"
  shows "heap_value (pointer box unbox M)"
proof
  fix h h' :: "'a heap" and p
  assume t: "typed (pointer box unbox M) h p"
  show "refs (pointer box unbox M) h p \<subseteq> {..<lim h}"
    using t heap_value.bound [OF assms] by (auto simp: pointer_def split: option.splits)
  show "typed (pointer box unbox M) h' p \<and> refs (pointer box unbox M) h' p = refs (pointer box unbox M) h p \<and>
      view (pointer box unbox M) h' p = view (pointer box unbox M) h p"
    if g: "lim h \<le> lim h'" and same: "\<And>l. l \<in> refs (pointer box unbox M) h p \<Longrightarrow> cells h' l = cells h l"
  proof (cases p)
    case None
    then show ?thesis by (simp add: pointer_def)
  next
    case (Some l)
    have "cells h' l = cells h l" using same Some by (simp add: pointer_def)
    moreover have "cells h' k = cells h k" if "k \<in> refs M h (unbox (cells h l))" for k
      using same Some that by (simp add: pointer_def)
    ultimately show ?thesis
      using t g heap_value.frame [OF assms, of h "unbox (cells h l)" h'] by (auto simp: pointer_def Some)
  qed
qed

context deep_copy
begin

lemma copy_pointer_copied:
  assumes unbox: "\<And>x. unbox (box x) = x" and l: "l < lim h" "typed M h (unbox (cells h l))"
    and run: "run_state (copy_pointer box unbox zero copy (Some l)) h = (p, h')"
  shows "copied (pointer box unbox M) h (Some l) h' p"
proof -
  define h1 where "h1 = h\<lparr>cells := (cells h)(lim h := box zero), lim := Suc (lim h)\<rparr>"
  have g1: "grows h h1" by (simp add: h1_def grows_alloc)
  have same: "cells h1 l = cells h l" using l(1) by (simp add: h1_def)
  obtain x h2 where cp: "run_state (copy (unbox (cells h l))) h1 = (x, h2)" by force
  have p: "p = Some (lim h)" and h': "h' = h2\<lparr>cells := (cells h2)(lim h := box x)\<rparr>"
    using run cp same
    by (auto simp: copy_pointer_def alloc_def get_cell_def put_cell_def h1_def State_Monad.return_def)
  note t1 = later [OF l(2) g1]
  note c = copies [OF t1(1) cp]
  note d = copiedD [OF c]
  have off: "cells h' k = cells h2 k" if "lim h1 \<le> k" for k
    using that by (simp add: h' h1_def)
  note u = untouched [OF c, of h'] 
  have u: "typed M h' x" "refs M h' x = refs M h2 x" "view M h' x = view M h1 (unbox (cells h l))"
    using u off by (simp_all add: h')
  have g: "grows h h'"
    unfolding h' using grows_store [OF grows_trans [OF g1 d(1)], of "lim h"] by simp
  have "lim h < lim h2" using d(1) by (simp add: grows_def h1_def)
  moreover have "refs M h2 x \<subseteq> {lim h..<lim h2}" using d(4) by (auto simp: h1_def)
  ultimately show ?thesis
    using g u t1(3) by (auto simp: copied_def pointer_def p h' unbox)
qed

lemma pointer_deep_copy:
  assumes unbox: "\<And>x. unbox (box x) = x"
  shows "deep_copy (copy_pointer box unbox zero copy) (pointer box unbox M)"
proof (rule deep_copyI [OF heap_value_pointer [OF heap_value_axioms]])
  fix h p y h'
  assume t: "typed (pointer box unbox M) h p"
    and run: "run_state (copy_pointer box unbox zero copy p) h = (y, h')"
  show "copied (pointer box unbox M) h p h' y"
  proof (cases p)
    case None
    then show ?thesis using run by (auto simp: copy_pointer_def copied_def pointer_def)
  next
    case (Some l)
    have l: "l < lim h" "typed M h (unbox (cells h l))" using t by (simp_all add: pointer_def Some)
    show ?thesis unfolding Some by (rule copy_pointer_copied [OF unbox l run [unfolded Some]])
  qed
qed

end

subsection \<open>Slices\<close>

text \<open>A slice is nil, or an array with an offset and a length.\<close>

datatype slice = NilSlice | Slice loc nat nat

definition elements :: "('c \<Rightarrow> 'x list) \<Rightarrow> 'c heap \<Rightarrow> slice \<Rightarrow> 'x list" where
  "elements unbox h s = (case s of NilSlice \<Rightarrow> [] | Slice a off n \<Rightarrow> take n (drop off (unbox (cells h a))))"

text \<open>
  The generated copy of a slice: nil stays nil, else \<open>make\<close> a new array and for each index
  \<open>(*in)[i].DeepCopyInto(&(*out)[i])\<close>.
\<close>

primrec copy_elements ::
    "('x list \<Rightarrow> 'c) \<Rightarrow> ('c \<Rightarrow> 'x list) \<Rightarrow> ('x \<Rightarrow> ('c heap, 'x) state) \<Rightarrow> loc \<Rightarrow> nat \<Rightarrow> loc
      \<Rightarrow> nat list \<Rightarrow> ('c heap, unit) state" where
  "copy_elements box unbox into a off out [] = State_Monad.return ()"
| "copy_elements box unbox into a off out (i # is) = do {
     src \<leftarrow> get_cell a;
     x \<leftarrow> into (unbox src ! (off + i));
     dst \<leftarrow> get_cell out;
     _ \<leftarrow> put_cell out (box ((unbox dst)[i := x]));
     copy_elements box unbox into a off out is
   }"

definition copy_slice ::
    "('x list \<Rightarrow> 'c) \<Rightarrow> ('c \<Rightarrow> 'x list) \<Rightarrow> 'x \<Rightarrow> ('x \<Rightarrow> ('c heap, 'x) state) \<Rightarrow> slice
      \<Rightarrow> ('c heap, slice) state" where
  "copy_slice box unbox zero into s = (case s of
       NilSlice \<Rightarrow> State_Monad.return NilSlice
     | Slice a off n \<Rightarrow> do {
         out \<leftarrow> alloc (box (replicate n zero));
         _ \<leftarrow> copy_elements box unbox into a off out [0..<n];
         State_Monad.return (Slice out 0 n)
       })"

definition slice_of ::
    "('x list \<Rightarrow> 'c) \<Rightarrow> ('c \<Rightarrow> 'x list) \<Rightarrow> ('c, 'x, 'b) meaning \<Rightarrow> ('c, slice, 'b list option) meaning" where
  "slice_of box unbox M =
     \<lparr>typed = (\<lambda>h s. case s of NilSlice \<Rightarrow> True
        | Slice a off n \<Rightarrow> a < lim h \<and> cells h a = box (unbox (cells h a)) \<and>
            off + n \<le> length (unbox (cells h a)) \<and> (\<forall>x \<in> set (elements unbox h s). typed M h x)),
      refs = (\<lambda>h s. case s of NilSlice \<Rightarrow> {}
        | Slice a off n \<Rightarrow> insert a (\<Union>x \<in> set (elements unbox h s). refs M h x)),
      view = (\<lambda>h s. case s of NilSlice \<Rightarrow> None
        | Slice a off n \<Rightarrow> Some (map (view M h) (elements unbox h s)))\<rparr>"

lemma heap_value_slice:
  assumes "heap_value M"
  shows "heap_value (slice_of box unbox M)"
proof
  fix h h' :: "'a heap" and s
  assume t: "typed (slice_of box unbox M) h s"
  show "refs (slice_of box unbox M) h s \<subseteq> {..<lim h}"
    using t heap_value.bound [OF assms] by (fastforce simp: slice_of_def split: slice.splits)
  show "typed (slice_of box unbox M) h' s \<and> refs (slice_of box unbox M) h' s = refs (slice_of box unbox M) h s \<and>
      view (slice_of box unbox M) h' s = view (slice_of box unbox M) h s"
    if g: "lim h \<le> lim h'" and same: "\<And>l. l \<in> refs (slice_of box unbox M) h s \<Longrightarrow> cells h' l = cells h l"
  proof (cases s)
    case NilSlice
    then show ?thesis by (simp add: slice_of_def)
  next
    case (Slice a off n)
    have a: "cells h' a = cells h a" using same Slice by (simp add: slice_of_def)
    then have e: "elements unbox h' s = elements unbox h s" by (simp add: elements_def Slice)
    have "typed M h' x \<and> refs M h' x = refs M h x \<and> view M h' x = view M h x"
      if x: "x \<in> set (elements unbox h s)" for x
      using t g same x by (intro heap_value.frame [OF assms]) (auto simp: slice_of_def Slice)
    then show ?thesis using t g a e by (auto simp: slice_of_def Slice)
  qed
qed

context deep_copy
begin

text \<open>
  The loop, from index \<open>k\<close> on: the elements before \<open>k\<close> are copies, the array \<open>out\<close> is the
  only older cell it writes.
\<close>

lemma copy_elements_copied:
  assumes unbox: "\<And>xs. unbox (box xs) = xs"
    and a: "a < lim h0" "off + n \<le> length (unbox (cells h0 a))"
    and elems: "\<And>i. i < n \<Longrightarrow> typed M h0 (unbox (cells h0 a) ! (off + i))"
    and "k \<le> n" and "grows h0 h" and "lim h0 < lim h" and "cells h (lim h0) = box ys" and "length ys = n"
    and "\<And>i. i < k \<Longrightarrow> copied M h0 (unbox (cells h0 a) ! (off + i)) h (ys ! i) \<and> lim h0 \<notin> refs M h (ys ! i)"
    and "run_state (copy_elements box unbox copy a off (lim h0) [k..<n]) h = (u, h')"
  shows "grows h0 h' \<and> lim h0 < lim h' \<and> (\<exists>zs. cells h' (lim h0) = box zs \<and> length zs = n \<and>
    (\<forall>i < n. copied M h0 (unbox (cells h0 a) ! (off + i)) h' (zs ! i)))"
  using assms(5-)
proof (induction "n - k" arbitrary: k h ys)
  case 0
  then show ?case by auto
next
  case (Suc m)
  let ?x = "\<lambda>i. unbox (cells h0 a) ! (off + i)"
  from Suc.hyps(2) have k: "k < n" "m = n - Suc k" by auto
  have src: "cells h a = cells h0 a" using Suc.prems(2) a(1) by (simp add: grows_def)
  obtain y h1 where cp: "run_state (copy (?x k)) h = (y, h1)" by force
  let ?zs = "ys[k := y]"
  define h2 where "h2 = h1\<lparr>cells := (cells h1)(lim h0 := box ?zs)\<rparr>"
  have c: "copied M h (?x k) h1 y"
    using copies [OF later(1) [OF elems [OF k(1)] Suc.prems(2)] cp] .
  note d = copiedD [OF c]
  have dst: "cells h1 (lim h0) = box ys" using d(1) Suc.prems(3,4) by (simp add: grows_def)
  have g1: "grows h0 h1" using grows_trans [OF Suc.prems(2) d(1)] .
  have g2: "grows h0 h2" unfolding h2_def using grows_store [OF g1] by simp
  have l2: "lim h0 < lim h2" using d(1) Suc.prems(3) by (simp add: h2_def grows_def)
  have keep: "copied M h0 (?x i) h2 z \<and> lim h0 \<notin> refs M h2 z"
    if z: "copied M h0 (?x i) h1 z" "lim h0 \<notin> refs M h1 z" for i z
  proof -
    note e = copiedD [OF z(1)]
    have "typed M h2 z \<and> refs M h2 z = refs M h1 z \<and> view M h2 z = view M h1 z"
      using e(2) z(2) by (intro frame) (auto simp: h2_def)
    then show ?thesis using e g2 z(2) by (auto simp: copied_def h2_def)
  qed
  have new: "copied M h0 (?x k) h1 y"
    using step [OF elems [OF k(1)] Suc.prems(2) cp] .
  have fresh: "lim h0 \<notin> refs M h1 y" using d(4) Suc.prems(3) by auto
  have all: "copied M h0 (?x i) h2 (?zs ! i) \<and> lim h0 \<notin> refs M h2 (?zs ! i)" if "i < Suc k" for i
  proof (cases "i = k")
    case True
    then show ?thesis using keep [OF new fresh] k(1) Suc.prems(5) by simp
  next
    case False
    with that have i: "i < k" by simp
    note old = Suc.prems(6) [OF i]
    have "copied M h0 (?x i) h1 (ys ! i)" using copied_later old d(1) by blast
    moreover have "lim h0 \<notin> refs M h1 (ys ! i)"
      using later(2) [OF copiedD(2) d(1)] old by blast
    ultimately show ?thesis using keep i by simp
  qed
  have "run_state (copy_elements box unbox copy a off (lim h0) [Suc k..<n]) h2 = (u, h')"
    using Suc.prems(7) k(1) src cp dst
    by (simp add: upt_conv_Cons get_cell_def put_cell_def h2_def unbox)
  from Suc.hyps(1) [OF k(2) _ g2 l2 _ _ all this] k(1) Suc.prems(5) show ?case
    by (simp add: h2_def)
qed

lemma slice_deep_copy:
  assumes unbox: "\<And>xs. unbox (box xs) = xs"
  shows "deep_copy (copy_slice box unbox zero copy) (slice_of box unbox M)"
proof (rule deep_copyI [OF heap_value_slice [OF heap_value_axioms]])
  fix h s y h'
  assume t: "typed (slice_of box unbox M) h s"
    and run: "run_state (copy_slice box unbox zero copy s) h = (y, h')"
  show "copied (slice_of box unbox M) h s h' y"
  proof (cases s)
    case NilSlice
    then show ?thesis using run by (auto simp: copy_slice_def copied_def slice_of_def)
  next
    case (Slice a off n)
    let ?xs = "unbox (cells h a)"
    define h1 where "h1 = h\<lparr>cells := (cells h)(lim h := box (replicate n zero)), lim := Suc (lim h)\<rparr>"
    have a: "a < lim h" "off + n \<le> length ?xs"
      using t by (simp_all add: slice_of_def Slice)
    have es: "elements unbox h s = map (\<lambda>i. ?xs ! (off + i)) [0..<n]"
      using a(2) by (intro nth_equalityI) (auto simp: elements_def Slice)
    have elems: "typed M h (?xs ! (off + i))" if "i < n" for i
      using t that es by (simp add: slice_of_def Slice)
    obtain h2 where lp: "run_state (copy_elements box unbox copy a off (lim h) [0..<n]) h1 = ((), h2)"
      by (metis (full_types) surj_pair unit.exhaust)
    have y: "y = Slice (lim h) 0 n" and h': "h' = h2"
      using run lp by (auto simp: copy_slice_def Slice alloc_def h1_def)
    have "grows h h2 \<and> lim h < lim h2 \<and> (\<exists>zs. cells h2 (lim h) = box zs \<and> length zs = n \<and>
        (\<forall>i < n. copied M h (?xs ! (off + i)) h2 (zs ! i)))"
      by (rule copy_elements_copied [where ys = "replicate n zero", OF unbox a elems _ _ _ _ _ _ lp])
        (simp_all add: h1_def grows_alloc)
    then obtain zs where g: "grows h h2" "lim h < lim h2"
      and zs: "cells h2 (lim h) = box zs" "length zs = n"
      and c: "\<And>i. i < n \<Longrightarrow> copied M h (?xs ! (off + i)) h2 (zs ! i)" by blast
    have ez: "elements unbox h2 y = zs" using zs by (simp add: elements_def y unbox)
    have mem: "\<exists>i < n. z = zs ! i" if "z \<in> set zs" for z
      using that zs(2) by (metis in_set_conv_nth)
    have "typed M h2 z" if "z \<in> set zs" for z
      using mem [OF that] copiedD(2) [OF c] by auto
    moreover have "refs M h2 z \<subseteq> {lim h..<lim h2}" if "z \<in> set zs" for z
      using mem [OF that] copiedD(4) [OF c] by blast
    moreover have "map (view M h2) zs = map (view M h) (elements unbox h s)"
      using zs(2) copiedD(3) [OF c] by (intro nth_equalityI) (simp_all add: es)
    ultimately show ?thesis
      using g zs ez by (auto simp: copied_def slice_of_def h' y Slice unbox)
  qed
qed

end

end
