(* ===== verification/DeepCopy.thy ===== *)
theory DeepCopy
  imports K8sApi GoHeap
begin

text \<open>
  The generated copies (\<open>api/v1alpha1/zz_generated.deepcopy.go\<close>) on Go's heap. The structs of
  the API group are laid out as in \<open>gpuworkloadbudget\_types.go\<close>, with pointers and slices as
  addresses; values of the struct types of \<open>apimachinery\<close> (object and list metadata, label
  selectors, quantities, conditions, times) are of the parameter type \<open>'v\<close>, and their own
  \<open>DeepCopy\<close> methods are parameters, which are assumed to satisfy the interface \<open>deep_copy\<close>.
  Each struct has a meaning: the record of \<open>K8sApi\<close> it denotes.
\<close>

subsection \<open>The layout of the structs\<close>

record typemeta =
  tm_kind :: string
  tm_apiVersion :: string

record 'v spec_struct =
  s_selector :: 'v
  s_quota :: "'v quota"
  s_enforcement :: enforcement
  s_gpuResourceName :: string

record 'v status_struct =
  s_consumedGPUHours :: 'v
  s_remainingGPUHours :: 'v
  s_trackedPods :: "32 word"
  s_lastEnforcementAt :: "loc option"
  s_observedGeneration :: "64 word"
  s_conditions :: slice

record 'v budget_struct =
  s_typeMeta :: typemeta
  s_objectMeta :: 'v
  s_spec :: "'v spec_struct"
  s_status :: "'v status_struct"

record 'v list_struct =
  s_listTypeMeta :: typemeta
  s_listMeta :: 'v
  s_items :: slice

datatype 'v cell =
    LibCell (the_lib: 'v)
  | EnforcementCell (the_enforcement: enforcement)
  | QuotaCell (the_quota: "'v quota")
  | SpecCell (the_spec: "'v spec_struct")
  | StatusCell (the_status: "'v status_struct")
  | BudgetCell (the_budget: "'v budget_struct")
  | ListCell (the_list: "'v list_struct")
  | ConditionArray (the_conditions: "'v list")
  | BudgetArray (the_budgets: "'v budget_struct list")

type_synonym ('v, 'x) copier = "'x \<Rightarrow> ('v cell heap, 'x) state"

text \<open>\<open>zeroValue\<close> is the zero value of a struct of the library.\<close>

record 'v lib_copies =
  zeroValue :: 'v
  copySelector :: "('v, 'v) copier"
  copyQuantity :: "('v, 'v) copier"
  copyObjectMeta :: "('v, 'v) copier"
  copyListMeta :: "('v, 'v) copier"
  copyCondition :: "('v, 'v) copier"
  copyTime :: "('v, loc option) copier"

definition zero_enforcement :: enforcement where
  "zero_enforcement = \<lparr>action = [], gracePeriodSeconds = 0\<rparr>"

definition zero_quota :: "'v lib_copies \<Rightarrow> 'v quota" where
  "zero_quota C = \<lparr>gpuHours = zeroValue C, windowHours = 0\<rparr>"

definition zero_spec :: "'v lib_copies \<Rightarrow> 'v spec_struct" where
  "zero_spec C = \<lparr>s_selector = zeroValue C, s_quota = zero_quota C, s_enforcement = zero_enforcement,
     s_gpuResourceName = []\<rparr>"

definition zero_status :: "'v lib_copies \<Rightarrow> 'v status_struct" where
  "zero_status C = \<lparr>s_consumedGPUHours = zeroValue C, s_remainingGPUHours = zeroValue C,
     s_trackedPods = 0, s_lastEnforcementAt = None, s_observedGeneration = 0, s_conditions = NilSlice\<rparr>"

definition zero_typemeta :: typemeta where
  "zero_typemeta = \<lparr>tm_kind = [], tm_apiVersion = []\<rparr>"

definition zero_budget :: "'v lib_copies \<Rightarrow> 'v budget_struct" where
  "zero_budget C = \<lparr>s_typeMeta = zero_typemeta, s_objectMeta = zeroValue C,
     s_spec = zero_spec C, s_status = zero_status C\<rparr>"

definition zero_list :: "'v lib_copies \<Rightarrow> 'v list_struct" where
  "zero_list C = \<lparr>s_listTypeMeta = zero_typemeta, s_listMeta = zeroValue C, s_items = NilSlice\<rparr>"

subsection \<open>DeepCopyInto\<close>

text \<open>
  \<open>in\<close> is the struct the receiver points to, the result is the struct written to \<open>*out\<close>:
  it starts as \<open>*out = *in\<close>, and the assignments follow in the order of the code.
\<close>

definition Enforcement_DeepCopyInto :: "('v, enforcement) copier" where
  "Enforcement_DeepCopyInto x = State_Monad.return x"

definition Quota_DeepCopyInto :: "'v lib_copies \<Rightarrow> ('v, 'v quota) copier" where
  "Quota_DeepCopyInto C x = do {
     let out = x;
     g \<leftarrow> copyQuantity C (gpuHours x);
     State_Monad.return (out\<lparr>gpuHours := g\<rparr>)
   }"

definition GPUWorkloadBudgetSpec_DeepCopyInto :: "'v lib_copies \<Rightarrow> ('v, 'v spec_struct) copier" where
  "GPUWorkloadBudgetSpec_DeepCopyInto C x = do {
     let out = x;
     s \<leftarrow> copySelector C (s_selector x);
     let out = out\<lparr>s_selector := s\<rparr>;
     q \<leftarrow> Quota_DeepCopyInto C (s_quota x);
     let out = out\<lparr>s_quota := q\<rparr>;
     State_Monad.return (out\<lparr>s_enforcement := s_enforcement x\<rparr>)
   }"

definition copy_conditions :: "'v lib_copies \<Rightarrow> ('v, slice) copier" where
  "copy_conditions C = copy_slice ConditionArray the_conditions (zeroValue C) (copyCondition C)"

definition GPUWorkloadBudgetStatus_DeepCopyInto :: "'v lib_copies \<Rightarrow> ('v, 'v status_struct) copier" where
  "GPUWorkloadBudgetStatus_DeepCopyInto C x = do {
     let out = x;
     c \<leftarrow> copyQuantity C (s_consumedGPUHours x);
     let out = out\<lparr>s_consumedGPUHours := c\<rparr>;
     r \<leftarrow> copyQuantity C (s_remainingGPUHours x);
     let out = out\<lparr>s_remainingGPUHours := r\<rparr>;
     out \<leftarrow> (if s_lastEnforcementAt x \<noteq> None then do {
         t \<leftarrow> copyTime C (s_lastEnforcementAt x);
         State_Monad.return (out\<lparr>s_lastEnforcementAt := t\<rparr>)
       } else State_Monad.return out);
     if s_conditions x \<noteq> NilSlice then do {
         cs \<leftarrow> copy_conditions C (s_conditions x);
         State_Monad.return (out\<lparr>s_conditions := cs\<rparr>)
       } else State_Monad.return out
   }"

definition GPUWorkloadBudget_DeepCopyInto :: "'v lib_copies \<Rightarrow> ('v, 'v budget_struct) copier" where
  "GPUWorkloadBudget_DeepCopyInto C x = do {
     let out = x;
     let out = out\<lparr>s_typeMeta := s_typeMeta x\<rparr>;
     m \<leftarrow> copyObjectMeta C (s_objectMeta x);
     let out = out\<lparr>s_objectMeta := m\<rparr>;
     sp \<leftarrow> GPUWorkloadBudgetSpec_DeepCopyInto C (s_spec x);
     let out = out\<lparr>s_spec := sp\<rparr>;
     st \<leftarrow> GPUWorkloadBudgetStatus_DeepCopyInto C (s_status x);
     State_Monad.return (out\<lparr>s_status := st\<rparr>)
   }"

definition copy_items :: "'v lib_copies \<Rightarrow> ('v, slice) copier" where
  "copy_items C = copy_slice BudgetArray the_budgets (zero_budget C) (GPUWorkloadBudget_DeepCopyInto C)"

definition GPUWorkloadBudgetList_DeepCopyInto :: "'v lib_copies \<Rightarrow> ('v, 'v list_struct) copier" where
  "GPUWorkloadBudgetList_DeepCopyInto C x = do {
     let out = x;
     let out = out\<lparr>s_listTypeMeta := s_listTypeMeta x\<rparr>;
     m \<leftarrow> copyListMeta C (s_listMeta x);
     let out = out\<lparr>s_listMeta := m\<rparr>;
     if s_items x \<noteq> NilSlice then do {
         is \<leftarrow> copy_items C (s_items x);
         State_Monad.return (out\<lparr>s_items := is\<rparr>)
       } else State_Monad.return out
   }"

subsection \<open>DeepCopy and DeepCopyObject\<close>

definition Enforcement_DeepCopy :: "('v, loc option) copier" where
  "Enforcement_DeepCopy =
     copy_pointer EnforcementCell the_enforcement zero_enforcement Enforcement_DeepCopyInto"

definition Quota_DeepCopy :: "'v lib_copies \<Rightarrow> ('v, loc option) copier" where
  "Quota_DeepCopy C = copy_pointer QuotaCell the_quota (zero_quota C) (Quota_DeepCopyInto C)"

definition GPUWorkloadBudgetSpec_DeepCopy :: "'v lib_copies \<Rightarrow> ('v, loc option) copier" where
  "GPUWorkloadBudgetSpec_DeepCopy C =
     copy_pointer SpecCell the_spec (zero_spec C) (GPUWorkloadBudgetSpec_DeepCopyInto C)"

definition GPUWorkloadBudgetStatus_DeepCopy :: "'v lib_copies \<Rightarrow> ('v, loc option) copier" where
  "GPUWorkloadBudgetStatus_DeepCopy C =
     copy_pointer StatusCell the_status (zero_status C) (GPUWorkloadBudgetStatus_DeepCopyInto C)"

definition GPUWorkloadBudget_DeepCopy :: "'v lib_copies \<Rightarrow> ('v, loc option) copier" where
  "GPUWorkloadBudget_DeepCopy C =
     copy_pointer BudgetCell the_budget (zero_budget C) (GPUWorkloadBudget_DeepCopyInto C)"

definition GPUWorkloadBudgetList_DeepCopy :: "'v lib_copies \<Rightarrow> ('v, loc option) copier" where
  "GPUWorkloadBudgetList_DeepCopy C =
     copy_pointer ListCell the_list (zero_list C) (GPUWorkloadBudgetList_DeepCopyInto C)"

text \<open>
  A \<open>runtime.Object\<close> is nil, or a type together with a pointer, which may itself be nil: a
  \<open>*GPUWorkloadBudget\<close> that is nil is not the nil object.
\<close>

datatype runtime_object = NilObject | BudgetObject "loc option" | ListObject "loc option"

definition GPUWorkloadBudget_DeepCopyObject ::
    "'v lib_copies \<Rightarrow> loc option \<Rightarrow> ('v cell heap, runtime_object) state" where
  "GPUWorkloadBudget_DeepCopyObject C p = do {
     c \<leftarrow> GPUWorkloadBudget_DeepCopy C p;
     State_Monad.return (if c \<noteq> None then BudgetObject c else NilObject)
   }"

definition GPUWorkloadBudgetList_DeepCopyObject ::
    "'v lib_copies \<Rightarrow> loc option \<Rightarrow> ('v cell heap, runtime_object) state" where
  "GPUWorkloadBudgetList_DeepCopyObject C p = do {
     c \<leftarrow> GPUWorkloadBudgetList_DeepCopy C p;
     State_Monad.return (if c \<noteq> None then ListObject c else NilObject)
   }"

subsection \<open>What the structs denote\<close>

record object_meta =
  om_name :: string
  om_namespace :: string
  om_generation :: "64 word"
  om_deletionTimestamp :: "gotime option"
  om_finalizers :: "string list"

text \<open>The meanings of the library's structs are parameters.\<close>

record ('v, 'q) lib_meanings =
  mSelector :: "('v cell, 'v, label_selector) meaning"
  mQuantity :: "('v cell, 'v, 'q) meaning"
  mObjectMeta :: "('v cell, 'v, object_meta) meaning"
  mListMeta :: "('v cell, 'v, string) meaning"
  mCondition :: "('v cell, 'v, condition) meaning"
  mTime :: "('v cell, loc option, gotime option) meaning"

definition library_copies :: "'v lib_copies \<Rightarrow> ('v, 'q) lib_meanings \<Rightarrow> bool" where
  "library_copies C V \<longleftrightarrow>
     deep_copy (copySelector C) (mSelector V) \<and> deep_copy (copyQuantity C) (mQuantity V) \<and>
     deep_copy (copyObjectMeta C) (mObjectMeta V) \<and> deep_copy (copyListMeta C) (mListMeta V) \<and>
     deep_copy (copyCondition C) (mCondition V) \<and> deep_copy (copyTime C) (mTime V) \<and>
     (\<forall>h. typed (mTime V) h None \<and> refs (mTime V) h None = {} \<and> view (mTime V) h None = None)"

text \<open>The meaning of a struct is put together from those of its fields.\<close>

definition mQuota :: "('v, 'q) lib_meanings \<Rightarrow> ('v cell, 'v quota, 'q quota) meaning" where
  "mQuota V = seen_as (\<lambda>(g, w). \<lparr>gpuHours = g, windowHours = w\<rparr>)
     (both (field gpuHours (mQuantity V)) (field windowHours plain))"

definition mSpec :: "('v, 'q) lib_meanings \<Rightarrow> ('v cell, 'v spec_struct, 'q budget_spec) meaning" where
  "mSpec V = seen_as (\<lambda>(s, q, e, r). \<lparr>selector = s, quota = q, enforcement = e, gpuResourceName = r\<rparr>)
     (both (field s_selector (mSelector V)) (both (field s_quota (mQuota V))
       (both (field s_enforcement plain) (field s_gpuResourceName plain))))"

definition mConditions :: "('v, 'q) lib_meanings \<Rightarrow> ('v cell, slice, condition list option) meaning" where
  "mConditions V = slice_of ConditionArray the_conditions (mCondition V)"

text \<open>The record of values does not tell a nil slice of conditions from an empty one.\<close>

definition mStatus :: "('v, 'q) lib_meanings \<Rightarrow> ('v cell, 'v status_struct, 'q budget_status) meaning" where
  "mStatus V = seen_as (\<lambda>(c, r, p, t, g, cs).
       \<lparr>consumedGpuHours = c, remainingGpuHours = r, trackedPods = p, lastEnforcementAt = t,
        observedGeneration = g, conditions = (case cs of None \<Rightarrow> [] | Some xs \<Rightarrow> xs)\<rparr>)
     (both (field s_consumedGPUHours (mQuantity V)) (both (field s_remainingGPUHours (mQuantity V))
       (both (field s_trackedPods plain) (both (field s_lastEnforcementAt (mTime V))
         (both (field s_observedGeneration plain) (field s_conditions (mConditions V)))))))"

definition mBudget :: "('v, 'q) lib_meanings \<Rightarrow> ('v cell, 'v budget_struct, typemeta \<times> 'q budget) meaning" where
  "mBudget V = seen_as (\<lambda>(t, m, sp, st). (t,
       \<lparr>budget_name = om_name m, budget_namespace = om_namespace m, generation = om_generation m,
        deletionTimestamp = om_deletionTimestamp m, finalizers = om_finalizers m, spec = sp, status = st\<rparr>))
     (both (field s_typeMeta plain) (both (field s_objectMeta (mObjectMeta V))
       (both (field s_spec (mSpec V)) (field s_status (mStatus V)))))"

definition mItems ::
    "('v, 'q) lib_meanings \<Rightarrow> ('v cell, slice, (typemeta \<times> 'q budget) list option) meaning" where
  "mItems V = slice_of BudgetArray the_budgets (mBudget V)"

definition mList ::
    "('v, 'q) lib_meanings \<Rightarrow>
      ('v cell, 'v list_struct, typemeta \<times> string \<times> (typemeta \<times> 'q budget) list option) meaning" where
  "mList V = both (field s_listTypeMeta plain) (both (field s_listMeta (mListMeta V)) (field s_items (mItems V)))"

text \<open>Pointers to a budget and to a list of budgets.\<close>

definition mBudgetPtr :: "('v, 'q) lib_meanings \<Rightarrow> ('v cell, loc option, (typemeta \<times> 'q budget) option) meaning" where
  "mBudgetPtr V = pointer BudgetCell the_budget (mBudget V)"

definition mListPtr ::
    "('v, 'q) lib_meanings \<Rightarrow>
      ('v cell, loc option, (typemeta \<times> string \<times> (typemeta \<times> 'q budget) list option) option) meaning" where
  "mListPtr V = pointer ListCell the_list (mList V)"

subsection \<open>The copies keep their promise\<close>

interpretation enforcement_copy: deep_copy Enforcement_DeepCopyInto plain
  by (rule deep_copyI [OF heap_value_plain]) (auto simp: Enforcement_DeepCopyInto_def)

lemma Quota_deep_copy:
  assumes q: "deep_copy (copyQuantity C) (mQuantity V)"
  shows "deep_copy (Quota_DeepCopyInto C) (mQuota V)"
proof (rule deep_copyI)
  show "heap_value (mQuota V)"
    unfolding mQuota_def using deep_copy_value [OF q] by (intro heap_value_struct)
  fix h x y h'
  assume t: "typed (mQuota V) h x" and run: "run_state (Quota_DeepCopyInto C x) h = (y, h')"
  obtain g where r: "run_state (copyQuantity C (gpuHours x)) h = (g, h')" and y: "y = x\<lparr>gpuHours := g\<rparr>"
    using run by (auto simp: Quota_DeepCopyInto_def split: prod.splits)
  have tg: "typed (mQuantity V) h (gpuHours x)" using t by (simp add: mQuota_def)
  show "copied (mQuota V) h x h' y"
    unfolding mQuota_def using deep_copy.copies [OF q tg r] deep_copy.step_grows(1) [OF q tg grows_refl r]
    by (intro copied_seen_as) (simp add: y)
qed

lemma Spec_deep_copy:
  assumes s: "deep_copy (copySelector C) (mSelector V)" and q: "deep_copy (Quota_DeepCopyInto C) (mQuota V)"
  shows "deep_copy (GPUWorkloadBudgetSpec_DeepCopyInto C) (mSpec V)"
proof (rule deep_copyI)
  show "heap_value (mSpec V)"
    unfolding mSpec_def using s q by (intro heap_value_struct deep_copy_value)
  fix h x y h'
  assume t: "typed (mSpec V) h x" and run: "run_state (GPUWorkloadBudgetSpec_DeepCopyInto C x) h = (y, h')"
  have ts: "typed (mSelector V) h (s_selector x)" and tq: "typed (mQuota V) h (s_quota x)"
    using t by (simp_all add: mSpec_def)
  obtain sel h1 where r1: "run_state (copySelector C (s_selector x)) h = (sel, h1)" by force
  obtain qu h2 where r2: "run_state (Quota_DeepCopyInto C (s_quota x)) h1 = (qu, h2)" by force
  have y: "y = x\<lparr>s_selector := sel, s_quota := qu, s_enforcement := s_enforcement x\<rparr>" "h' = h2"
    using run r1 r2 by (auto simp: GPUWorkloadBudgetSpec_DeepCopyInto_def)
  note g1 = deep_copy.step_grows [OF s ts grows_refl r1]
  note g2 = deep_copy.step_grows [OF q tq g1(2) r2]
  show "copied (mSpec V) h x h' y"
    unfolding mSpec_def
    using deep_copy.step_then [OF s ts grows_refl r1 g2(1)] deep_copy.step [OF q tq g1(2) r2] g2(2)
    by (intro copied_seen_as) (simp add: y)
qed

lemma Status_deep_copy:
  assumes q: "deep_copy (copyQuantity C) (mQuantity V)" and tm: "deep_copy (copyTime C) (mTime V)"
    and none: "\<And>h. typed (mTime V) h None" "\<And>h. refs (mTime V) h None = {}" "\<And>h. view (mTime V) h None = None"
    and cs: "deep_copy (copy_conditions C) (mConditions V)"
  shows "deep_copy (GPUWorkloadBudgetStatus_DeepCopyInto C) (mStatus V)"
proof (rule deep_copyI)
  show "heap_value (mStatus V)"
    unfolding mStatus_def using q tm cs by (intro heap_value_struct deep_copy_value)
  fix h x y h'
  assume t: "typed (mStatus V) h x" and run: "run_state (GPUWorkloadBudgetStatus_DeepCopyInto C x) h = (y, h')"
  have t1: "typed (mQuantity V) h (s_consumedGPUHours x)" and t2: "typed (mQuantity V) h (s_remainingGPUHours x)"
    and t3: "typed (mTime V) h (s_lastEnforcementAt x)" and t4: "typed (mConditions V) h (s_conditions x)"
    using t by (simp_all add: mStatus_def)
  obtain c h1 where r1: "run_state (copyQuantity C (s_consumedGPUHours x)) h = (c, h1)" by force
  obtain r h2 where r2: "run_state (copyQuantity C (s_remainingGPUHours x)) h1 = (r, h2)" by force
  obtain ti h3 where r3: "run_state (if s_lastEnforcementAt x \<noteq> None
      then copyTime C (s_lastEnforcementAt x) else State_Monad.return None) h2 = (ti, h3)" by force
  obtain co h4 where r4: "run_state (copy_conditions C (s_conditions x)) h3 = (co, h4)" by force
  have nil: "s_conditions x = NilSlice \<Longrightarrow> co = NilSlice \<and> h4 = h3"
    using r4 by (auto simp: copy_conditions_def copy_slice_def)
  have y: "y = x\<lparr>s_consumedGPUHours := c, s_remainingGPUHours := r, s_lastEnforcementAt := ti,
      s_conditions := co\<rparr> \<and> h' = h4"
    using run r1 r2 r3 r4 nil
    by (cases x, auto simp: GPUWorkloadBudgetStatus_DeepCopyInto_def Let_def split: if_splits)
  note g1 = deep_copy.step_grows [OF q t1 grows_refl r1]
  note g2 = deep_copy.step_grows [OF q t2 g1(2) r2]
  have c3: "copied (mTime V) h (s_lastEnforcementAt x) h3 ti" and g3: "grows h2 h3"
  proof -
    have "copied (mTime V) h (s_lastEnforcementAt x) h3 ti \<and> grows h2 h3"
    proof (cases "s_lastEnforcementAt x")
      case None
      then show ?thesis using r3 none g2(2) by (auto simp: copied_def)
    next
      case (Some l)
      then have "run_state (copyTime C (s_lastEnforcementAt x)) h2 = (ti, h3)" using r3 by simp
      then show ?thesis using deep_copy.step [OF tm t3 g2(2)] deep_copy.step_grows [OF tm t3 g2(2)] by blast
    qed
    then show "copied (mTime V) h (s_lastEnforcementAt x) h3 ti" "grows h2 h3" by simp_all
  qed
  note g4 = deep_copy.step_grows [OF cs t4 copiedD(1) [OF c3] r4]
  have g: "grows h2 h4" "grows h1 h4"
    using grows_trans [OF g3 g4(1)] grows_trans [OF g2(1) grows_trans [OF g3 g4(1)]] by simp_all
  show "copied (mStatus V) h x h' y"
    unfolding mStatus_def
    using deep_copy.step_then [OF q t1 grows_refl r1 g(2)] deep_copy.step_then [OF q t2 g1(2) r2 g(1)]
      heap_value.copied_later [OF deep_copy_value [OF tm] c3 g4(1)]
      deep_copy.step [OF cs t4 copiedD(1) [OF c3] r4] g4(2)
    by (intro copied_seen_as) (simp add: y)
qed

lemma Budget_deep_copy:
  assumes m: "deep_copy (copyObjectMeta C) (mObjectMeta V)"
    and sp: "deep_copy (GPUWorkloadBudgetSpec_DeepCopyInto C) (mSpec V)"
    and st: "deep_copy (GPUWorkloadBudgetStatus_DeepCopyInto C) (mStatus V)"
  shows "deep_copy (GPUWorkloadBudget_DeepCopyInto C) (mBudget V)"
proof (rule deep_copyI)
  show "heap_value (mBudget V)"
    unfolding mBudget_def using m sp st by (intro heap_value_struct deep_copy_value)
  fix h x y h'
  assume t: "typed (mBudget V) h x" and run: "run_state (GPUWorkloadBudget_DeepCopyInto C x) h = (y, h')"
  have t1: "typed (mObjectMeta V) h (s_objectMeta x)" and t2: "typed (mSpec V) h (s_spec x)"
    and t3: "typed (mStatus V) h (s_status x)" using t by (simp_all add: mBudget_def)
  obtain me h1 where r1: "run_state (copyObjectMeta C (s_objectMeta x)) h = (me, h1)" by force
  obtain s h2 where r2: "run_state (GPUWorkloadBudgetSpec_DeepCopyInto C (s_spec x)) h1 = (s, h2)" by force
  obtain u h3 where r3: "run_state (GPUWorkloadBudgetStatus_DeepCopyInto C (s_status x)) h2 = (u, h3)" by force
  have y: "y = x\<lparr>s_objectMeta := me, s_spec := s, s_status := u\<rparr>" "h' = h3"
    using run r1 r2 r3 by (auto simp: GPUWorkloadBudget_DeepCopyInto_def)
  note g1 = deep_copy.step_grows [OF m t1 grows_refl r1]
  note g2 = deep_copy.step_grows [OF sp t2 g1(2) r2]
  note g3 = deep_copy.step_grows [OF st t3 g2(2) r3]
  show "copied (mBudget V) h x h' y"
    unfolding mBudget_def
    using deep_copy.step_then [OF m t1 grows_refl r1 grows_trans [OF g2(1) g3(1)]]
      deep_copy.step_then [OF sp t2 g1(2) r2 g3(1)] deep_copy.step [OF st t3 g2(2) r3] g3(2)
    by (intro copied_seen_as) (simp add: y)
qed

lemma List_deep_copy:
  assumes m: "deep_copy (copyListMeta C) (mListMeta V)" and it: "deep_copy (copy_items C) (mItems V)"
  shows "deep_copy (GPUWorkloadBudgetList_DeepCopyInto C) (mList V)"
proof (rule deep_copyI)
  show "heap_value (mList V)"
    unfolding mList_def using m it by (intro heap_value_struct deep_copy_value)
  fix h x y h'
  assume t: "typed (mList V) h x" and run: "run_state (GPUWorkloadBudgetList_DeepCopyInto C x) h = (y, h')"
  have t1: "typed (mListMeta V) h (s_listMeta x)" and t2: "typed (mItems V) h (s_items x)"
    using t by (simp_all add: mList_def)
  obtain me h1 where r1: "run_state (copyListMeta C (s_listMeta x)) h = (me, h1)" by force
  obtain s h2 where r2: "run_state (copy_items C (s_items x)) h1 = (s, h2)" by force
  have nil: "s_items x = NilSlice \<Longrightarrow> s = NilSlice \<and> h2 = h1"
    using r2 by (auto simp: copy_items_def copy_slice_def)
  have y: "y = x\<lparr>s_listMeta := me, s_items := s\<rparr> \<and> h' = h2"
    using run r1 r2 nil by (cases x, auto simp: GPUWorkloadBudgetList_DeepCopyInto_def Let_def split: if_splits)
  note g1 = deep_copy.step_grows [OF m t1 grows_refl r1]
  note g2 = deep_copy.step_grows [OF it t2 g1(2) r2]
  show "copied (mList V) h x h' y"
    unfolding mList_def
    using deep_copy.step_then [OF m t1 grows_refl r1 g2(1)] deep_copy.step [OF it t2 g1(2) r2] g2(2)
    by (simp add: y)
qed

text \<open>Everything together: pointers to budgets and to lists of budgets.\<close>

lemma library_copies_budget:
  assumes "library_copies C V"
  shows "deep_copy (GPUWorkloadBudget_DeepCopyInto C) (mBudget V)"
proof -
  have "deep_copy (copy_conditions C) (mConditions V)"
    using assms deep_copy.slice_deep_copy [of "copyCondition C" "mCondition V" the_conditions ConditionArray]
    by (simp add: library_copies_def copy_conditions_def mConditions_def)
  with assms show ?thesis
    unfolding library_copies_def
    by (intro Budget_deep_copy Spec_deep_copy Quota_deep_copy Status_deep_copy) auto
qed

lemma budget_pointer_copy:
  assumes "library_copies C V"
  shows "deep_copy (GPUWorkloadBudget_DeepCopy C) (mBudgetPtr V)"
  unfolding GPUWorkloadBudget_DeepCopy_def mBudgetPtr_def
  by (rule deep_copy.pointer_deep_copy [OF library_copies_budget [OF assms]]) simp

lemma list_pointer_copy:
  assumes "library_copies C V"
  shows "deep_copy (GPUWorkloadBudgetList_DeepCopy C) (mListPtr V)"
proof -
  have "deep_copy (copy_items C) (mItems V)"
    unfolding copy_items_def mItems_def
    by (rule deep_copy.slice_deep_copy [OF library_copies_budget [OF assms]]) simp
  with assms have "deep_copy (GPUWorkloadBudgetList_DeepCopyInto C) (mList V)"
    by (intro List_deep_copy) (auto simp: library_copies_def)
  then show ?thesis
    unfolding GPUWorkloadBudgetList_DeepCopy_def mListPtr_def
    by (rule deep_copy.pointer_deep_copy) simp
qed

lemma copy_pointer_nil:
  "run_state (copy_pointer box unbox zero into p) h = (q, h') \<Longrightarrow> q = None \<longleftrightarrow> p = None"
  by (auto simp: copy_pointer_def split: option.splits prod.splits)

text \<open>The two pointer types on their own: a nil receiver gives nil.\<close>

lemma DeepCopy_nil:
  "run_state (GPUWorkloadBudget_DeepCopy C p) h = (q, h') \<Longrightarrow> q = None \<longleftrightarrow> p = None"
  "run_state (GPUWorkloadBudgetList_DeepCopy C p) h = (q, h') \<Longrightarrow> q = None \<longleftrightarrow> p = None"
  unfolding GPUWorkloadBudget_DeepCopy_def GPUWorkloadBudgetList_DeepCopy_def
  by (rule copy_pointer_nil, assumption)+

subsection \<open>A library that copies\<close>

text \<open>
  An instance of the parameters, for samples: a struct of the library either holds its text
  or refers to a cell with it.
\<close>

datatype ref_value = Inline string | Ref loc

definition ref_text :: "ref_value cell heap \<Rightarrow> ref_value \<Rightarrow> string" where
  "ref_text h v = (case v of Inline s \<Rightarrow> s
     | Ref l \<Rightarrow> (case cells h l of LibCell (Inline s) \<Rightarrow> s | _ \<Rightarrow> []))"

definition ref_copy :: "(ref_value, ref_value) copier" where
  "ref_copy v = (case v of Inline s \<Rightarrow> State_Monad.return v
     | Ref l \<Rightarrow> do { c \<leftarrow> get_cell l; out \<leftarrow> alloc c; State_Monad.return (Ref out) })"

definition ref_meaning :: "(string \<Rightarrow> 'b) \<Rightarrow> (ref_value cell, ref_value, 'b) meaning" where
  "ref_meaning f =
     \<lparr>typed = (\<lambda>h v. case v of Inline s \<Rightarrow> True
        | Ref l \<Rightarrow> l < lim h \<and> (\<exists>s. cells h l = LibCell (Inline s))),
      refs = (\<lambda>h v. case v of Inline s \<Rightarrow> {} | Ref l \<Rightarrow> {l}),
      view = (\<lambda>h v. f (ref_text h v))\<rparr>"

interpretation ref_value_copy: deep_copy ref_copy "ref_meaning f" for f
proof (rule deep_copyI)
  show "heap_value (ref_meaning f)"
    by unfold_locales (auto simp: ref_meaning_def ref_text_def split: ref_value.splits)
  show "copied (ref_meaning f) h x h' y"
    if "typed (ref_meaning f) h x" and "run_state (ref_copy x) h = (y, h')" for h x y h'
    using that
    by (auto simp: ref_copy_def ref_meaning_def ref_text_def copied_def grows_def get_cell_def alloc_def
        split: ref_value.splits)
qed

definition ref_copies :: "ref_value lib_copies" where
  "ref_copies = \<lparr>zeroValue = Inline [], copySelector = ref_copy, copyQuantity = ref_copy,
     copyObjectMeta = ref_copy, copyListMeta = ref_copy, copyCondition = ref_copy,
     copyTime = copy_pointer LibCell the_lib (Inline []) ref_copy\<rparr>"

definition text_meta :: "string \<Rightarrow> object_meta" where
  "text_meta s = \<lparr>om_name = s, om_namespace = ''default'', om_generation = 1,
     om_deletionTimestamp = None, om_finalizers = [s]\<rparr>"

definition text_condition :: "string \<Rightarrow> condition" where
  "text_condition s = \<lparr>cond_type = s, cond_status = ConditionTrue, cond_reason = s, cond_message = s,
     lastTransitionTime = 0\<rparr>"

definition ref_meanings :: "(ref_value, string) lib_meanings" where
  "ref_meanings =
     \<lparr>mSelector = ref_meaning (\<lambda>s. \<lparr>matchLabels = fmupd ''app'' s fmempty, matchExpressions = []\<rparr>),
      mQuantity = ref_meaning (\<lambda>s. s), mObjectMeta = ref_meaning text_meta,
      mListMeta = ref_meaning (\<lambda>s. s), mCondition = ref_meaning text_condition,
      mTime = pointer LibCell the_lib (ref_meaning (\<lambda>s. int (length s)))\<rparr>"

lemma ref_time_copy:
  "deep_copy (copy_pointer LibCell the_lib (Inline []) ref_copy) (pointer LibCell the_lib (ref_meaning f))"
  by (rule ref_value_copy.pointer_deep_copy) simp

lemma pointer_nil:
  "typed (pointer box unbox M) h None" "refs (pointer box unbox M) h None = {}"
  "view (pointer box unbox M) h None = None"
  by (simp_all add: pointer_def)

lemma ref_library: "library_copies ref_copies ref_meanings"
  unfolding library_copies_def ref_copies_def ref_meanings_def
  by (simp add: ref_value_copy.deep_copy_axioms ref_time_copy pointer_nil)

text \<open>A budget in the heap: its selector and one time are behind references, it has one condition.\<close>

definition sample_struct :: "ref_value budget_struct" where
  "sample_struct = \<lparr>s_typeMeta = \<lparr>tm_kind = ''GPUWorkloadBudget'', tm_apiVersion = ''v1alpha1''\<rparr>,
     s_objectMeta = Inline ''gwb'',
     s_spec = \<lparr>s_selector = Ref 1, s_quota = \<lparr>gpuHours = Inline ''100'', windowHours = 24\<rparr>,
       s_enforcement = \<lparr>action = ActionEvict, gracePeriodSeconds = 30\<rparr>, s_gpuResourceName = []\<rparr>,
     s_status = \<lparr>s_consumedGPUHours = Inline ''1'', s_remainingGPUHours = Inline ''99'', s_trackedPods = 1,
       s_lastEnforcementAt = Some 2, s_observedGeneration = 1, s_conditions = Slice 3 0 1\<rparr>\<rparr>"

definition sample_heap :: "ref_value cell heap" where
  "sample_heap = \<lparr>cells = (\<lambda>l. if l = 0 then BudgetCell sample_struct
       else if l = 1 then LibCell (Inline ''train'')
       else if l = 2 then LibCell (Inline ''noon'')
       else if l = 3 then ConditionArray [Inline ''Ready'']
       else if l = 4 then BudgetArray [sample_struct]
       else ListCell \<lparr>s_listTypeMeta = zero_typemeta, s_listMeta = Inline ''7'', s_items = Slice 4 0 1\<rparr>),
     lim = 6\<rparr>"

lemmas sample_heap_defs = plain_def field_def both_def seen_as_def
  sample_heap_def sample_struct_def ref_meanings_def ref_copies_def
  ref_meaning_def ref_text_def ref_copy_def pointer_def slice_of_def elements_def
  mBudgetPtr_def mListPtr_def mBudget_def mList_def mSpec_def mQuota_def mStatus_def mConditions_def mItems_def

lemma sample_typed:
  "typed (mBudgetPtr ref_meanings) sample_heap (Some 0)"
  "typed (mListPtr ref_meanings) sample_heap (Some 5)"
  by (simp_all add: sample_heap_defs)

end
