(* ===== verification/GoFlags.thy ===== *)
theory GoFlags
  imports Prelude
begin

text \<open>
  Command lines as Go's \<open>flag\<close> package reads them: \<open>-name\<close>, \<open>--name\<close>, \<open>-name=value\<close>,
  \<open>-name value\<close> for flags that are not boolean, \<open>--\<close> and the first word that is no flag end the
  flags. A flag set knows each flag's name and kind, and how a value changes the options.
\<close>

record 'o flagset =
  bool_flag :: "string \<Rightarrow> bool option"
  set_flag :: "string \<Rightarrow> string \<Rightarrow> 'o \<Rightarrow> 'o option"

datatype flag_error =
    BadSyntax string
  | HelpRequested
  | NotDefined string
  | InvalidValue string string
  | NeedsArgument string

text \<open>\<open>strconv.ParseBool\<close>.\<close>

definition ParseBool :: "string \<Rightarrow> bool option" where
  "ParseBool s =
     (if s \<in> {''1'', ''t'', ''T'', ''TRUE'', ''true'', ''True''} then Some True
      else if s \<in> {''0'', ''f'', ''F'', ''FALSE'', ''false'', ''False''} then Some False
      else None)"

text \<open>The name of a flag and the value after the first \<open>=\<close>, which is not looked for at index 0.\<close>

fun split_value :: "string \<Rightarrow> string \<times> string option" where
  "split_value [] = ([], None)"
| "split_value (c # cs) =
     (case dropWhile (\<lambda>d. d \<noteq> CHR ''='') cs of
        [] \<Rightarrow> (c # cs, None)
      | _ # v \<Rightarrow> (c # takeWhile (\<lambda>d. d \<noteq> CHR ''='') cs, Some v))"

definition flag_name :: "string \<Rightarrow> string" where
  "flag_name s = (if s ! 1 = CHR ''-'' then drop 2 s else drop 1 s)"

definition is_flag :: "string \<Rightarrow> bool" where
  "is_flag s \<longleftrightarrow> 2 \<le> length s \<and> s ! 0 = CHR ''-''"

definition bad_name :: "string \<Rightarrow> bool" where
  "bad_name n \<longleftrightarrow> n = [] \<or> n ! 0 = CHR ''-'' \<or> n ! 0 = CHR ''=''"

text \<open>
  One step, \<open>parseOne\<close>: an error, the end of the flags, or the new options with the words that
  are left.
\<close>

definition take_value ::
    "'o flagset \<Rightarrow> string \<Rightarrow> string \<Rightarrow> string list \<Rightarrow> 'o \<Rightarrow> flag_error + ('o \<times> string list) option" where
  "take_value F name v args x =
     (case set_flag F name v x of
        None \<Rightarrow> Inl (InvalidValue name v)
      | Some y \<Rightarrow> Inr (Some (y, args)))"

definition parse_one ::
    "'o flagset \<Rightarrow> string \<Rightarrow> string list \<Rightarrow> 'o \<Rightarrow> flag_error + ('o \<times> string list) option" where
  "parse_one F s args x =
     (if \<not> is_flag s \<or> s = ''--'' then Inr None
      else if bad_name (flag_name s) then Inl (BadSyntax s)
      else case split_value (flag_name s) of (name, value) \<Rightarrow>
        (case bool_flag F name of
           None \<Rightarrow> Inl (if name = ''help'' \<or> name = ''h'' then HelpRequested else NotDefined name)
         | Some True \<Rightarrow> take_value F name (case value of None \<Rightarrow> ''true'' | Some v \<Rightarrow> v) args x
         | Some False \<Rightarrow>
             (case value of
                Some v \<Rightarrow> take_value F name v args x
              | None \<Rightarrow>
                  (case args of
                     [] \<Rightarrow> Inl (NeedsArgument name)
                   | v # rest \<Rightarrow> take_value F name v rest x))))"

lemma take_value_step:
  "take_value F name v args x = Inr (Some (y, rest)) \<Longrightarrow> rest = args \<and> set_flag F name v x = Some y"
  by (auto simp: take_value_def split: option.splits)

lemma parse_one_step:
  assumes "parse_one F s args x = Inr (Some (y, rest))"
  shows "is_flag s" and "\<exists>v. set_flag F (fst (split_value (flag_name s))) v x = Some y"
    and "rest = args \<or> (\<exists>v. args = v # rest)"
  using assms
  by (auto simp: parse_one_def split: if_splits prod.splits option.splits bool.splits list.splits
      dest!: take_value_step)

function parse_flags :: "'o flagset \<Rightarrow> string list \<Rightarrow> 'o \<Rightarrow> flag_error + 'o" where
  "parse_flags F [] x = Inr x"
| "parse_flags F (s # args) x =
     (case parse_one F s args x of
        Inl e \<Rightarrow> Inl e
      | Inr None \<Rightarrow> Inr x
      | Inr (Some (y, rest)) \<Rightarrow> parse_flags F rest y)"
  by pat_completeness auto
termination
  by (relation "measure (\<lambda>(F, args, x). length args)") (auto dest: parse_one_step(3))

text \<open>
  What holds of the options at the start and survives every flag the words name holds of
  the result.
\<close>

lemma parse_flags_invariant:
  assumes "parse_flags F args x = Inr y" and "P x"
    and "\<And>s v x y. s \<in> set args \<Longrightarrow> is_flag s \<Longrightarrow> P x \<Longrightarrow>
      set_flag F (fst (split_value (flag_name s))) v x = Some y \<Longrightarrow> P y"
  shows "P y"
  using assms
proof (induction F args x arbitrary: y rule: parse_flags.induct)
  case (1 F x)
  then show ?case by simp
next
  case (2 F s args x)
  show ?case
  proof (cases "parse_one F s args x")
    case (Inl e)
    then show ?thesis using "2.prems"(1) by simp
  next
    case (Inr r)
    show ?thesis
    proof (cases r)
      case None
      then show ?thesis using Inr "2.prems"(1,2) by simp
    next
      case (Some q)
      obtain z rest where q: "q = (z, rest)" by force
      note one = parse_one_step [OF Inr [unfolded Some q]]
      have "P z" using one(1,2) "2.prems"(2,3) by (metis list.set_intros(1))
      moreover have "set rest \<subseteq> set (s # args)" using one(3) by auto
      moreover have "parse_flags F rest z = Inr y" using "2.prems"(1) Inr Some q by simp
      ultimately show ?thesis
        using "2.IH" [OF Inr Some [unfolded q] refl] "2.prems"(3) by blast
    qed
  qed
qed

end
