(* ===== verification/Startup.thy ===== *)
theory Startup
  imports GoFlags Controller
begin

text \<open>
  The operator's start (\<open>cmd/main.go\<close>) and the registrations it makes: the command line, the
  TLS options of the two servers, the options of the manager, and the sequence of calls to
  \<open>controller-runtime\<close> with an exit on the first failure. The answers of these calls come from
  an opaque outside world, and each call is logged with its arguments and its answer.
\<close>

subsection \<open>Scheme registration (groupversion\_info.go, the init functions)\<close>

definition SchemeGroupVersion :: "string \<times> string" where
  "SchemeGroupVersion = (''budget.zxuhan.dev'', ''v1alpha1'')"

definition GroupVersion :: "string \<times> string" where
  "GroupVersion = SchemeGroupVersion"

text \<open>
  The scheme library: a builder for a group version, registering types with it, and adding
  its types, or those of client-go, to a scheme.
\<close>

record ('b, 'sch) scheme_lib =
  newBuilder :: "string \<times> string \<Rightarrow> 'b"
  register :: "string list \<Rightarrow> 'b \<Rightarrow> 'b"
  addToScheme :: "'b \<Rightarrow> 'sch \<Rightarrow> goerr + 'sch"
  newScheme :: 'sch
  clientgoAddToScheme :: "'sch \<Rightarrow> goerr + 'sch"

definition SchemeBuilder :: "('b, 'sch) scheme_lib \<Rightarrow> 'b" where
  "SchemeBuilder K = newBuilder K SchemeGroupVersion"

text \<open>The \<open>init\<close> of the API package, which runs before that of \<open>main\<close>.\<close>

definition api_init :: "('b, 'sch) scheme_lib \<Rightarrow> 'b" where
  "api_init K = register K [''GPUWorkloadBudget'', ''GPUWorkloadBudgetList''] (SchemeBuilder K)"

definition AddToScheme :: "('b, 'sch) scheme_lib \<Rightarrow> 'sch \<Rightarrow> goerr + 'sch" where
  "AddToScheme K = addToScheme K (api_init K)"

text \<open>The \<open>init\<close> of \<open>main\<close>; \<open>utilruntime.Must\<close> panics with the error.\<close>

definition main_init :: "('b, 'sch) scheme_lib \<Rightarrow> goerr + 'sch" where
  "main_init K =
     (case clientgoAddToScheme K (newScheme K) of
        Inl e \<Rightarrow> Inl e
      | Inr s \<Rightarrow> AddToScheme K s)"

subsection \<open>Command line\<close>

text \<open>
  The flags of \<open>main\<close>. The logging flags, and those that libraries define on their own, are
  the parameter \<open>extra\<close>; what they set is kept in \<open>op_extra\<close>.
\<close>

record 'e operator_options =
  op_metricsAddr :: string
  op_metricsCertPath :: string
  op_metricsCertName :: string
  op_metricsCertKey :: string
  op_webhookCertPath :: string
  op_webhookCertName :: string
  op_webhookCertKey :: string
  op_enableLeaderElection :: bool
  op_probeAddr :: string
  op_secureMetrics :: bool
  op_enableHTTP2 :: bool
  op_extra :: 'e

definition operator_defaults :: "'e \<Rightarrow> 'e operator_options" where
  "operator_defaults e =
     \<lparr>op_metricsAddr = ''0'', op_metricsCertPath = [], op_metricsCertName = ''tls.crt'',
      op_metricsCertKey = ''tls.key'', op_webhookCertPath = [], op_webhookCertName = ''tls.crt'',
      op_webhookCertKey = ''tls.key'', op_enableLeaderElection = False, op_probeAddr = '':8081'',
      op_secureMetrics = True, op_enableHTTP2 = False, op_extra = e\<rparr>"

definition operator_flags :: "'e flagset \<Rightarrow> 'e operator_options flagset" where
  "operator_flags extra =
     \<lparr>bool_flag = (\<lambda>n.
        if n \<in> {''leader-elect'', ''metrics-secure'', ''enable-http2''} then Some True
        else if n \<in> {''metrics-bind-address'', ''health-probe-bind-address'', ''webhook-cert-path'',
            ''webhook-cert-name'', ''webhook-cert-key'', ''metrics-cert-path'', ''metrics-cert-name'',
            ''metrics-cert-key''} then Some False
        else bool_flag extra n),
      set_flag = (\<lambda>n v x.
        if n = ''metrics-bind-address'' then Some (x\<lparr>op_metricsAddr := v\<rparr>)
        else if n = ''health-probe-bind-address'' then Some (x\<lparr>op_probeAddr := v\<rparr>)
        else if n = ''leader-elect'' then map_option (\<lambda>b. x\<lparr>op_enableLeaderElection := b\<rparr>) (ParseBool v)
        else if n = ''metrics-secure'' then map_option (\<lambda>b. x\<lparr>op_secureMetrics := b\<rparr>) (ParseBool v)
        else if n = ''webhook-cert-path'' then Some (x\<lparr>op_webhookCertPath := v\<rparr>)
        else if n = ''webhook-cert-name'' then Some (x\<lparr>op_webhookCertName := v\<rparr>)
        else if n = ''webhook-cert-key'' then Some (x\<lparr>op_webhookCertKey := v\<rparr>)
        else if n = ''metrics-cert-path'' then Some (x\<lparr>op_metricsCertPath := v\<rparr>)
        else if n = ''metrics-cert-name'' then Some (x\<lparr>op_metricsCertName := v\<rparr>)
        else if n = ''metrics-cert-key'' then Some (x\<lparr>op_metricsCertKey := v\<rparr>)
        else if n = ''enable-http2'' then map_option (\<lambda>b. x\<lparr>op_enableHTTP2 := b\<rparr>) (ParseBool v)
        else map_option (\<lambda>e. x\<lparr>op_extra := e\<rparr>) (set_flag extra n v (op_extra x)))\<rparr>"

subsection \<open>Server and manager options\<close>

text \<open>A TLS configuration, as far as it is touched, and the functions that adjust one.\<close>

record tls_config =
  nextProtos :: "string list"

definition disableHTTP2 :: "tls_config \<Rightarrow> tls_config" where
  "disableHTTP2 c = c\<lparr>nextProtos := [''http/1.1'']\<rparr>"

definition tlsOpts :: "'e operator_options \<Rightarrow> (tls_config \<Rightarrow> tls_config) list" where
  "tlsOpts x = (if \<not> op_enableHTTP2 x then [] @ [disableHTTP2] else [])"

text \<open>What a server does with its TLS options: it applies them in turn to its configuration.\<close>

definition apply_tls :: "(tls_config \<Rightarrow> tls_config) list \<Rightarrow> tls_config \<Rightarrow> tls_config" where
  "apply_tls fs c = foldl (\<lambda>c f. f c) c fs"

record webhook_options =
  wh_tlsOpts :: "(tls_config \<Rightarrow> tls_config) list"
  wh_certDir :: string
  wh_certName :: string
  wh_keyName :: string

definition webhookServerOptions :: "'e operator_options \<Rightarrow> webhook_options" where
  "webhookServerOptions x =
     (let opts = \<lparr>wh_tlsOpts = tlsOpts x, wh_certDir = [], wh_certName = [], wh_keyName = []\<rparr>
      in if length (op_webhookCertPath x) > 0
         then opts\<lparr>wh_certDir := op_webhookCertPath x, wh_certName := op_webhookCertName x,
           wh_keyName := op_webhookCertKey x\<rparr>
         else opts)"

text \<open>The one filter the program knows is authentication with authorization.\<close>

datatype metrics_filter = WithAuthenticationAndAuthorization

record metrics_options =
  ms_bindAddress :: string
  ms_secureServing :: bool
  ms_tlsOpts :: "(tls_config \<Rightarrow> tls_config) list"
  ms_filterProvider :: "metrics_filter option"
  ms_certDir :: string
  ms_certName :: string
  ms_keyName :: string

definition metricsServerOptions :: "'e operator_options \<Rightarrow> metrics_options" where
  "metricsServerOptions x =
     (let opts = \<lparr>ms_bindAddress = op_metricsAddr x, ms_secureServing = op_secureMetrics x,
            ms_tlsOpts = tlsOpts x, ms_filterProvider = None, ms_certDir = [], ms_certName = [], ms_keyName = []\<rparr>;
          opts = (if op_secureMetrics x
            then opts\<lparr>ms_filterProvider := Some WithAuthenticationAndAuthorization\<rparr> else opts)
      in if length (op_metricsCertPath x) > 0
         then opts\<lparr>ms_certDir := op_metricsCertPath x, ms_certName := op_metricsCertName x,
           ms_keyName := op_metricsCertKey x\<rparr>
         else opts)"

record 'sch manager_options =
  mgr_scheme :: 'sch
  mgr_metrics :: metrics_options
  mgr_webhook :: webhook_options
  mgr_probeAddr :: string
  mgr_leaderElection :: bool
  mgr_leaderElectionID :: string

definition manager_options_of :: "'sch \<Rightarrow> 'e operator_options \<Rightarrow> 'sch manager_options" where
  "manager_options_of s x =
     \<lparr>mgr_scheme = s, mgr_metrics = metricsServerOptions x, mgr_webhook = webhookServerOptions x,
      mgr_probeAddr = op_probeAddr x, mgr_leaderElection = op_enableLeaderElection x,
      mgr_leaderElectionID = ''a0ba3ea1.zxuhan.dev''\<rparr>"

subsection \<open>Registrations\<close>

text \<open>
  What is handed to the builders of \<open>controller-runtime\<close>: the kinds, the functions that are
  called back, and the name.
\<close>

record ('mapfn, 'rec) controller_setup =
  for_kind :: string
  watches :: "(string \<times> 'mapfn) list"
  named :: string
  completed_with :: 'rec

record ('c, 'u, 'd) webhook_setup =
  webhook_kind :: string
  on_create :: 'c
  on_update :: 'u
  on_delete :: 'd

type_synonym ('q, 's, 'w) budget_controller =
  "('q pod option \<Rightarrow> ('q, 's, 'w, (string \<times> string) list) io,
    string \<Rightarrow> string \<Rightarrow> ('q, 's, 'w, goerr + duration) io) controller_setup"

type_synonym 'q budget_webhook =
  "('q budget \<Rightarrow> string list \<times> invalid_status option,
    'q budget \<Rightarrow> 'q budget \<Rightarrow> string list \<times> invalid_status option,
    'q budget \<Rightarrow> string list \<times> invalid_status option) webhook_setup"

definition SetupWithManager :: "('q, 's) k8s \<Rightarrow> ('q, 's, 'w) api \<Rightarrow> ('q, 's, 'w) budget_controller" where
  "SetupWithManager L A =
     \<lparr>for_kind = ''GPUWorkloadBudget'', watches = [(''Pod'', mapPodToBudgets L A)],
      named = ''gpuworkloadbudget'', completed_with = Reconcile L A\<rparr>"

definition SetupGPUWorkloadBudgetWebhookWithManager :: "('q, 's) k8s \<Rightarrow> 'q budget_webhook" where
  "SetupGPUWorkloadBudgetWebhookWithManager L =
     \<lparr>webhook_kind = ''GPUWorkloadBudget'', on_create = ValidateCreate L, on_update = ValidateUpdate L,
      on_delete = ValidateDelete\<rparr>"

subsection \<open>The start-up sequence\<close>

text \<open>
  The calls with what they are given and whether they failed. The handles that the calls
  return (configuration, manager, clientset) are only passed on, and are left out. Getting the
  configuration ends the process by itself when it fails.
\<close>

datatype ('sch, 'ctl, 'wh) start_call =
    GetConfigOrDie "goerr option"
  | NewManager "'sch manager_options" "goerr option"
  | NewForConfig "goerr option"
  | CompleteController 'ctl "goerr option"
  | CompleteWebhook 'wh "goerr option"
  | AddHealthzCheck string "goerr option"
  | AddReadyzCheck string "goerr option"
  | StartManager "goerr option"

fun answer :: "('sch, 'ctl, 'wh) start_call \<Rightarrow> goerr option" where
  "answer (GetConfigOrDie e) = e"
| "answer (NewManager _ e) = e"
| "answer (NewForConfig e) = e"
| "answer (CompleteController _ e) = e"
| "answer (CompleteWebhook _ e) = e"
| "answer (AddHealthzCheck _ e) = e"
| "answer (AddReadyzCheck _ e) = e"
| "answer (StartManager e) = e"

text \<open>The outside answers a call, given as its constructor applied to the arguments.\<close>

type_synonym ('sch, 'ctl, 'wh, 'v) outside =
  "(goerr option \<Rightarrow> ('sch, 'ctl, 'wh) start_call) \<Rightarrow> 'v \<Rightarrow> goerr option \<times> 'v"

type_synonym ('sch, 'ctl, 'wh, 'v, 'a) start =
  "('v \<times> ('sch, 'ctl, 'wh) start_call list, 'a) state"

definition ask ::
    "('sch, 'ctl, 'wh, 'v) outside \<Rightarrow> (goerr option \<Rightarrow> ('sch, 'ctl, 'wh) start_call)
      \<Rightarrow> ('sch, 'ctl, 'wh, 'v, goerr option) start" where
  "ask E c = State (\<lambda>(v, cs). case E c v of (e, v') \<Rightarrow> (e, (v', cs @ [c e])))"

text \<open>\<open>if err != nil { ...; os.Exit(1) }\<close>, then the rest.\<close>

definition or_exit ::
    "('sch, 'ctl, 'wh, 'v, goerr option) start \<Rightarrow> ('sch, 'ctl, 'wh, 'v, nat) start
      \<Rightarrow> ('sch, 'ctl, 'wh, 'v, nat) start" where
  "or_exit m rest = do {
     err \<leftarrow> m;
     if err \<noteq> None then State_Monad.return 1 else rest
   }"

definition run_operator ::
    "('q, 's) k8s \<Rightarrow> ('q, 's, 'w) api
      \<Rightarrow> ('sch, ('q, 's, 'w) budget_controller, 'q budget_webhook, 'v) outside
      \<Rightarrow> 'sch \<Rightarrow> string option \<Rightarrow> 'e operator_options
      \<Rightarrow> ('sch, ('q, 's, 'w) budget_controller, 'q budget_webhook, 'v, nat) start" where
  "run_operator L A E s webhooks x =
     or_exit (ask E GetConfigOrDie)
     (or_exit (ask E (NewManager (manager_options_of s x)))
     (or_exit (ask E NewForConfig)
     (or_exit (ask E (CompleteController (SetupWithManager L A)))
     (let rest =
        or_exit (ask E (AddHealthzCheck ''healthz''))
        (or_exit (ask E (AddReadyzCheck ''readyz''))
        (or_exit (ask E StartManager)
        (State_Monad.return 0)))
      in if webhooks \<noteq> Some ''false''
         then or_exit (ask E (CompleteWebhook (SetupGPUWorkloadBudgetWebhookWithManager L))) rest
         else rest))))"

text \<open>
  \<open>main\<close> after the \<open>init\<close> functions. A command line that does not parse ends the process with
  code 2, a request for help with code 0, and a panic in an \<open>init\<close> with code 2.
\<close>

definition operator_main ::
    "('q, 's) k8s \<Rightarrow> ('q, 's, 'w) api
      \<Rightarrow> ('sch, ('q, 's, 'w) budget_controller, 'q budget_webhook, 'v) outside
      \<Rightarrow> ('b, 'sch) scheme_lib \<Rightarrow> 'e flagset \<Rightarrow> 'e \<Rightarrow> string option \<Rightarrow> string list
      \<Rightarrow> ('sch, ('q, 's, 'w) budget_controller, 'q budget_webhook, 'v, nat) start" where
  "operator_main L A E K extra e webhooks args =
     (case main_init K of
        Inl _ \<Rightarrow> State_Monad.return 2
      | Inr s \<Rightarrow>
          (case parse_flags (operator_flags extra) args (operator_defaults e) of
             Inl HelpRequested \<Rightarrow> State_Monad.return 0
           | Inl _ \<Rightarrow> State_Monad.return 2
           | Inr x \<Rightarrow> run_operator L A E s webhooks x))"

subsection \<open>Laws of the start\<close>

text \<open>
  \<open>stops plan calls code\<close>: the calls follow the plan, each with the answer that nothing
  failed, up to the end (exit code 0) or to the first that failed (exit code 1).
\<close>

fun stops ::
    "(goerr option \<Rightarrow> ('sch, 'ctl, 'wh) start_call) list \<Rightarrow> ('sch, 'ctl, 'wh) start_call list \<Rightarrow> nat \<Rightarrow> bool" where
  "stops [] calls code \<longleftrightarrow> calls = [] \<and> code = 0"
| "stops (c # plan) [] code \<longleftrightarrow> False"
| "stops (c # plan) (d # calls) code \<longleftrightarrow>
     (if answer d = None then d = c None \<and> stops plan calls code
      else d = c (answer d) \<and> calls = [] \<and> code = 1)"

definition startup_plan ::
    "('q, 's) k8s \<Rightarrow> ('q, 's, 'w) api \<Rightarrow> 'sch \<Rightarrow> string option \<Rightarrow> 'e operator_options
      \<Rightarrow> (goerr option \<Rightarrow> ('sch, ('q, 's, 'w) budget_controller, 'q budget_webhook) start_call) list" where
  "startup_plan L A s webhooks x =
     [GetConfigOrDie, NewManager (manager_options_of s x), NewForConfig,
      CompleteController (SetupWithManager L A)] @
     (if webhooks = Some ''false'' then []
      else [CompleteWebhook (SetupGPUWorkloadBudgetWebhookWithManager L)]) @
     [AddHealthzCheck ''healthz'', AddReadyzCheck ''readyz'', StartManager]"

definition follows ::
    "(goerr option \<Rightarrow> ('sch, 'ctl, 'wh) start_call) list \<Rightarrow> ('sch, 'ctl, 'wh, 'v, nat) start \<Rightarrow> bool" where
  "follows plan m \<longleftrightarrow> (\<forall>v cs. \<exists>ds. snd (snd (run_state m (v, cs))) = cs @ ds \<and>
     stops plan ds (fst (run_state m (v, cs))))"

lemma follows_end: "follows [] (State_Monad.return 0)"
  by (simp add: follows_def)

lemma follows_or_exit:
  assumes "follows plan rest" and "\<And>e. answer (c e) = e"
  shows "follows (c # plan) (or_exit (ask E c) rest)"
  unfolding follows_def
proof (intro allI)
  fix v cs
  obtain e v' where e: "E c v = (e, v')" by force
  show "\<exists>ds. snd (snd (run_state (or_exit (ask E c) rest) (v, cs))) = cs @ ds \<and>
      stops (c # plan) ds (fst (run_state (or_exit (ask E c) rest) (v, cs)))"
  proof (cases e)
    case None
    from assms(1) obtain ds where "snd (snd (run_state rest (v', cs @ [c None]))) = (cs @ [c None]) @ ds"
      "stops plan ds (fst (run_state rest (v', cs @ [c None])))" unfolding follows_def by blast
    then show ?thesis
      using None e assms(2) by (intro exI [of _ "c None # ds"]) (simp add: or_exit_def ask_def)
  next
    case (Some err)
    then show ?thesis
      using e assms(2) by (intro exI [of _ "[c e]"]) (simp add: or_exit_def ask_def)
  qed
qed

lemma run_operator_follows: "follows (startup_plan L A s webhooks x) (run_operator L A E s webhooks x)"
  unfolding run_operator_def startup_plan_def Let_def
  by (cases "webhooks = Some ''false''") (simp_all add: follows_or_exit follows_end)

lemma stops_success:
  "stops plan calls 0 \<Longrightarrow> calls = map (\<lambda>c. c None) plan"
  by (induction plan calls "0 :: nat" rule: stops.induct) (auto split: if_splits)

text \<open>Options that no word of the command line names keep their default.\<close>

lemma operator_flags_keep:
  assumes "set_flag (operator_flags extra) n v x = Some y"
  shows "n \<noteq> ''enable-http2'' \<Longrightarrow> op_enableHTTP2 y = op_enableHTTP2 x"
    and "n \<noteq> ''metrics-secure'' \<Longrightarrow> op_secureMetrics y = op_secureMetrics x"
    and "n \<noteq> ''leader-elect'' \<Longrightarrow> op_enableLeaderElection y = op_enableLeaderElection x"
  using assms by (auto simp: operator_flags_def split: if_splits)

definition names_flag :: "string \<Rightarrow> string list \<Rightarrow> bool" where
  "names_flag n args \<longleftrightarrow> (\<exists>s \<in> set args. is_flag s \<and> fst (split_value (flag_name s)) = n)"

lemma unnamed_flags_keep_defaults:
  assumes "parse_flags (operator_flags extra) args (operator_defaults e) = Inr x"
  shows "\<not> names_flag ''enable-http2'' args \<Longrightarrow> \<not> op_enableHTTP2 x"
    and "\<not> names_flag ''metrics-secure'' args \<Longrightarrow> op_secureMetrics x"
    and "\<not> names_flag ''leader-elect'' args \<Longrightarrow> \<not> op_enableLeaderElection x"
proof -
  note inv = parse_flags_invariant [OF assms]
  note keep = operator_flags_keep
  show "\<not> op_enableHTTP2 x" if "\<not> names_flag ''enable-http2'' args"
  proof (rule inv)
    show "\<not> op_enableHTTP2 (operator_defaults e)" by (simp add: operator_defaults_def)
    show "\<not> op_enableHTTP2 z" if "s \<in> set args" "is_flag s" "\<not> op_enableHTTP2 y"
      "set_flag (operator_flags extra) (fst (split_value (flag_name s))) v y = Some z" for s v y z
      using keep(1) [OF that(4)] that \<open>\<not> names_flag _ _\<close> by (auto simp: names_flag_def)
  qed
  show "op_secureMetrics x" if "\<not> names_flag ''metrics-secure'' args"
  proof (rule inv)
    show "op_secureMetrics (operator_defaults e)" by (simp add: operator_defaults_def)
    show "op_secureMetrics z" if "s \<in> set args" "is_flag s" "op_secureMetrics y"
      "set_flag (operator_flags extra) (fst (split_value (flag_name s))) v y = Some z" for s v y z
      using keep(2) [OF that(4)] that \<open>\<not> names_flag _ _\<close> by (auto simp: names_flag_def)
  qed
  show "\<not> op_enableLeaderElection x" if "\<not> names_flag ''leader-elect'' args"
  proof (rule inv)
    show "\<not> op_enableLeaderElection (operator_defaults e)" by (simp add: operator_defaults_def)
    show "\<not> op_enableLeaderElection z" if "s \<in> set args" "is_flag s" "\<not> op_enableLeaderElection y"
      "set_flag (operator_flags extra) (fst (split_value (flag_name s))) v y = Some z" for s v y z
      using keep(3) [OF that(4)] that \<open>\<not> names_flag _ _\<close> by (auto simp: names_flag_def)
  qed
qed

text \<open>
  The documented behaviour of the scheme library: registered types are recognised once the
  builder has been added, and adding does not lose types.
\<close>

definition scheme_contract ::
    "('b, 'sch) scheme_lib \<Rightarrow> ('b \<Rightarrow> (string \<times> string) \<times> string list)
      \<Rightarrow> ('sch \<Rightarrow> (string \<times> string) \<Rightarrow> string \<Rightarrow> bool) \<Rightarrow> bool" where
  "scheme_contract K content knows \<longleftrightarrow>
     (\<forall>gv. content (newBuilder K gv) = (gv, [])) \<and>
     (\<forall>b ks. content (register K ks b) = (fst (content b), snd (content b) @ ks)) \<and>
     (\<forall>b s s'. addToScheme K b s = Inr s' \<longrightarrow>
        (\<forall>gv k. knows s' gv k \<longleftrightarrow> knows s gv k \<or> gv = fst (content b) \<and> k \<in> set (snd (content b))))"

lemma scheme_contractD:
  assumes "scheme_contract K content knows"
  shows "content (newBuilder K gv) = (gv, [])"
    and "content (register K ks b) = (fst (content b), snd (content b) @ ks)"
    and "addToScheme K b s = Inr s' \<Longrightarrow>
      knows s' gv k \<longleftrightarrow> knows s gv k \<or> gv = fst (content b) \<and> k \<in> set (snd (content b))"
  using assms unfolding scheme_contract_def by blast+

lemma main_init_knows:
  assumes "scheme_contract K content knows" and "main_init K = Inr s"
  shows "knows s GroupVersion ''GPUWorkloadBudget''" and "knows s GroupVersion ''GPUWorkloadBudgetList''"
    and "clientgoAddToScheme K (newScheme K) = Inr s0 \<Longrightarrow> knows s0 gv k \<Longrightarrow> knows s gv k"
proof -
  have c: "content (api_init K) = (GroupVersion, [''GPUWorkloadBudget'', ''GPUWorkloadBudgetList''])"
    using scheme_contractD(1,2) [OF assms(1)] by (simp add: GroupVersion_def SchemeBuilder_def api_init_def)
  from assms(2) obtain s1 where s1: "clientgoAddToScheme K (newScheme K) = Inr s1" "addToScheme K (api_init K) s1 = Inr s"
    by (auto simp: main_init_def AddToScheme_def split: sum.splits)
  then have k: "knows s gv k \<longleftrightarrow> knows s1 gv k \<or>
      gv = GroupVersion \<and> k \<in> {''GPUWorkloadBudget'', ''GPUWorkloadBudgetList''}" for gv k
    using scheme_contractD(3) [OF assms(1) s1(2), of gv k] by (simp add: c)
  show "knows s GroupVersion ''GPUWorkloadBudget''" and "knows s GroupVersion ''GPUWorkloadBudgetList''"
    by (simp_all add: k)
  show "clientgoAddToScheme K (newScheme K) = Inr s0 \<Longrightarrow> knows s0 gv k \<Longrightarrow> knows s gv k"
    using s1(1) by (simp add: k)
qed

text \<open>
  What \<open>main\<close> does as a whole: nothing is called when the types cannot be registered, the
  command line does not parse or help is asked for, and else the plan is followed.
\<close>

definition main_spec ::
    "('q, 's) k8s \<Rightarrow> ('q, 's, 'w) api \<Rightarrow> ('b, 'sch) scheme_lib \<Rightarrow> 'e flagset \<Rightarrow> 'e \<Rightarrow> string option
      \<Rightarrow> string list \<Rightarrow> ('sch, ('q, 's, 'w) budget_controller, 'q budget_webhook) start_call list
      \<Rightarrow> nat \<Rightarrow> bool" where
  "main_spec L A K extra e webhooks args calls code \<longleftrightarrow>
     (case main_init K of
        Inl _ \<Rightarrow> calls = [] \<and> code = 2
      | Inr s \<Rightarrow>
          (case parse_flags (operator_flags extra) args (operator_defaults e) of
             Inl err \<Rightarrow> calls = [] \<and> code = (if err = HelpRequested then 0 else 2)
           | Inr x \<Rightarrow> stops (startup_plan L A s webhooks x) calls code))"

lemma operator_main_spec:
  "main_spec L A K extra e webhooks args
     (snd (snd (run_state (operator_main L A E K extra e webhooks args) (v, []))))
     (fst (run_state (operator_main L A E K extra e webhooks args) (v, [])))"
proof -
  have "stops (startup_plan L A s webhooks x)
      (snd (snd (run_state (run_operator L A E s webhooks x) (v, []))))
      (fst (run_state (run_operator L A E s webhooks x) (v, [])))" for s x
    using run_operator_follows [of L A s webhooks x E] unfolding follows_def
    by (metis append_Nil)
  then show ?thesis
    by (auto simp: main_spec_def operator_main_def split: sum.split flag_error.split)
qed

text \<open>The options of both servers, when no word of the command line asks for something else.\<close>

lemma servers_hardened:
  assumes "\<not> op_enableHTTP2 x"
  shows "nextProtos (apply_tls (wh_tlsOpts (webhookServerOptions x)) c) = [''http/1.1'']"
    and "nextProtos (apply_tls (ms_tlsOpts (metricsServerOptions x)) c) = [''http/1.1'']"
  using assms
  by (simp_all add: webhookServerOptions_def metricsServerOptions_def tlsOpts_def apply_tls_def
      disableHTTP2_def Let_def)

lemma metrics_filter:
  "ms_secureServing (metricsServerOptions x) = op_secureMetrics x"
  "ms_filterProvider (metricsServerOptions x) =
    (if op_secureMetrics x then Some WithAuthenticationAndAuthorization else None)"
  by (simp_all add: metricsServerOptions_def Let_def)

text \<open>An instance of the parameters: no further flags.\<close>

definition no_flags :: "unit flagset" where
  "no_flags = \<lparr>bool_flag = (\<lambda>_. None), set_flag = (\<lambda>_ _ _. None)\<rparr>"

definition sample_args :: "string list" where
  "sample_args = [''--leader-elect'', ''--metrics-bind-address=:8443'', ''-metrics-cert-path'', ''/certs'', ''rest'']"

lemma sample_parse:
  "parse_flags (operator_flags no_flags) sample_args (operator_defaults ()) =
    Inr ((operator_defaults ())\<lparr>op_enableLeaderElection := True, op_metricsAddr := '':8443'',
      op_metricsCertPath := ''/certs''\<rparr>)"
  by (simp add: sample_args_def parse_one_def take_value_def is_flag_def bad_name_def flag_name_def
      operator_flags_def no_flags_def operator_defaults_def ParseBool_def)

lemma default_servers_hardened:
  assumes "parse_flags (operator_flags extra) args (operator_defaults e) = Inr x"
    and "\<not> names_flag ''enable-http2'' args" and "\<not> names_flag ''metrics-secure'' args"
  shows "nextProtos (apply_tls (wh_tlsOpts (webhookServerOptions x)) c) = [''http/1.1''] \<and>
    nextProtos (apply_tls (ms_tlsOpts (metricsServerOptions x)) c) = [''http/1.1''] \<and>
    ms_secureServing (metricsServerOptions x) \<and>
    ms_filterProvider (metricsServerOptions x) = Some WithAuthenticationAndAuthorization"
  using unnamed_flags_keep_defaults(1,2) [OF assms(1)] assms(2,3)
  by (simp add: servers_hardened metrics_filter)

end
