(* ===== verification/Bench.thy ===== *)
theory Bench
  imports GoTime
begin

text \<open>
  The benchmark harness (\<open>test/bench/harness.go\<close>) and the checks of its command line
  (\<open>test/bench/cmd/gwb-bench/main.go\<close>): the expected GPU-hours of a scenario, which the loop
  with its early exit computes like the documented sum, and the accuracy score.
\<close>

subsection \<open>Definitions\<close>

record scenario =
  sc_count :: "64 word"
  sc_rate :: float64
  sc_runtime :: duration
  sc_gpus :: float64

text \<open>The error names the field and holds the rejected value.\<close>

datatype scenario_error =
    BadCount "64 word"
  | BadRate float64
  | BadRuntime duration
  | BadGPUs float64

definition Validate :: "scenario \<Rightarrow> scenario_error option" where
  "Validate s =
     (if sint (sc_count s) \<le> 0 then Some (BadCount (sc_count s))
      else if fle (sc_rate s) (Fin 0) then Some (BadRate (sc_rate s))
      else if sint (sc_runtime s) \<le> 0 then Some (BadRuntime (sc_runtime s))
      else if fle (sc_gpus s) (Fin 0) then Some (BadGPUs (sc_gpus s))
      else None)"

definition pod_seconds :: "float64 \<Rightarrow> float64 \<Rightarrow> float64 \<Rightarrow> float64" where
  "pod_seconds tEnd runSec tStart =
     (let finish = fadd tStart runSec; finish' = (if flt tEnd finish then tEnd else finish)
      in fsub finish' tStart)"

definition arrival :: "float64 \<Rightarrow> nat \<Rightarrow> float64" where
  "arrival interval i = fmul (round64 (of_nat i)) interval"

text \<open>The loop from index \<open>i\<close> on, with \<open>k\<close> indices to go.\<close>

fun expected_loop ::
    "float64 \<Rightarrow> float64 \<Rightarrow> float64 \<Rightarrow> float64 \<Rightarrow> nat \<Rightarrow> nat \<Rightarrow> float64 \<Rightarrow> float64" where
  "expected_loop interval tEnd runSec gpus 0 i acc = acc"
| "expected_loop interval tEnd runSec gpus (Suc k) i acc =
     (let tStart = arrival interval i
      in if fle tEnd tStart then acc
         else expected_loop interval tEnd runSec gpus k (Suc i)
           (fadd acc (fmul (pod_seconds tEnd runSec tStart) gpus)))"

definition ExpectedGPUHours :: "scenario \<Rightarrow> duration \<Rightarrow> float64" where
  "ExpectedGPUHours s elapsed =
     (if Validate s \<noteq> None then Fin 0
      else if sint elapsed \<le> 0 then Fin 0
      else fdiv (expected_loop (fdiv (Fin 1) (sc_rate s)) (Seconds elapsed) (Seconds (sc_runtime s))
             (sc_gpus s) (nat (sint (sc_count s))) 0 (Fin 0)) (Fin 3600))"

definition AccuracyRatio :: "float64 \<Rightarrow> float64 \<Rightarrow> float64" where
  "AccuracyRatio reported expected =
     (if fle expected (Fin 0) then (if fle reported (Fin 0) then Fin 1 else Fin 0)
      else let r = fdiv reported expected
        in if flt r (Fin 0) then Fin 0 else if flt (Fin 1) r then Fin 1 else r)"

record report_flags =
  rf_count :: "64 word"
  rf_rate :: float64
  rf_runtime :: duration
  rf_gpus :: float64
  rf_elapsed :: duration
  rf_statusJSON :: string
  rf_outDir :: string

definition validate_flags :: "report_flags \<Rightarrow> string option" where
  "validate_flags f =
     (if sint (rf_count f) \<le> 0 then Some ''--count must be > 0''
      else if fle (rf_rate f) (Fin 0) then Some ''--rate must be > 0''
      else if sint (rf_runtime f) \<le> 0 then Some ''--runtime must be > 0''
      else if fle (rf_gpus f) (Fin 0) then Some ''--gpus must be > 0''
      else if sint (rf_elapsed f) \<le> 0 then Some ''--elapsed must be > 0''
      else if rf_statusJSON f = '''' then Some ''--status-json is required''
      else if rf_outDir f = '''' then Some ''--out-dir is required''
      else None)"

definition scenario_of :: "report_flags \<Rightarrow> scenario" where
  "scenario_of f =
     \<lparr>sc_count = rf_count f, sc_rate = rf_rate f, sc_runtime = rf_runtime f, sc_gpus = rf_gpus f\<rparr>"

lemma flags_scenario: "validate_flags f = None \<Longrightarrow> Validate (scenario_of f) = None"
  by (auto simp: validate_flags_def Validate_def scenario_of_def split: if_splits)

subsection \<open>The early exit\<close>

text \<open>
  The documented sum: every index contributes the part of its run before the end, an index
  that starts at or after the end nothing.
\<close>

definition expected_sum ::
    "float64 \<Rightarrow> float64 \<Rightarrow> float64 \<Rightarrow> float64 \<Rightarrow> nat list \<Rightarrow> float64 \<Rightarrow> float64" where
  "expected_sum interval tEnd runSec gpus is start =
     foldl (\<lambda>acc i. if fle tEnd (arrival interval i) then acc
       else fadd acc (fmul (pod_seconds tEnd runSec (arrival interval i)) gpus)) start is"

lemma rep64_power63: "rep64 (2 ^ 63)"
  using round_grid_exact [of 1 63] by (simp add: rep64_def power_int_def)

lemma round64_index:
  assumes "i < 2 ^ 63"
  shows "\<exists>x. round64 (of_nat i) = Fin x \<and> 0 \<le> x"
proof -
  have "(of_nat i :: rat) \<le> of_nat (2 ^ 63)" using assms by (simp only: of_nat_le_iff less_imp_le)
  then have le: "fle (round64 (of_nat i)) (Fin (2 ^ 63))"
    using round64_mono [of "of_nat i" "2 ^ 63"] round64_rep64 [OF rep64_power63] by simp
  have nn: "nonneg64 (round64 (of_nat i))" by (rule nonneg64_round64) simp
  have "round64 (of_nat i) \<noteq> NegZero" by (simp add: round64_def Let_def)
  with nn le show ?thesis by (elim nonneg64_cases) auto
qed

lemma fmul_Fin_nonneg: "0 \<le> x \<Longrightarrow> 0 \<le> a \<Longrightarrow> fmul (Fin x) (Fin a) = round64 (x * a)"
  by (auto simp: fmul_def Let_def is_inf_def is_zero64_def signed_zero_def)

lemma arrival_mono:
  assumes "i \<le> j" and "j < 2 ^ 63" and "0 \<le> a"
  shows "fle (arrival (Fin a) i) (arrival (Fin a) j)"
proof -
  obtain x y where x: "round64 (of_nat i) = Fin x" "0 \<le> x" and y: "round64 (of_nat j) = Fin y" "0 \<le> y"
    using round64_index [of i] round64_index [of j] assms by auto
  have "fle (Fin x) (Fin y)" using round64_mono [of "of_nat i" "of_nat j"] assms(1) x y by simp
  then have "x * a \<le> y * a" using assms(3) by (simp add: mult_right_mono)
  then show ?thesis using x y assms(3) by (simp add: arrival_def fmul_Fin_nonneg round64_mono)
qed

lemma expected_sum_stop:
  "\<forall>i \<in> set is. fle tEnd (arrival interval i) \<Longrightarrow> expected_sum interval tEnd runSec gpus is acc = acc"
  by (induction "is") (auto simp: expected_sum_def)

lemma expected_sum_Cons:
  "expected_sum interval tEnd runSec gpus (i # is) acc =
    expected_sum interval tEnd runSec gpus is
      (if fle tEnd (arrival interval i) then acc
       else fadd acc (fmul (pod_seconds tEnd runSec (arrival interval i)) gpus))"
  by (simp add: expected_sum_def)

text \<open>An interval the division \<open>1.0 / Rate\<close> can yield for an accepted rate.\<close>

definition steady :: "float64 \<Rightarrow> bool" where
  "steady interval \<longleftrightarrow> interval = NaN \<or> (\<exists>a. interval = Fin a \<and> 0 \<le> a)"

lemma arrival_later:
  assumes "steady interval" and "fle tEnd (arrival interval i)" and "i \<le> j" and "j < 2 ^ 63"
  shows "fle tEnd (arrival interval j)"
proof -
  obtain a where "interval = Fin a" "0 \<le> a"
    using assms(1,2) by (auto simp: steady_def arrival_def fmul_def)
  then show ?thesis using assms arrival_mono fle_trans by blast
qed

lemma expected_loop_sum:
  assumes "steady interval"
  shows "i + k < 2 ^ 63 \<Longrightarrow> expected_loop interval tEnd runSec gpus k i acc =
    expected_sum interval tEnd runSec gpus [i ..< i + k] acc"
proof (induction k arbitrary: i acc)
  case 0
  then show ?case by (simp add: expected_sum_def)
next
  case (Suc k)
  have up: "[i ..< i + Suc k] = i # [Suc i ..< Suc i + k]" by (simp add: upt_conv_Cons)
  show ?case
  proof (cases "fle tEnd (arrival interval i)")
    case True
    then have "\<forall>j \<in> set [i ..< i + Suc k]. fle tEnd (arrival interval j)"
      using arrival_later [OF assms] Suc.prems by auto
    then show ?thesis using True by (simp add: expected_sum_stop del: upt_Suc)
  next
    case False
    then show ?thesis using Suc.IH [of "Suc i"] Suc.prems
      unfolding up by (simp add: expected_sum_Cons Let_def del: upt_Suc)
  qed
qed

lemma steady_interval:
  assumes "\<not> fle rate (Fin 0)" and "fdiv (Fin 1) rate \<noteq> PInf"
  shows "steady (fdiv (Fin 1) rate)"
proof (cases rate)
  case (Fin r)
  then have "0 < r" using assms(1) by simp
  then have "fdiv (Fin 1) rate = round64 (1 / r)" "nonneg64 (round64 (1 / r))" "round64 (1 / r) \<noteq> NegZero"
    using Fin nonneg64_round64 [of "1 / r"]
    by (auto simp: fdiv_def Let_def is_inf_def is_zero64_def round64_def)
  then show ?thesis using assms(2) by (auto simp: steady_def elim!: nonneg64_cases)
qed (use assms in \<open>auto simp: steady_def fdiv_def Let_def is_inf_def is_zero64_def signed_zero_def\<close>)

lemma sint_count_bound: "nat (sint (w :: 64 word)) < 2 ^ 63"
  using sint64_bounds [of w] by (simp add: nat_less_iff)

lemma ExpectedGPUHours_sum:
  assumes "Validate s = None" and "0 < sint elapsed" and "fdiv (Fin 1) (sc_rate s) \<noteq> PInf"
  shows "ExpectedGPUHours s elapsed =
    fdiv (expected_sum (fdiv (Fin 1) (sc_rate s)) (Seconds elapsed) (Seconds (sc_runtime s)) (sc_gpus s)
      [0 ..< nat (sint (sc_count s))] (Fin 0)) (Fin 3600)"
proof -
  have "\<not> fle (sc_rate s) (Fin 0)" using assms(1) by (auto simp: Validate_def split: if_splits)
  then show ?thesis
    using expected_loop_sum [OF steady_interval, of "sc_rate s" 0 "nat (sint (sc_count s))"]
      assms sint_count_bound [of "sc_count s"]
    by (simp add: ExpectedGPUHours_def)
qed

subsection \<open>The score\<close>

lemma AccuracyRatio_unit:
  assumes "reported \<noteq> NaN" and "expected \<noteq> NaN" and "expected \<noteq> PInf"
  shows "fle (Fin 0) (AccuracyRatio reported expected) \<and> fle (AccuracyRatio reported expected) (Fin 1)"
proof -
  have "fdiv reported expected \<noteq> NaN" if "\<not> fle expected (Fin 0)"
    using assms that
    by (cases expected; cases reported)
      (auto simp: fdiv_def Let_def is_inf_def is_zero64_def signed_inf_def signed_zero_def)
  then show ?thesis
    by (cases "fdiv reported expected") (auto simp: AccuracyRatio_def Let_def)
qed

lemma AccuracyRatio_full:
  assumes "flt (Fin 0) expected" and "expected \<noteq> PInf" and "fle expected reported"
  shows "AccuracyRatio reported expected = Fin 1"
proof -
  obtain e where e: "expected = Fin e" "0 < e" using assms(1,2) by (cases expected) auto
  show ?thesis
  proof (cases reported)
    case (Fin r)
    then have "1 \<le> r / e" using assms(3) e by (simp add: le_divide_eq)
    then have "fle (Fin 1) (fdiv reported expected)"
      using round64_mono [of 1 "r / e"] round64_rep64 [OF rep64_int [of 1]] Fin e
      by (auto simp: fdiv_def Let_def is_inf_def is_zero64_def)
    then show ?thesis using e by (cases "fdiv reported expected") (auto simp: AccuracyRatio_def Let_def)
  qed (use assms e in \<open>auto simp: AccuracyRatio_def Let_def fdiv_def is_inf_def is_zero64_def signed_inf_def\<close>)
qed

lemma accuracy_score_bounds:
  assumes "reported \<noteq> NaN" and "flt (Fin 0) expected" and "expected \<noteq> PInf"
  shows "fle (Fin 0) (AccuracyRatio reported expected) \<and> fle (AccuracyRatio reported expected) (Fin 1) \<and>
    (fle expected reported \<longrightarrow> AccuracyRatio reported expected = Fin 1)"
  using AccuracyRatio_unit [of reported expected] AccuracyRatio_full [of expected reported] assms
  by (auto dest: flt_not_NaN)

lemma expected_hours_is_documented_sum:
  assumes "Validate s = None" and "0 < sint elapsed" and "fdiv (Fin 1) (sc_rate s) \<noteq> PInf"
  shows "ExpectedGPUHours s elapsed =
    fdiv (expected_sum (fdiv (Fin 1) (sc_rate s)) (Seconds elapsed) (Seconds (sc_runtime s)) (sc_gpus s)
      [0 ..< nat (sint (sc_count s))] (Fin 0)) (Fin 3600)"
  using assms by (rule ExpectedGPUHours_sum)

end
