(* ===== verification/IdealRun.thy ===== *)
theory IdealRun
  imports Accuracy Bench
begin

text \<open>
  The benchmark's oracle against the accounting engine: an ideal run of a scenario, in which
  every pod starts exactly when it arrives and runs exactly as long as configured, accounted by
  \<open>Compute\<close>, scores nearly one under \<open>AccuracyRatio\<close>. Times are whole seconds and GPU counts
  whole numbers, so the harness rounds once; the engine rounds at every step.
\<close>

subsection \<open>Whole numbers in floats\<close>

lemma round64_whole: "\<bar>n\<bar> \<le> 2 ^ 53 \<Longrightarrow> round64 (of_int n) = Fin (of_int n)"
  by (intro round64_rep64 rep64_int)

lemma round64_positive: "0 < x \<Longrightarrow> round64 x \<noteq> NegZero"
  by (simp add: round64_def Let_def)

lemma fadd_whole: "\<bar>m + n\<bar> \<le> 2 ^ 53 \<Longrightarrow> fadd (Fin (of_int m)) (Fin (of_int n)) = Fin (of_int (m + n))"
  using round64_whole [of "m + n"] by simp

lemma fsub_whole: "\<bar>m - n\<bar> \<le> 2 ^ 53 \<Longrightarrow> fsub (Fin (of_int m)) (Fin (of_int n)) = Fin (of_int (m - n))"
  using round64_whole [of "m - n"] by (simp add: fsub_Fin)

lemma fmul_whole:
  assumes "0 \<le> m" and "0 \<le> n" and "m * n \<le> 2 ^ 53"
  shows "fmul (Fin (of_int m)) (Fin (of_int n)) = Fin (of_int (m * n))"
proof -
  have "\<bar>m * n\<bar> \<le> 2 ^ 53" using assms by simp
  from round64_whole [OF this] show ?thesis using assms by (simp add: fmul_Fin_nonneg)
qed

lemma fle_whole: "fle (Fin (of_int m)) (Fin (of_int n)) \<longleftrightarrow> m \<le> n"
  by simp

lemma flt_whole: "flt (Fin (of_int m)) (Fin (of_int n)) \<longleftrightarrow> m < n"
  by simp

lemma Seconds_whole:
  assumes "sint d = n * 1000000000" and "0 \<le> n"
  shows "Seconds d = Fin (of_int n)"
proof -
  have "n \<le> 2 ^ 53" using assms sint64_bounds [of d] by auto
  moreover have "sint d sdiv 1000000000 = n" "sint d smod 1000000000 = 0"
    using assms by (simp_all add: signed_divide_int_def signed_modulo_int_def sgn_if)
  moreover have "fdiv (Fin 0) (Fin 1000000000) = Fin 0"
    by (simp add: fdiv_def is_inf_def is_zero64_def signed_zero_def Let_def)
  ultimately show ?thesis
    using assms(2) round64_whole [of n] by (simp add: Seconds_def Let_def del: of_int_sint)
qed

subsection \<open>The harness on whole seconds\<close>

text \<open>Pod-seconds times GPUs of the pod with index \<open>i\<close>, and their sum.\<close>

definition ideal_seconds :: "int \<Rightarrow> int \<Rightarrow> int \<Rightarrow> int \<Rightarrow> nat \<Rightarrow> int" where
  "ideal_seconds g d R T i = (if int i * d < T then g * min R (T - int i * d) else 0)"

definition ideal_total :: "int \<Rightarrow> int \<Rightarrow> int \<Rightarrow> int \<Rightarrow> nat \<Rightarrow> int" where
  "ideal_total g d R T n = sum_list (map (ideal_seconds g d R T) [0..<n])"

lemma ideal_seconds_range:
  assumes "0 \<le> g" and "0 \<le> R"
  shows "0 \<le> ideal_seconds g d R T i" and "ideal_seconds g d R T i \<le> g * R"
  using assms by (auto simp: ideal_seconds_def intro: mult_left_mono)

lemma ideal_total_Suc:
  "ideal_total g d R T (Suc n) = ideal_total g d R T n + ideal_seconds g d R T n"
  by (simp add: ideal_total_def)

lemma ideal_total_range:
  assumes "0 \<le> g" and "0 \<le> R"
  shows "0 \<le> ideal_total g d R T n" and "ideal_total g d R T n \<le> g * R * int n"
proof (induction n)
  case 0
  show "0 \<le> ideal_total g d R T 0" "ideal_total g d R T 0 \<le> g * R * int 0"
    by (simp_all add: ideal_total_def)
next
  case (Suc n)
  then show "0 \<le> ideal_total g d R T (Suc n)" "ideal_total g d R T (Suc n) \<le> g * R * int (Suc n)"
    using ideal_seconds_range [OF assms, of d T n] by (simp_all add: ideal_total_Suc algebra_simps)
qed

text \<open>The scenario of an ideal run: \<open>n\<close> pods of \<open>g\<close> GPUs every \<open>d\<close> seconds for \<open>R\<close> seconds.\<close>

definition ideal_scenario :: "scenario \<Rightarrow> int \<Rightarrow> int \<Rightarrow> int \<Rightarrow> nat \<Rightarrow> bool" where
  "ideal_scenario s g d R n \<longleftrightarrow>
     0 < n \<and> int n = sint (sc_count s) \<and> n \<le> 2 ^ 50 \<and> 0 < sint (sc_runtime s) \<and>
     sint (sc_runtime s) = R * 1000000000 \<and> 0 < g \<and> sc_gpus s = Fin (of_int g) \<and>
     \<not> fle (sc_rate s) (Fin 0) \<and> fdiv (Fin 1) (sc_rate s) = Fin (of_int d) \<and> 0 \<le> d \<and>
     int n * d \<le> 2 ^ 53 \<and> g * R * int n \<le> 2 ^ 53"

lemma arrival_whole:
  assumes "0 \<le> d" and "int i * d \<le> 2 ^ 53" and "i \<le> 2 ^ 50"
  shows "arrival (Fin (of_int d)) i = Fin (of_int (int i * d))"
proof -
  have "\<bar>int i\<bar> \<le> 2 ^ 53" using assms(3) by (simp add: order_trans [of "int i" "2 ^ 50"] flip: of_nat_le_iff)
  then have "round64 (of_nat i) = Fin (of_int (int i))"
    using round64_whole [of "int i"] by simp
  then show ?thesis using fmul_whole [of "int i" d] assms by (simp add: arrival_def)
qed

lemma expected_sum_ideal:
  assumes "0 \<le> d" and "0 < g" and "0 < R" and "0 < T" and "T \<le> 2 ^ 52" and "R \<le> 2 ^ 52"
    and "int n * d \<le> 2 ^ 53" and "n \<le> 2 ^ 50" and "g * R * int n \<le> 2 ^ 53"
  shows "expected_sum (Fin (of_int d)) (Fin (of_int T)) (Fin (of_int R)) (Fin (of_int g)) [0..<n] (Fin 0) =
    Fin (of_int (ideal_total g d R T n))"
  using assms(7-9)
proof (induction n)
  case 0
  then show ?case by (simp add: expected_sum_def ideal_total_def)
next
  case (Suc n)
  have n: "int n * d \<le> 2 ^ 53" "n \<le> 2 ^ 50" "g * R * int n \<le> 2 ^ 53"
    using Suc.prems assms(1-3) by (simp_all add: algebra_simps) (smt (verit) mult_nonneg_nonneg)+
  note IH = Suc.IH [OF n]
  have a: "arrival (Fin (of_int d)) n = Fin (of_int (int n * d))"
    by (rule arrival_whole [OF assms(1) n(1,2)])
  have snoc: "expected_sum (Fin (of_int d)) (Fin (of_int T)) (Fin (of_int R)) (Fin (of_int g)) [0..<Suc n] (Fin 0) =
      (if fle (Fin (of_int T)) (Fin (of_int (int n * d))) then Fin (of_int (ideal_total g d R T n))
       else fadd (Fin (of_int (ideal_total g d R T n)))
         (fmul (pod_seconds (Fin (of_int T)) (Fin (of_int R)) (Fin (of_int (int n * d)))) (Fin (of_int g))))"
    using IH by (simp add: expected_sum_def a)
  show ?case
  proof (cases "int n * d < T")
    case False
    then show ?thesis unfolding snoc fle_whole by (simp add: ideal_total_Suc ideal_seconds_def)
  next
    case True
    let ?m = "min R (T - int n * d)"
    have nd: "0 \<le> int n * d" using assms(1) by simp
    have f: "fadd (Fin (of_int (int n * d))) (Fin (of_int R)) = Fin (of_int (int n * d + R))"
      using True nd assms(3,5,6) by (intro fadd_whole) simp
    have ps: "pod_seconds (Fin (of_int T)) (Fin (of_int R)) (Fin (of_int (int n * d))) = Fin (of_int ?m)"
    proof (cases "T < int n * d + R")
      case True
      then have "?m = T - int n * d" by linarith
      moreover have "fsub (Fin (of_int T)) (Fin (of_int (int n * d))) = Fin (of_int (T - int n * d))"
        using nd assms(4,5) \<open>int n * d < T\<close> by (intro fsub_whole) simp
      ultimately show ?thesis
        unfolding pod_seconds_def Let_def f flt_whole by (simp only: True if_True)
    next
      case False
      then have "?m = R" by linarith
      moreover have "fsub (Fin (of_int (int n * d + R))) (Fin (of_int (int n * d))) = Fin (of_int R)"
        using fsub_whole [of "int n * d + R" "int n * d"] assms by simp
      ultimately show ?thesis
        unfolding pod_seconds_def Let_def f flt_whole by (simp only: False if_False)
    qed
    have m: "0 \<le> ?m" using True assms(3) by simp
    have gm: "ideal_seconds g d R T n = ?m * g" using True by (simp add: ideal_seconds_def)
    have r: "0 \<le> ideal_seconds g d R T n" "ideal_seconds g d R T n \<le> g * R"
        "0 \<le> ideal_total g d R T n" "ideal_total g d R T n \<le> g * R * int n"
      using ideal_seconds_range ideal_total_range assms(2,3) by simp_all
    have tot: "ideal_total g d R T n + ideal_seconds g d R T n \<le> 2 ^ 53"
      using r Suc.prems(3) by (simp add: algebra_simps)
    have "fmul (Fin (of_int ?m)) (Fin (of_int g)) = Fin (of_int (ideal_seconds g d R T n))"
      using fmul_whole [of ?m g] m assms(2) r tot by (simp add: gm)
    moreover have "fadd (Fin (of_int (ideal_total g d R T n))) (Fin (of_int (ideal_seconds g d R T n))) =
        Fin (of_int (ideal_total g d R T (Suc n)))"
      unfolding ideal_total_Suc using r tot by (intro fadd_whole) linarith
    ultimately show ?thesis unfolding snoc fle_whole ps using True by (simp del: fadd.simps)
  qed
qed

lemma ideal_expected:
  assumes "ideal_scenario s g d R n" and "sint elapsed = T * 1000000000" and "0 < T"
  shows "ExpectedGPUHours s elapsed = round64 (of_int (ideal_total g d R T n) / 3600)"
proof -
  note i = assms(1) [unfolded ideal_scenario_def]
  have "R * 1000000000 < 2 ^ 63" "T * 1000000000 < 2 ^ 63" "0 < R * 1000000000"
    using i assms(2) sint64_bounds(2) [of "sc_runtime s"] sint64_bounds(2) [of elapsed] by metis+
  then have R: "0 < R" "R \<le> 2 ^ 52" and T: "T \<le> 2 ^ 52" by simp_all
  have v: "Validate s = None" using i by (simp add: Validate_def)
  have n: "nat (sint (sc_count s)) = n" using i by (metis nat_int)
  have e: "expected_sum (Fin (of_int d)) (Fin (of_int T)) (Fin (of_int R)) (Fin (of_int g)) [0..<n] (Fin 0) =
      Fin (of_int (ideal_total g d R T n))"
    using i R T assms(3) by (intro expected_sum_ideal) blast+
  have se: "Seconds elapsed = Fin (of_int T)" "Seconds (sc_runtime s) = Fin (of_int R)"
    using Seconds_whole [OF assms(2)] Seconds_whole [of "sc_runtime s" R] i R assms(3) by simp_all
  have "ExpectedGPUHours s elapsed =
      fdiv (Fin (of_int (ideal_total g d R T n))) (Fin 3600)"
  proof -
    have "0 < sint elapsed" "fdiv (Fin 1) (sc_rate s) \<noteq> PInf" using assms(2,3) i by simp_all
    from ExpectedGPUHours_sum [OF v this] show ?thesis
      using i unfolding n se by (simp only: e)
  qed
  also have "\<dots> = round64 (of_int (ideal_total g d R T n) / 3600)"
    using ideal_total_range(1) [of g R d T n] i R by (intro fdiv_Fin rep64_numeral) auto
  finally show ?thesis .
qed

subsection \<open>The engine on the same run\<close>

definition ideal_pod :: "int \<Rightarrow> int \<Rightarrow> int \<Rightarrow> gotime \<Rightarrow> nat \<Rightarrow> acc_pod" where
  "ideal_pod g d R t0 i =
     \<lparr>acc_id = ''worker'', acc_start = t0 + int i * d * 1000000000,
      acc_end = Some (t0 + (int i * d + R) * 1000000000), acc_gpus = Fin (of_int g)\<rparr>"

definition ideal_pods :: "int \<Rightarrow> int \<Rightarrow> int \<Rightarrow> gotime \<Rightarrow> nat \<Rightarrow> acc_pod list" where
  "ideal_pods g d R t0 n = map (ideal_pod g d R t0) [0..<n]"

lemma overlap_ideal:
  assumes "from \<le> t0" and "0 \<le> d"
  shows "overlap (ideal_pod g d R t0 i) from (t0 + T * 1000000000) = min R (T - int i * d) * 1000000000"
proof -
  have "from \<le> t0 + int i * d * 1000000000" using assms by (simp add: add_increasing2)
  then show ?thesis
    by (simp add: overlap_def ideal_pod_def min_def max_def algebra_simps)
qed

lemma exact_usage_ideal:
  assumes "from \<le> t0" and "0 \<le> d" and "0 < g" and "0 < R"
  shows "exact_usage (ideal_pod g d R t0 i) from (t0 + T * 1000000000) =
    of_int (ideal_seconds g d R T i) / 3600"
proof -
  have "hours_exact (m * 1000000000) = of_int m / 3600" for m
    by (simp add: hours_exact_def)
  moreover have "0 < min R (T - int i * d) * 1000000000 \<longleftrightarrow> int i * d < T" using assms(4) by auto
  ultimately show ?thesis
    using assms(3) unfolding exact_usage_def overlap_ideal [OF assms(1,2)]
    by (simp add: ideal_pod_def ideal_seconds_def)
qed

lemma exact_sum_ideal:
  assumes "from \<le> t0" and "0 \<le> d" and "0 < g" and "0 < R"
  shows "exact_sum from (t0 + T * 1000000000) (ideal_pods g d R t0 n) = of_int (ideal_total g d R T n) / 3600"
proof (induction n)
  case 0
  then show ?case by (simp add: exact_sum_def ideal_pods_def ideal_total_def)
next
  case (Suc n)
  have "ideal_pods g d R t0 (Suc n) = ideal_pods g d R t0 n @ [ideal_pod g d R t0 n]"
    by (simp add: ideal_pods_def)
  then show ?case
    using Suc.IH exact_usage_ideal [OF assms, of n T]
    by (simp add: exact_sum_snoc ideal_total_Suc add_divide_distrib)
qed

lemma ideal_measurable:
  assumes "from \<le> t0" and "0 \<le> d" and "0 < g" and "g \<le> 2 ^ 53" and "T \<le> 9223372036"
  shows "\<forall>p \<in> set (ideal_pods g d R t0 n). measurable from (t0 + T * 1000000000) p"
proof
  fix p
  assume "p \<in> set (ideal_pods g d R t0 n)"
  then obtain i where p: "p = ideal_pod g d R t0 i" by (auto simp: ideal_pods_def)
  have "min R (T - int i * d) \<le> T" using assms(2) by (simp add: min.coboundedI2)
  then have "overlap p from (t0 + T * 1000000000) < 2 ^ 63"
    unfolding p overlap_ideal [OF assms(1,2)] using assms(5) by simp
  moreover have "(1 / 10 ^ 9 :: rat) \<le> of_int g"
  proof -
    have "(1 :: rat) \<le> of_int g" using assms(3) by simp
    then show ?thesis by (rule order_trans [rotated]) simp
  qed
  ultimately show "measurable from (t0 + T * 1000000000) p"
    using assms(3,4) by (auto simp: measurable_def p ideal_pod_def rep64_int)
qed

text \<open>Bernoulli's inequality for the rounding factors.\<close>

text \<open>A score of two numbers that are near the same exact one.\<close>

lemma near_score:
  assumes c: "near k c X" and e: "near 1 e X" and X: "0 < X" and k: "k \<le> 2 ^ 51" and re: "rep64 e"
  shows "\<exists>r. AccuracyRatio (Fin c) (Fin e) = Fin r \<and> 1 - of_nat (k + 2) * eps \<le> r \<and> r \<le> 1"
proof -
  have e0: "0 < e" using near_pos [OF e X] .
  have c0: "0 < c" using near_pos [OF c X] .
  have low: "(1 - eps) ^ Suc k \<le> c / e"
  proof -
    have "e \<le> (1 + eps) * X" "(1 - eps) ^ k * X \<le> c" using c e by (simp_all add: near_def)
    then have "(1 - eps) ^ Suc k * e \<le> (1 - eps) ^ Suc k * ((1 + eps) * X)"
      using eps_range by (intro mult_left_mono) auto
    also have "\<dots> = ((1 - eps) * (1 + eps)) * ((1 - eps) ^ k * X)" by simp
    also have "\<dots> \<le> 1 * ((1 - eps) ^ k * X)"
      using eps_range X by (intro mult_right_mono) (auto simp: algebra_simps)
    also have "\<dots> \<le> c" using \<open>(1 - eps) ^ k * X \<le> c\<close> by simp
    finally show ?thesis using e0 by (simp add: le_divide_eq)
  qed
  have half: "1 / 2 \<le> (1 - eps) ^ Suc k"
  proof -
    have "(of_nat (Suc k) :: rat) \<le> of_nat (2 ^ 51 + 1)" using k by (simp only: of_nat_le_iff)
    then have "of_nat (Suc k) * eps \<le> of_nat (2 ^ 51 + 1) * eps" using eps_range by (intro mult_right_mono) auto
    also have "\<dots> \<le> 1 / 2" by (simp add: eps_def)
    finally show ?thesis using eps_bernoulli [of "Suc k"] by linarith
  qed
  have div: "fdiv (Fin c) (Fin e) = round64 (c / e)" using fdiv_Fin [OF re e0] c0 by simp
  show ?thesis
  proof (cases "flt (Fin 1) (round64 (c / e))")
    case True
    then have "AccuracyRatio (Fin c) (Fin e) = Fin 1"
      using e0 by (cases "round64 (c / e)") (auto simp: AccuracyRatio_def div Let_def)
    then show ?thesis using eps_range by simp
  next
    case False
    then obtain r where r: "round64 (c / e) = Fin r" "r \<le> 1"
      using round64_mono [of 0 "c / e"] round64_positive [of "c / e"] e0 c0
      by (cases "round64 (c / e)") auto
    have "near 0 (c / e) (c / e)" using e0 c0 by (simp add: near_def)
    moreover have "2 powi (- 1022) \<le> (1 / 2 :: rat)" by simp
    then have "2 powi (- 1022) \<le> c / e" using half low by linarith
    ultimately have "near 1 r (c / e)"
      using near_round [of 0 "c / e" "c / e"] round64_Fin [OF r(1)] by simp
    then have "(1 - eps) * (c / e) \<le> r" by (simp add: near_def)
    moreover have "(1 - eps) * (1 - eps) ^ Suc k \<le> (1 - eps) * (c / e)"
      using low eps_range by (intro mult_left_mono) auto
    ultimately have b: "(1 - eps) ^ (k + 2) \<le> r" by simp
    moreover have "0 < (1 - eps) ^ (k + 2)" using eps_range by simp
    ultimately have "0 < r" by linarith
    then have "AccuracyRatio (Fin c) (Fin e) = Fin r"
      using e0 r by (simp add: AccuracyRatio_def div Let_def)
    then show ?thesis using b eps_bernoulli [of "k + 2"] r(2) by auto
  qed
qed

lemma ideal_run_score:
  assumes s: "ideal_scenario s g d R n" and el: "sint elapsed = T * 1000000000" "0 < T"
    and w: "window_start b (t0 + T * 1000000000) \<le> t0"
  shows "\<exists>r. AccuracyRatio (consumed (Compute b (t0 + T * 1000000000) (ideal_pods g d R t0 n)))
      (ExpectedGPUHours s elapsed) = Fin r \<and> 1 - of_nat (n + 5) * eps \<le> r \<and> r \<le> 1"
proof -
  note i = s [unfolded ideal_scenario_def]
  let ?now = "t0 + T * 1000000000" and ?pods = "ideal_pods g d R t0 n"
  let ?from = "window_start b ?now" and ?X = "of_int (ideal_total g d R T n) / 3600 :: rat"
  have "T * 1000000000 < 2 ^ 63" "0 < R * 1000000000"
    using i el(1) sint64_bounds(2) [of elapsed] by metis+
  then have R: "0 < R" by simp
  have T33: "T \<le> 9223372036" using \<open>T * 1000000000 < 2 ^ 63\<close> by simp
  have gR: "g * R * int n \<le> 2 ^ 53" using i by blast
  have pos: "0 < ideal_total g d R T n"
  proof -
    have n: "n = Suc (n - 1)" using i by simp
    have "[0..<n] = 0 # [1..<n]" using i by (simp add: upt_rec)
    then have "ideal_total g d R T n = ideal_seconds g d R T 0 + sum_list (map (ideal_seconds g d R T) [1..<n])"
      by (simp add: ideal_total_def)
    moreover have "0 < ideal_seconds g d R T 0" using i el(2) R by (simp add: ideal_seconds_def)
    moreover have "0 \<le> sum_list (map (ideal_seconds g d R T) [1..<n])"
      using ideal_seconds_range(1) [of g R d T] i R by (intro sum_list_nonneg) auto
    ultimately show ?thesis by linarith
  qed
  have X: "1 / 3600 \<le> ?X" using pos by (intro divide_right_mono) simp_all
  have X0: "0 < ?X" using pos by simp
  have g53: "g \<le> 2 ^ 53"
  proof -
    have "1 \<le> R * int n" using R i by (simp add: mult_pos_pos int_one_le_iff_zero_less)
    then have "g * 1 \<le> g * (R * int n)" using i by (intro mult_left_mono) auto
    then show ?thesis using gR by (simp add: mult.assoc)
  qed
  have ms: "\<forall>p \<in> set ?pods. measurable ?from ?now p"
    using ideal_measurable [OF w, of d g T R n] i g53 T33 by blast
  have ex: "exact_sum ?from ?now ?pods = ?X" using exact_sum_ideal [OF w, of d g R T n] i R by blast
  have le: "?X \<le> 2 ^ 53"
  proof -
    have "ideal_total g d R T n \<le> 2 ^ 53" using ideal_total_range(2) [of g R d T n] i R gR by linarith
    then have "(of_int (ideal_total g d R T n) :: rat) \<le> of_int (2 ^ 53)" by (simp only: of_int_le_iff)
    then show ?thesis by simp
  qed
  have "?X \<le> 2 ^ 98" using le by (rule order_trans) simp
  then have fin: "sum_usage (\<lambda>p. WindowUsage p ?from ?now) ?pods \<noteq> PInf"
    using ms ex i by (intro sum_finite) (auto simp: ideal_pods_def)
  obtain c where c: "consumed (Compute b ?now ?pods) = Fin c" "near (length ?pods + 3) c (exact_sum ?from ?now ?pods)"
    using sum_near [OF ms] fin by (auto simp del: Compute_simps simp: Compute_def Let_def)
  have cn: "near (n + 3) c ?X"
  proof -
    have "length ?pods = n" by (simp add: ideal_pods_def)
    then show ?thesis using c(2) unfolding ex by simp
  qed
  obtain e where e: "ExpectedGPUHours s elapsed = Fin e" "near 1 e ?X" "rep64 e"
  proof -
    have eq: "ExpectedGPUHours s elapsed = round64 ?X" by (rule ideal_expected [OF s el])
    have "fle (round64 ?X) (Fin (2 ^ 53))"
      using round64_mono [OF le] round64_whole [of "2 ^ 53"] by simp
    moreover have "nonneg64 (round64 ?X)" using X0 by (intro nonneg64_round64) simp
    moreover have "round64 ?X \<noteq> NegZero" by (rule round64_positive [OF X0])
    ultimately obtain x where x: "round64 ?X = Fin x" "rep64 x" by (elim nonneg64_cases) auto
    have "near 0 ?X ?X" using X0 by (simp add: near_def)
    moreover have "2 powi (- 1022) \<le> (1 / 3600 :: rat)" by simp
    then have "2 powi (- 1022) \<le> ?X" using X by linarith
    ultimately have "near 1 x ?X" using near_round [of 0 ?X ?X] round64_Fin [OF x(1)] by simp
    then show ?thesis using that eq x by simp
  qed
  have "n + 3 \<le> 2 ^ 51" using i by simp
  from near_score [OF cn e(2) X0 this e(3)] show ?thesis
    using c(1) e(1) by (simp add: add.commute)
qed

end
