(* ===== verification/Calendar.thy ===== *)
theory Calendar
  imports GoTime
begin

text \<open>
  Reading RFC 3339 times back: the calendar of the format is the inverse of counting days, and
  every field has its fixed width, so a reader that takes the fields at their places gets the
  instant back in whole seconds.
\<close>

subsection \<open>The calendar\<close>

text \<open>Days since January 1 of year 1 of a date, counted like the format does.\<close>

definition days_of :: "int \<Rightarrow> int \<Rightarrow> int \<Rightarrow> int" where
  "days_of y m d =
     (let y' = (if m \<le> 2 then y - 1 else y);
          mp = (if 2 < m then m - 3 else m + 9);
          yoe = y' mod 400
      in y' div 400 * 146097 + (365 * yoe + yoe div 4 - yoe div 100) + (153 * mp + 2) div 5 + d - 1 - 306)"

text \<open>The first day of a year in its era, and the days without the leap days before a day.\<close>

definition year_start :: "int \<Rightarrow> int" where
  "year_start y = 365 * y + y div 4 - y div 100"

definition leap_free :: "int \<Rightarrow> int" where
  "leap_free doe = doe - doe div 1460 + doe div 36524 - doe div 146096"

lemma leap_free_starts:
  "list_all (\<lambda>y. leap_free (year_start y) = 365 * y \<and> leap_free (year_start y - 1) < 365 * y) [1 .. 399]"
  by code_simp

lemma leap_free_start:
  assumes "1 \<le> y" and "y \<le> 399"
  shows "leap_free (year_start y) = 365 * y" and "leap_free (year_start y - 1) < 365 * y"
proof -
  have "y \<in> set [1 .. 399]" using assms unfolding set_upto atLeastAtMost_iff by (rule conjI)
  with leap_free_starts have "leap_free (year_start y) = 365 * y \<and> leap_free (year_start y - 1) < 365 * y"
    unfolding list_all_iff by (rule bspec)
  then show "leap_free (year_start y) = 365 * y" "leap_free (year_start y - 1) < 365 * y" by blast+
qed

lemma leap_free_mono:
  assumes "x \<le> x'" and "0 \<le> x" and "x' < 146096"
  shows "leap_free x \<le> leap_free x'"
proof -
  have "x' div 1460 \<le> (x + (x' - x) * 1460) div 1460" using assms(1) by (intro zdiv_mono1) auto
  then have a: "x' div 1460 \<le> x div 1460 + (x' - x)" by simp
  have b: "x div 36524 \<le> x' div 36524" using assms(1) by (intro zdiv_mono1) auto
  have c: "x div 146096 = 0" "x' div 146096 = 0"
    using assms by (auto intro!: div_pos_pos_trivial)
  have "x - u + v - 0 \<le> x' - u' + v' - 0" if "u' \<le> u + (x' - x)" "v \<le> v'" for u u' v v'
    using that by simp
  from this [OF a b] show ?thesis unfolding leap_free_def c .
qed

lemma year_step: "year_start (y + 1) - year_start y \<le> 366"
proof -
  have "(y + 1) div 4 \<le> (y + 4) div 4" "y div 100 \<le> (y + 1) div 100" by (intro zdiv_mono1; simp)+
  then show ?thesis by (simp add: year_start_def)
qed

text \<open>The year of a day of the era, and the day in it.\<close>

lemma year_of_day:
  assumes "0 \<le> doe" and "doe < 146097"
  defines "y \<equiv> leap_free doe div 365"
  shows "0 \<le> y" and "y \<le> 399" and "0 \<le> doe - year_start y" and "doe - year_start y \<le> 366"
proof -
  have all: "0 \<le> y \<and> y \<le> 399 \<and> 0 \<le> doe - year_start y \<and> doe - year_start y \<le> 366"
  proof (cases "doe = 146096")
    case True
    then show ?thesis by (simp add: y_def leap_free_def year_start_def)
  next
    case False
    then have d: "doe < 146096" using assms(2) by simp
    have "leap_free 0 \<le> leap_free doe" "leap_free doe \<le> leap_free 146095"
      using assms(1) d by (intro leap_free_mono; simp)+
    then have f: "0 \<le> leap_free doe" "leap_free doe < 146000" by (simp_all add: leap_free_def)
    then have y: "0 \<le> y" "y \<le> 399" unfolding y_def by auto
    have b: "365 * y \<le> leap_free doe" "leap_free doe < 365 * (y + 1)"
      unfolding y_def by (simp_all add: minus_mod_eq_mult_div [symmetric])
    have lo: "year_start y \<le> doe"
    proof (rule ccontr)
      assume "\<not> year_start y \<le> doe"
      then have lt: "doe \<le> year_start y - 1" by simp
      have y1: "1 \<le> y"
        using lt assms(1) y(1) by (cases "y = 0") (auto simp: year_start_def)
      have "year_start y \<le> 146096" using y by (auto simp: year_start_def)
      then have "leap_free doe \<le> leap_free (year_start y - 1)" using lt assms(1) by (intro leap_free_mono) auto
      then show False using leap_free_start(2) [OF y1 y(2)] b(1) by simp
    qed
    have hi: "doe < year_start (y + 1)"
    proof (cases "y = 399")
      case True
      then show ?thesis using d by (simp add: year_start_def)
    next
      case False
      show ?thesis
      proof (rule ccontr)
        assume "\<not> doe < year_start (y + 1)"
        then have "leap_free (year_start (y + 1)) \<le> leap_free doe"
          using y d by (intro leap_free_mono) (auto simp: year_start_def)
        then show False using leap_free_start(1) [of "y + 1"] b(2) y False by simp
      qed
    qed
    show ?thesis using y lo hi year_step [of y] by linarith
  qed
  then show "0 \<le> y" "y \<le> 399" "0 \<le> doe - year_start y" "doe - year_start y \<le> 366" by auto
qed

text \<open>The month and the day of a day of the year.\<close>

lemma month_of_day:
  fixes doy :: int
  assumes "0 \<le> doy" and "doy \<le> 366"
  defines "mp \<equiv> (5 * doy + 2) div 153"
  shows "0 \<le> mp" and "mp \<le> 11" and "0 \<le> doy - (153 * mp + 2) div 5" and "doy - (153 * mp + 2) div 5 \<le> 30"
proof -
  have "153 * mp \<le> 5 * doy + 2" "5 * doy + 2 < 153 * (mp + 1)" unfolding mp_def by auto
  then show "0 \<le> mp" "mp \<le> 11" "0 \<le> doy - (153 * mp + 2) div 5" "doy - (153 * mp + 2) div 5 \<le> 30"
    using assms(1,2) by auto
qed

lemma civil_date:
  assumes "civil_date days = (y, m, d)"
  shows "days_of y m d = days" and "1 \<le> m" and "m \<le> 12" and "1 \<le> d" and "d \<le> 31"
    and "0 \<le> days \<Longrightarrow> 0 \<le> y" and "days < 3652059 \<Longrightarrow> y \<le> 9999"
proof -
  define z where "z = days + 306"
  define era where "era = z div 146097"
  define doe where "doe = z mod 146097"
  define yoe where "yoe = leap_free doe div 365"
  define doy where "doy = doe - year_start yoe"
  define mp where "mp = (5 * doy + 2) div 153"
  have doe: "0 \<le> doe" "doe < 146097" by (simp_all add: doe_def)
  note yy = year_of_day [OF doe, folded yoe_def, folded doy_def]
  note mm = month_of_day [OF yy(3,4), folded mp_def]
  have doy: "doe - (365 * yoe + yoe div 4 - yoe div 100) = doy" by (simp add: doy_def year_start_def)
  have c: "civil_date days =
      (yoe + era * 400 + (if (if mp < 10 then mp + 3 else mp - 9) \<le> 2 then 1 else 0),
       if mp < 10 then mp + 3 else mp - 9, doy - (153 * mp + 2) div 5 + 1)"
    unfolding civil_date_def Let_def z_def [symmetric] doe_def [symmetric] era_def [symmetric]
      leap_free_def [symmetric] yoe_def [symmetric] doy mp_def [symmetric] by simp
  have m: "m = (if mp < 10 then mp + 3 else mp - 9)" and d: "d = doy - (153 * mp + 2) div 5 + 1"
    and y: "y = yoe + era * 400 + (if m \<le> 2 then 1 else 0)"
    using assms c by auto
  show "1 \<le> m" "m \<le> 12" "1 \<le> d" "d \<le> 31" using mm unfolding m d by auto
  have y': "(if m \<le> 2 then y - 1 else y) = yoe + era * 400" by (simp add: y)
  have mp: "(if 2 < m then m - 3 else m + 9) = mp" using mm(1,2) by (auto simp: m)
  have e: "(yoe + era * 400) div 400 = era" "(yoe + era * 400) mod 400 = yoe" using yy(1,2) by auto
  have "days = era * 146097 + doe - 306" by (simp add: era_def doe_def z_def)
  then show "days_of y m d = days"
    unfolding days_of_def Let_def y' mp e by (simp add: d doy_def year_start_def)
  show "0 \<le> y" if "0 \<le> days"
  proof -
    have "0 \<le> era" using that by (simp add: era_def z_def)
    then show ?thesis using yy(1) by (simp add: y)
  qed
  show "y \<le> 9999" if "days < 3652059"
  proof (cases "era = 24 \<and> yoe = 399")
    case True
    have "doe = days + 306 - era * 146097" by (simp add: era_def doe_def z_def minus_div_mult_eq_mod)
    then have "doy \<le> 305" using that True by (simp add: doy_def year_start_def)
    then have "mp < 10" unfolding mp_def by auto
    then have "2 < m" using mm(1) by (simp add: m)
    then show ?thesis using True by (simp add: y)
  next
    case False
    have "era \<le> 24" using that by (simp add: era_def z_def)
    then have "yoe + era * 400 \<le> 9998" using False yy(2) by auto
    then show ?thesis by (simp add: y)
  qed
qed

subsection \<open>Digits\<close>

definition digits_value :: "string \<Rightarrow> int" where
  "digits_value s = foldl (\<lambda>v c. v * 10 + (of_char c - 48)) 0 s"

lemma digits_value_snoc: "digits_value (s @ [c]) = digits_value s * 10 + (of_char c - 48)"
  by (simp add: digits_value_def)

lemma digits_value_zeros: "digits_value (replicate k (CHR ''0'') @ s) = digits_value s"
proof (induction k)
  case (Suc k)
  have "digits_value (CHR ''0'' # t) = digits_value t" for t by (simp add: digits_value_def)
  then show ?case using Suc by simp
qed simp

lemma of_char_digit: "0 \<le> n \<Longrightarrow> n < 10 \<Longrightarrow> of_char (char_of (48 + n) :: char) = 48 + (n :: int)"
  by simp

lemma digits_value_decimal: "0 \<le> n \<Longrightarrow> digits_value (decimal n) = n"
proof (induction n rule: decimal.induct)
  case (1 n)
  show ?case
  proof (cases "n < 10")
    case True
    then show ?thesis using 1 of_char_digit [of n]
      by (simp add: decimal.simps [of n] digits_value_def)
  next
    case False
    then have "digits_value (decimal (n div 10)) = n div 10" using 1 by simp
    then show ?thesis using False of_char_digit [of "n mod 10"]
      by (simp add: decimal.simps [of n] digits_value_snoc)
  qed
qed

lemma decimal_length: "0 \<le> n \<Longrightarrow> n < 10 ^ k \<Longrightarrow> 0 < k \<Longrightarrow> length (decimal n) \<le> k"
proof (induction k arbitrary: n)
  case (Suc k)
  show ?case
  proof (cases "n < 10")
    case True
    then show ?thesis by (simp add: decimal.simps [of n])
  next
    case False
    then have "k \<noteq> 0" using Suc.prems(2) by (cases k) auto
    then have "length (decimal (n div 10)) \<le> k" using Suc.prems(1,2) by (intro Suc.IH) auto
    then show ?thesis using False by (simp add: decimal.simps [of n])
  qed
qed simp

lemma padded:
  assumes "0 \<le> n" and "n < 10 ^ k" and "0 < k"
  shows "length (pad_zeros k (decimal n)) = k" and "digits_value (pad_zeros k (decimal n)) = n"
  using decimal_length [OF assms] assms(1)
  by (simp_all add: pad_zeros_def digits_value_zeros digits_value_decimal)

subsection \<open>Reading a time\<close>

definition field_at :: "string \<Rightarrow> nat \<Rightarrow> nat \<Rightarrow> int" where
  "field_at s i k = digits_value (take k (drop i s))"

text \<open>The reader of the format: the separators at their places and the zone of UTC.\<close>

definition parse_RFC3339 :: "string \<Rightarrow> gotime option" where
  "parse_RFC3339 s =
     (if length s = 20 \<and> map (nth s) [4, 7, 10, 13, 16, 19] = ''--T::Z''
      then Some ((days_of (field_at s 0 4) (field_at s 5 2) (field_at s 8 2) * 86400 +
        field_at s 11 2 * 3600 + field_at s 14 2 * 60 + field_at s 17 2) * 1000000000)
      else None)"

lemma length_2: "length xs = 2 \<longleftrightarrow> (\<exists>a b. xs = [a, b])"
  by (auto simp: length_Suc_conv numeral_2_eq_2)

lemma length_4: "length xs = 4 \<longleftrightarrow> (\<exists>a b c d. xs = [a, b, c, d])"
  by (auto simp: length_Suc_conv numeral_eq_Suc)

lemma parse_fields:
  assumes "length y = 4" and "length m = 2" and "length d = 2" and "length h = 2" and "length mi = 2"
    and "length s = 2"
  shows "parse_RFC3339 (y @ ''-'' @ m @ ''-'' @ d @ ''T'' @ h @ '':'' @ mi @ '':'' @ s @ ''Z'') =
    Some ((days_of (digits_value y) (digits_value m) (digits_value d) * 86400 +
      digits_value h * 3600 + digits_value mi * 60 + digits_value s) * 1000000000)"
  using assms by (auto simp: length_2 length_4 parse_RFC3339_def field_at_def)

text \<open>From the zero time to the end of year 9999.\<close>

lemma format_parse:
  assumes "0 \<le> t" and "t < 315537897600000000000"
  shows "parse_RFC3339 (format_RFC3339 t) = Some (t - t mod 1000000000)"
proof -
  define secs where "secs = t div 1000000000"
  obtain y m d where c: "civil_date (secs div 86400) = (y, m, d)" by (metis prod.exhaust)
  note cd = civil_date [OF c]
  have "0 \<le> secs div 86400" "secs div 86400 < 3652059" using assms by (auto simp: secs_def)
  then have y: "0 \<le> y" "y < 10 ^ 4" using cd(6,7) by auto
  let ?sod = "secs mod 86400"
  have s: "0 \<le> ?sod div 3600" "?sod div 3600 < 10 ^ 2" "0 \<le> ?sod div 60 mod 60" "?sod div 60 mod 60 < 10 ^ 2"
    "0 \<le> ?sod mod 60" "?sod mod 60 < 10 ^ 2"
    by (auto intro: order_less_trans [of _ 60] simp: pos_mod_bound)
  have m: "0 \<le> m" "m < 10 ^ 2" and d: "0 \<le> d" "d < 10 ^ 2" using cd(2-5) by auto
  have sum: "?sod div 3600 * 3600 + ?sod div 60 mod 60 * 60 + ?sod mod 60 = ?sod"
    using zdiv_zmult2_eq [of 60 ?sod 60] by (simp add: minus_div_mult_eq_mod [symmetric])
  have f: "format_RFC3339 t = pad_zeros 4 (decimal y) @ ''-'' @ pad_zeros 2 (decimal m) @ ''-'' @
      pad_zeros 2 (decimal d) @ ''T'' @ pad_zeros 2 (decimal (?sod div 3600)) @ '':'' @
      pad_zeros 2 (decimal (?sod div 60 mod 60)) @ '':'' @ pad_zeros 2 (decimal (?sod mod 60)) @ ''Z''"
    using y(1) by (simp add: format_RFC3339_def Let_def c secs_def [symmetric])
  have "parse_RFC3339 (format_RFC3339 t) =
      Some ((days_of y m d * 86400 + ?sod div 3600 * 3600 + ?sod div 60 mod 60 * 60 + ?sod mod 60) * 1000000000)"
    unfolding f
    by (simp only: parse_fields padded [OF y zero_less_numeral] padded [OF m zero_less_numeral]
        padded [OF d zero_less_numeral] padded [OF s(1,2) zero_less_numeral]
        padded [OF s(3,4) zero_less_numeral] padded [OF s(5,6) zero_less_numeral])
  also have "days_of y m d * 86400 + ?sod div 3600 * 3600 + ?sod div 60 mod 60 * 60 + ?sod mod 60 = secs"
    using sum cd(1) div_mult_mod_eq [of secs 86400] by linarith
  finally show ?thesis by (simp add: secs_def minus_mod_eq_div_mult)
qed

end
