(* ===== verification/Workload.thy ===== *)
theory Workload
  imports K8sApi Calendar
begin

text \<open>
  The workload generator (\<open>test/workload-generator/main.go\<close>): label parsing, the arrival
  interval, the pods it builds and the creation loop. The quantity parser, the cluster
  configuration, the cancellation of the context and the API server are parameters.
\<close>

subsection \<open>Definitions\<close>

record workload_options =
  wo_namespace :: string
  wo_label :: string
  wo_count :: "64 word"
  wo_rate :: float64
  wo_runtime :: duration
  wo_gpus :: string
  wo_gpuResource :: string
  wo_image :: string
  wo_prefix :: string
  wo_kubeconfig :: string

definition default_options :: workload_options where
  "default_options =
     \<lparr>wo_namespace = ''default'', wo_label = ''app=gwb-bench-worker'', wo_count = 10, wo_rate = Fin 1,
      wo_runtime = 30 * Second, wo_gpus = ''1'', wo_gpuResource = ''nvidia.com/gpu'',
      wo_image = ''busybox:1.36'', wo_prefix = ''bench-'', wo_kubeconfig = ''''\<rparr>"

datatype workload_error =
    BadLabel string
  | BadQuantity goerr
  | BadArrivalRate float64
  | BadPodCount "64 word"
  | NoKubeconfig goerr
  | NoClientset goerr
  | Cancelled goerr
  | CreateFailed string goerr

text \<open>\<open>strings.Cut\<close> at a single character.\<close>

fun cut :: "char \<Rightarrow> string \<Rightarrow> (string \<times> string) option" where
  "cut c [] = None"
| "cut c (x # xs) = (if x = c then Some ([], xs) else map_option (\<lambda>(a, b). (x # a, b)) (cut c xs))"

definition parseLabel :: "string \<Rightarrow> workload_error + string \<times> string" where
  "parseLabel raw =
     (case cut (CHR ''='') raw of
        None \<Rightarrow> Inl (BadLabel raw)
      | Some (key, val) \<Rightarrow> if key = '''' \<or> val = '''' then Inl (BadLabel raw) else Inr (key, val))"

text \<open>\<open>oor\<close> gives the conversion of a quotient that does not fit an \<open>int64\<close>.\<close>

definition intervalFromRate :: "(float64 \<Rightarrow> 64 word) \<Rightarrow> float64 \<Rightarrow> duration" where
  "intervalFromRate oor rps = int64_of_float oor (fdiv (float_of_int64 Second) rps)"

definition signed_decimal :: "int \<Rightarrow> string" where
  "signed_decimal n = (if n < 0 then ''-'' @ decimal (- n) else decimal n)"

record 'q built_pod =
  bp_name :: string
  bp_namespace :: string
  bp_labels :: labels
  bp_restartPolicy :: string
  bp_gracePeriod :: "64 word"
  bp_container :: string
  bp_image :: string
  bp_command :: "string list"
  bp_requests :: "(string, 'q) fmap"

definition buildPod ::
    "(float64 \<Rightarrow> 64 word) \<Rightarrow> workload_options \<Rightarrow> string \<Rightarrow> string \<Rightarrow> 'q \<Rightarrow> nat \<Rightarrow> 'q built_pod" where
  "buildPod oor opts labelKey labelVal gpuQty idx =
     \<lparr>bp_name = wo_prefix opts @ pad_zeros 4 (decimal (int idx)),
      bp_namespace = wo_namespace opts,
      bp_labels = fmupd ''app.kubernetes.io/managed-by'' ''gwb-workload'' (fmupd labelKey labelVal fmempty),
      bp_restartPolicy = ''Never'',
      bp_gracePeriod = 1,
      bp_container = ''worker'',
      bp_image = wo_image opts,
      bp_command = [''sh'', ''-c'',
        ''sleep '' @ signed_decimal (sint (int64_of_float oor (Seconds (wo_runtime opts))))],
      bp_requests = fmupd (wo_gpuResource opts) gpuQty fmempty\<rparr>"

text \<open>
  What a run meets outside: the quantity parser, the errors of loading the configuration and
  building the client, whether the context is cancelled at the wait before pod \<open>i\<close>, and the
  server's answer to the creation of pod \<open>i\<close>.
\<close>

record 'q workload_env =
  parseQuantity :: "string \<Rightarrow> goerr + 'q"
  kubeconfigError :: "string \<Rightarrow> goerr option"
  clientsetError :: "goerr option"
  cancelledAt :: "nat \<Rightarrow> goerr option"
  createPod :: "nat \<Rightarrow> 'q built_pod \<Rightarrow> goerr option"

datatype run_result = Done | Failed workload_error | Panicked

text \<open>The creation loop with \<open>k\<close> pods to go; the pods created, and how it ends.\<close>

fun launch ::
    "'q workload_env \<Rightarrow> (nat \<Rightarrow> 'q built_pod) \<Rightarrow> nat \<Rightarrow> nat \<Rightarrow> 'q built_pod list \<times> run_result" where
  "launch e build i 0 = ([], Done)"
| "launch e build i (Suc k) =
     (case (if 0 < i then cancelledAt e i else None) of
        Some err \<Rightarrow> ([], Failed (Cancelled err))
      | None \<Rightarrow>
          (case createPod e i (build i) of
             Some err \<Rightarrow> ([], Failed (CreateFailed (bp_name (build i)) err))
           | None \<Rightarrow>
               (case launch e build (Suc i) k of (ps, r) \<Rightarrow> (build i # ps, r))))"

text \<open>\<open>time.NewTicker\<close> panics on an interval that is not positive.\<close>

definition run_workload ::
    "(float64 \<Rightarrow> 64 word) \<Rightarrow> 'q workload_env \<Rightarrow> workload_options \<Rightarrow> 'q built_pod list \<times> run_result" where
  "run_workload oor e opts =
     (case parseLabel (wo_label opts) of
        Inl err \<Rightarrow> ([], Failed err)
      | Inr (labelKey, labelVal) \<Rightarrow>
          (case parseQuantity e (wo_gpus opts) of
             Inl err \<Rightarrow> ([], Failed (BadQuantity err))
           | Inr gpuQty \<Rightarrow>
               if fle (wo_rate opts) (Fin 0) then ([], Failed (BadArrivalRate (wo_rate opts)))
               else if sint (wo_count opts) \<le> 0 then ([], Failed (BadPodCount (wo_count opts)))
               else
                 (case kubeconfigError e (wo_kubeconfig opts) of
                    Some err \<Rightarrow> ([], Failed (NoKubeconfig err))
                  | None \<Rightarrow>
                      (case clientsetError e of
                         Some err \<Rightarrow> ([], Failed (NoClientset err))
                       | None \<Rightarrow>
                           if sint (intervalFromRate oor (wo_rate opts)) \<le> 0 then ([], Panicked)
                           else launch e (buildPod oor opts labelKey labelVal gpuQty) 0
                             (nat (sint (wo_count opts)))))))"

subsection \<open>Labels\<close>

lemma cut_Some: "cut c s = Some (a, b) \<longleftrightarrow> s = a @ c # b \<and> c \<notin> set a"
proof (induction s arbitrary: a)
  case (Cons x s)
  then show ?case by (cases a) auto
qed simp

lemma parseLabel_Inr:
  "parseLabel raw = Inr (key, val) \<longleftrightarrow>
    raw = key @ CHR ''='' # val \<and> CHR ''='' \<notin> set key \<and> key \<noteq> '''' \<and> val \<noteq> ''''"
  using cut_Some [of "CHR ''=''" raw key val]
  by (auto simp: parseLabel_def split: option.splits)

lemma built_label:
  "fmlookup (bp_labels (buildPod oor opts key val q i)) key = Some val \<longleftrightarrow>
    key \<noteq> ''app.kubernetes.io/managed-by'' \<or> val = ''gwb-workload''"
  by (auto simp: buildPod_def)

subsection \<open>Names\<close>

lemma padded_value: "digits_value (pad_zeros k (decimal (int i))) = int i"
  by (simp add: pad_zeros_def digits_value_zeros digits_value_decimal)

lemma name_inj:
  "bp_name (buildPod oor opts key val q i) = bp_name (buildPod oor opts key val q j) \<Longrightarrow> i = j"
proof -
  assume "bp_name (buildPod oor opts key val q i) = bp_name (buildPod oor opts key val q j)"
  then have "pad_zeros 4 (decimal (int i)) = pad_zeros 4 (decimal (int j))"
    by (simp add: buildPod_def)
  then have "int i = int j" by (metis padded_value)
  then show "i = j" by simp
qed

lemma names_distinct_upt: "distinct (map (\<lambda>i. bp_name (buildPod oor opts key val q i)) [a ..< b])"
  by (auto simp: distinct_map intro!: inj_onI dest: name_inj)

subsection \<open>The loop\<close>

lemma launch_prefix:
  assumes "launch e build i k = (ps, r)"
  shows "\<exists>n \<le> k. ps = map build [i ..< i + n] \<and> (r = Done \<longleftrightarrow> n = k) \<and> r \<noteq> Panicked \<and>
    (\<forall>j \<in> {i ..< i + n}. createPod e j (build j) = None)"
  using assms
proof (induction k arbitrary: i ps)
  case (Suc k)
  consider (stop) err where "ps = []" "r = Failed err"
    | (step) qs where "createPod e i (build i) = None" "launch e build (Suc i) k = (qs, r)" "ps = build i # qs"
    using Suc.prems by (auto split: option.splits prod.splits)
  then show ?case
  proof cases
    case stop
    then show ?thesis by (intro exI [of _ 0]) auto
  next
    case step
    obtain n where n: "n \<le> k" "qs = map build [Suc i ..< Suc i + n]" "r = Done \<longleftrightarrow> n = k" "r \<noteq> Panicked"
      "\<forall>j \<in> {Suc i ..< Suc i + n}. createPod e j (build j) = None"
      using Suc.IH [OF step(2)] by blast
    have "map build [i ..< i + Suc n] = build i # map build [Suc i ..< Suc i + n]"
      by (simp add: upt_conv_Cons del: upt_Suc)
    moreover have "\<forall>j \<in> {i ..< i + Suc n}. createPod e j (build j) = None"
    proof
      fix j
      assume "j \<in> {i ..< i + Suc n}"
      then show "createPod e j (build j) = None"
        using step(1) n(5) by (cases "j = i") auto
    qed
    ultimately show ?thesis using n step(3) by (intro exI [of _ "Suc n"]) simp
  qed
qed simp

text \<open>What a run leaves behind: distinctly named pods, and all of them exactly if it is done.\<close>

lemma run_workload_pods:
  assumes "run_workload oor e opts = (ps, r)"
  shows "distinct (map bp_name ps) \<and> int (length ps) \<le> max 0 (sint (wo_count opts)) \<and>
    (r = Done \<longrightarrow> int (length ps) = sint (wo_count opts))"
proof (cases "ps = [] \<and> r \<noteq> Done")
  case False
  then obtain key val q where l: "launch e (buildPod oor opts key val q) 0 (nat (sint (wo_count opts))) = (ps, r)"
      and c: "0 < sint (wo_count opts)"
    using assms
    by (auto simp: run_workload_def split: sum.splits prod.splits option.splits if_splits)
  obtain n where n: "n \<le> nat (sint (wo_count opts))" "ps = map (buildPod oor opts key val q) [0 ..< n]"
      "r = Done \<longleftrightarrow> n = nat (sint (wo_count opts))"
    using launch_prefix [OF l] by auto
  have "map bp_name ps = map (\<lambda>i. bp_name (buildPod oor opts key val q i)) [0 ..< n]"
    by (simp add: n(2))
  then have "distinct (map bp_name ps)" by (simp only: names_distinct_upt)
  then show ?thesis using n c by auto
qed auto

subsection \<open>The arrival interval\<close>

lemma interval_value:
  assumes "0 < r" and "rep64 r"
  shows "fdiv (float_of_int64 Second) (Fin r) = round64 (1000000000 / r)"
proof -
  have "float_of_int64 Second = Fin 1000000000"
    using float_of_int64_exact [of Second] by (simp add: Second_def)
  then show ?thesis using assms by (simp add: fdiv_Fin)
qed

lemma interval_positive:
  assumes "1 / 2 ^ 30 \<le> r" and "r \<le> 10 ^ 9" and "rep64 r"
  shows "0 < sint (intervalFromRate oor (Fin r))"
proof -
  have r: "0 < r" using assms(1) by (rule less_le_trans [rotated]) simp
  let ?q = "1000000000 / r"
  have lo: "1 \<le> ?q" using assms(2) r by (simp add: le_divide_eq)
  have "1000000000 / r \<le> 1000000000 / (1 / 2 ^ 30)" using assms(1) r by (intro divide_left_mono) auto
  then have hi: "?q \<le> 2 ^ 62" by simp
  have one: "round64 1 = Fin 1" using round64_rep64 [OF rep64_int [of 1]] by simp
  have big: "round64 (2 ^ 62) = Fin (2 ^ 62)"
    using round_grid_exact [of 1 62] by (intro round64_rep64) (simp add: rep64_def power_int_def)
  have "fle (Fin 1) (round64 ?q)" "fle (round64 ?q) (Fin (2 ^ 62))"
    using round64_mono [OF lo] round64_mono [OF hi] one big by simp_all
  then obtain v where v: "round64 ?q = Fin v" "1 \<le> v" "v \<le> 2 ^ 62"
    by (cases "round64 ?q") auto
  have f: "1 \<le> \<lfloor>v\<rfloor>" "\<lfloor>v\<rfloor> \<le> 2 ^ 62" using v(2,3) by (simp_all add: le_floor_iff floor_le_iff)
  have "intervalFromRate oor (Fin r) = word_of_int \<lfloor>v\<rfloor>"
    unfolding intervalFromRate_def interval_value [OF r assms(3)] v(1)
    using v(2) f by (simp add: int64_of_float_def is_inf_def trunc_rat_def)
  then show ?thesis using f sint_word_of_int64 [of "\<lfloor>v\<rfloor>"] by simp
qed

lemma run_workload_no_panic:
  assumes "wo_rate opts = Fin x" and "1 / 2 ^ 30 \<le> x" and "x \<le> 10 ^ 9" and "rep64 x"
  shows "snd (run_workload oor e opts) \<noteq> Panicked"
proof -
  have "\<not> sint (intervalFromRate oor (wo_rate opts)) \<le> 0"
    using interval_positive [OF assms(2-4), of oor] assms(1) by simp
  then show ?thesis
    using launch_prefix [OF prod.collapse [symmetric]]
    by (auto simp: run_workload_def split: sum.splits prod.splits option.splits)
qed

text \<open>A rate of two billion pods per second gives an empty interval.\<close>

lemma interval_zero: "intervalFromRate oor (Fin 2000000000) = 0"
proof -
  have h: "round64 (1 / 2) = Fin (1 / 2)"
    using round_grid_exact [of 1 "- 1"] by (intro round64_rep64) (simp add: rep64_def)
  have "fdiv (float_of_int64 Second) (Fin 2000000000) = Fin (1 / 2)"
    using interval_value [of 2000000000] h by (simp add: rep64_numeral)
  moreover have "\<lfloor>1 / 2 :: rat\<rfloor> = 0" by (simp add: floor_eq_iff)
  ultimately show ?thesis
    by (simp add: intervalFromRate_def int64_of_float_def is_inf_def trunc_rat_def)
qed

lemma label_parsing_round_trip:
  "(parseLabel raw = Inr (key, val)) =
     (raw = key @ CHR ''='' # val \<and> CHR ''='' \<notin> set key \<and> key \<noteq> [] \<and> val \<noteq> [])"
  by (rule parseLabel_Inr)

lemma workload_run_safe:
  assumes "run_workload oor e opts = (ps, r)"
  shows "distinct (map bp_name ps) \<and> int (length ps) \<le> max 0 (sint (wo_count opts)) \<and>
    (r = Done \<longrightarrow> int (length ps) = sint (wo_count opts)) \<and>
    (\<forall>x. wo_rate opts = Fin x \<and> rep64 x \<and> 1 / 2 ^ 30 \<le> x \<and> x \<le> 10 ^ 9 \<longrightarrow> r \<noteq> Panicked)"
  using run_workload_pods [OF assms] run_workload_no_panic [of opts _ oor e] assms by auto

end
