(* ===== verification/Commands.thy ===== *)
theory Commands
  imports Workload Bench GoFlags
begin

text \<open>
  The two commands around the benchmark as processes: the flags, environment and exit codes of
  \<open>test/workload-generator/main.go\<close> and of \<open>test/bench/cmd/gwb-bench/main.go\<close>, and the report
  that the latter writes. The textual formats of numbers and durations, the JSON syntax, the
  file system and the syntax of the results file are parameters; \<open>Rendering\<close> has the summary.
\<close>

text \<open>The parsers behind \<open>flag.IntVar\<close>, \<open>flag.Float64Var\<close> and \<open>flag.DurationVar\<close>.\<close>

record value_parsers =
  parseInt :: "string \<Rightarrow> 64 word option"
  parseFloat :: "string \<Rightarrow> float64 option"
  parseDuration :: "string \<Rightarrow> duration option"

subsection \<open>The workload generator\<close>

definition workload_flags :: "value_parsers \<Rightarrow> workload_options flagset" where
  "workload_flags P =
     \<lparr>bool_flag = (\<lambda>n. if n \<in> {''namespace'', ''label'', ''count'', ''rate'', ''runtime'', ''gpus'',
          ''gpu-resource'', ''image'', ''prefix'', ''kubeconfig''} then Some False else None),
      set_flag = (\<lambda>n v x.
        if n = ''namespace'' then Some (x\<lparr>wo_namespace := v\<rparr>)
        else if n = ''label'' then Some (x\<lparr>wo_label := v\<rparr>)
        else if n = ''count'' then map_option (\<lambda>i. x\<lparr>wo_count := i\<rparr>) (parseInt P v)
        else if n = ''rate'' then map_option (\<lambda>f. x\<lparr>wo_rate := f\<rparr>) (parseFloat P v)
        else if n = ''runtime'' then map_option (\<lambda>d. x\<lparr>wo_runtime := d\<rparr>) (parseDuration P v)
        else if n = ''gpus'' then Some (x\<lparr>wo_gpus := v\<rparr>)
        else if n = ''gpu-resource'' then Some (x\<lparr>wo_gpuResource := v\<rparr>)
        else if n = ''image'' then Some (x\<lparr>wo_image := v\<rparr>)
        else if n = ''prefix'' then Some (x\<lparr>wo_prefix := v\<rparr>)
        else if n = ''kubeconfig'' then Some (x\<lparr>wo_kubeconfig := v\<rparr>)
        else None)\<rparr>"

text \<open>The three ways to a configuration, as the errors they give for their arguments.\<close>

definition loadKubeconfig ::
    "(string \<Rightarrow> goerr option) \<Rightarrow> goerr option \<Rightarrow> goerr option \<Rightarrow> string \<Rightarrow> goerr option" where
  "loadKubeconfig fromFlags fromDefaults inCluster override =
     (if override \<noteq> [] then fromFlags override
      else if fromDefaults = None then None
      else inCluster)"

text \<open>The pods created and the exit code; a panic ends a Go process with code 2.\<close>

definition workload_main ::
    "(float64 \<Rightarrow> 64 word) \<Rightarrow> value_parsers \<Rightarrow> 'q workload_env \<Rightarrow> string list \<Rightarrow> 'q built_pod list \<times> nat" where
  "workload_main oor P e args =
     (case parse_flags (workload_flags P) args default_options of
        Inl HelpRequested \<Rightarrow> ([], 0)
      | Inl _ \<Rightarrow> ([], 2)
      | Inr opts \<Rightarrow>
          (case run_workload oor e opts of (pods, r) \<Rightarrow>
             (pods, case r of Done \<Rightarrow> 0 | Failed _ \<Rightarrow> 1 | Panicked \<Rightarrow> 2)))"

subsection \<open>Reading the reported status\<close>

text \<open>A JSON document; a number is kept as it is written.\<close>

datatype json =
    JNull
  | JBool bool
  | JNumber string
  | JString string
  | JArray "json list"
  | JObject "(string \<times> json) list"

text \<open>Decoding into a map keeps the last of equal keys.\<close>

definition last_value :: "string \<Rightarrow> (string \<times> json) list \<Rightarrow> json option" where
  "last_value k kvs = map_of (rev kvs) k"

text \<open>
  Decoding into a struct matches the names of fields up to the case of ASCII letters. A number
  for an integer field has no fraction and no exponent, and fits.
\<close>

definition lower :: "string \<Rightarrow> string" where
  "lower s = map (\<lambda>c. if 65 \<le> (of_char c :: nat) \<and> (of_char c :: nat) \<le> 90
     then char_of ((of_char c :: nat) + 32) else c) s"

definition int32_literal :: "string \<Rightarrow> 32 word option" where
  "int32_literal s =
     (let digits = (case s of [] \<Rightarrow> [] | c # cs \<Rightarrow> if c = CHR ''-'' then cs else s);
          v = (if s \<noteq> [] \<and> s ! 0 = CHR ''-'' then - digits_value digits else digits_value digits)
      in if digits \<noteq> [] \<and> list_all (\<lambda>c. 48 \<le> (of_char c :: nat) \<and> (of_char c :: nat) \<le> 57) digits
           \<and> - (2 ^ 31) \<le> v \<and> v < 2 ^ 31
         then Some (word_of_int v) else None)"

record status_fields =
  sf_consumed :: "string option"
  sf_tracked :: "32 word option"

text \<open>One member of the object; \<open>None\<close> is a type error, which fails the decoding as a whole.\<close>

definition decode_member :: "status_fields option \<Rightarrow> string \<times> json \<Rightarrow> status_fields option" where
  "decode_member acc kv =
     (case acc of None \<Rightarrow> None
      | Some st \<Rightarrow>
          (case kv of (k, v) \<Rightarrow>
             if lower k = lower ''consumedGpuHours'' then
               (case v of
                  JNull \<Rightarrow> Some (st\<lparr>sf_consumed := None\<rparr>)
                | JString s \<Rightarrow> Some (st\<lparr>sf_consumed := Some s\<rparr>)
                | _ \<Rightarrow> None)
             else if lower k = lower ''trackedPods'' then
               (case v of
                  JNull \<Rightarrow> Some (st\<lparr>sf_tracked := None\<rparr>)
                | JNumber s \<Rightarrow> map_option (\<lambda>w. st\<lparr>sf_tracked := Some w\<rparr>) (int32_literal s)
                | _ \<Rightarrow> None)
             else Some st))"

definition no_fields :: status_fields where
  "no_fields = \<lparr>sf_consumed = None, sf_tracked = None\<rparr>"

definition decode_status :: "json \<Rightarrow> status_fields option" where
  "decode_status j =
     (case j of
        JNull \<Rightarrow> Some no_fields
      | JObject kvs \<Rightarrow> foldl decode_member (Some no_fields) kvs
      | _ \<Rightarrow> None)"

datatype report_error =
    BadFlag flag_error
  | BadArgument string
  | BadScenario scenario_error
  | CannotRead goerr
  | BadDocument
  | BadStatus
  | BadHours string goerr
  | CannotMkdir goerr
  | NotEncodable
  | CannotWrite string goerr
  | CannotPrint goerr

text \<open>What the command meets: files, the JSON parser and the quantity parser.\<close>

record 'q report_env =
  readFile :: "string \<Rightarrow> goerr + string"
  parseJSON :: "string \<Rightarrow> json option"
  parseHours :: "string \<Rightarrow> goerr + 'q"
  approximate :: "'q \<Rightarrow> float64"
  mkdirAll :: "string \<Rightarrow> goerr option"
  writeFile :: "string \<Rightarrow> goerr option"
  printLine :: "goerr option"
  generatedAt :: string
  joinPath :: "string \<Rightarrow> string \<Rightarrow> string"

definition readReported :: "'q report_env \<Rightarrow> string \<Rightarrow> report_error + float64 \<times> 32 word" where
  "readReported e path =
     (case readFile e path of
        Inl err \<Rightarrow> Inl (CannotRead err)
      | Inr raw \<Rightarrow>
          (case parseJSON e raw of
             None \<Rightarrow> Inl BadDocument
           | Some doc \<Rightarrow>
               (case (case doc of
                    JNull \<Rightarrow> Some doc
                  | JObject kvs \<Rightarrow> Some (case last_value ''status'' kvs of None \<Rightarrow> doc | Some s \<Rightarrow> s)
                  | _ \<Rightarrow> None) of
                  None \<Rightarrow> Inl BadDocument
                | Some statusBlob \<Rightarrow>
                    (case decode_status statusBlob of
                       None \<Rightarrow> Inl BadStatus
                     | Some st \<Rightarrow>
                         (let tracked = (case sf_tracked st of None \<Rightarrow> 0 | Some w \<Rightarrow> w)
                          in case sf_consumed st of
                               None \<Rightarrow> Inr (Fin 0, tracked)
                             | Some s \<Rightarrow>
                                 (case parseHours e s of
                                    Inl err \<Rightarrow> Inl (BadHours s err)
                                  | Inr q \<Rightarrow> Inr (approximate e q, tracked)))))))"

subsection \<open>The report command\<close>

record report_result =
  res_scenario :: scenario
  res_elapsedSeconds :: float64
  res_reported :: float64
  res_expected :: float64
  res_delta :: float64
  res_accuracy :: float64
  res_tracked :: "32 word"
  res_label :: string
  res_generatedAt :: string

record bench_flags =
  bf_report :: report_flags
  bf_label :: string

definition bench_defaults :: bench_flags where
  "bench_defaults = \<lparr>bf_report = \<lparr>rf_count = 0, rf_rate = Fin 0, rf_runtime = 0, rf_gpus = Fin 0,
     rf_elapsed = 0, rf_statusJSON = [], rf_outDir = []\<rparr>, bf_label = []\<rparr>"

definition bench_flagset :: "value_parsers \<Rightarrow> bench_flags flagset" where
  "bench_flagset P =
     \<lparr>bool_flag = (\<lambda>n. if n \<in> {''count'', ''rate'', ''runtime'', ''gpus'', ''elapsed'', ''status-json'',
          ''out-dir'', ''label''} then Some False else None),
      set_flag = (\<lambda>n v x. let f = bf_report x in
        if n = ''count'' then map_option (\<lambda>i. x\<lparr>bf_report := f\<lparr>rf_count := i\<rparr>\<rparr>) (parseInt P v)
        else if n = ''rate'' then map_option (\<lambda>r. x\<lparr>bf_report := f\<lparr>rf_rate := r\<rparr>\<rparr>) (parseFloat P v)
        else if n = ''runtime'' then map_option (\<lambda>d. x\<lparr>bf_report := f\<lparr>rf_runtime := d\<rparr>\<rparr>) (parseDuration P v)
        else if n = ''gpus'' then map_option (\<lambda>g. x\<lparr>bf_report := f\<lparr>rf_gpus := g\<rparr>\<rparr>) (parseFloat P v)
        else if n = ''elapsed'' then map_option (\<lambda>d. x\<lparr>bf_report := f\<lparr>rf_elapsed := d\<rparr>\<rparr>) (parseDuration P v)
        else if n = ''status-json'' then Some (x\<lparr>bf_report := f\<lparr>rf_statusJSON := v\<rparr>\<rparr>)
        else if n = ''out-dir'' then Some (x\<lparr>bf_report := f\<lparr>rf_outDir := v\<rparr>\<rparr>)
        else if n = ''label'' then Some (x\<lparr>bf_label := v\<rparr>)
        else None)\<rparr>"

text \<open>The calls that leave something behind, each with the report they write.\<close>

datatype bench_output = MadeDir string | Wrote string report_result | Printed report_result

definition bench_report_of :: "'q report_env \<Rightarrow> bench_flags \<Rightarrow> float64 \<Rightarrow> 32 word \<Rightarrow> report_result" where
  "bench_report_of e x reported tracked =
     (let f = bf_report x; sc = scenario_of f; expected = ExpectedGPUHours sc (rf_elapsed f)
      in \<lparr>res_scenario = sc, res_elapsedSeconds = Seconds (rf_elapsed f), res_reported = reported,
          res_expected = expected, res_delta = fsub reported expected,
          res_accuracy = AccuracyRatio reported expected, res_tracked = tracked,
          res_label = bf_label x, res_generatedAt = generatedAt e\<rparr>)"

text \<open>JSON has no infinities and no NaN; encoding a report with one fails.\<close>

definition finite64 :: "float64 \<Rightarrow> bool" where
  "finite64 x \<longleftrightarrow> (case x of NaN \<Rightarrow> False | PInf \<Rightarrow> False | NInf \<Rightarrow> False | _ \<Rightarrow> True)"

definition encodable :: "report_result \<Rightarrow> bool" where
  "encodable r \<longleftrightarrow> list_all finite64
     [sc_rate (res_scenario r), sc_gpus (res_scenario r), res_elapsedSeconds r, res_reported r,
      res_expected r, res_delta r, res_accuracy r]"

definition reportCmd ::
    "value_parsers \<Rightarrow> 'q report_env \<Rightarrow> string list \<Rightarrow> bench_output list \<times> report_error option" where
  "reportCmd P e args =
     (case parse_flags (bench_flagset P) args bench_defaults of
        Inl err \<Rightarrow> ([], Some (BadFlag err))
      | Inr x \<Rightarrow> (let f = bf_report x in
          case validate_flags f of
            Some msg \<Rightarrow> ([], Some (BadArgument msg))
          | None \<Rightarrow>
          (case Validate (scenario_of f) of
             Some err \<Rightarrow> ([], Some (BadScenario err))
           | None \<Rightarrow>
          (case readReported e (rf_statusJSON f) of
             Inl err \<Rightarrow> ([], Some err)
           | Inr (reported, tracked) \<Rightarrow>
               (let res = bench_report_of e x reported tracked;
                    results = joinPath e (rf_outDir f) ''results.json'';
                    summary = joinPath e (rf_outDir f) ''SUMMARY.md''
                in case mkdirAll e (rf_outDir f) of
                     Some err \<Rightarrow> ([], Some (CannotMkdir err))
                   | None \<Rightarrow>
                  if \<not> encodable res then ([MadeDir (rf_outDir f)], Some NotEncodable)
                  else (case writeFile e results of
                     Some err \<Rightarrow> ([MadeDir (rf_outDir f)], Some (CannotWrite results err))
                   | None \<Rightarrow>
                  (case writeFile e summary of
                     Some err \<Rightarrow> ([MadeDir (rf_outDir f), Wrote results res], Some (CannotWrite summary err))
                   | None \<Rightarrow>
                  (case printLine e of
                     Some err \<Rightarrow> ([MadeDir (rf_outDir f), Wrote results res, Wrote summary res], Some (CannotPrint err))
                   | None \<Rightarrow>
                       ([MadeDir (rf_outDir f), Wrote results res, Wrote summary res, Printed res], None)))))))))"

definition bench_main ::
    "value_parsers \<Rightarrow> 'q report_env \<Rightarrow> string list \<Rightarrow> bench_output list \<times> nat" where
  "bench_main P e args =
     (case args of
        [] \<Rightarrow> ([], 2)
      | sub # rest \<Rightarrow>
          if sub = ''report'' then
            (case reportCmd P e rest of (out, err) \<Rightarrow> (out, if err \<noteq> None then 1 else 0))
          else if sub \<in> {''-h'', ''--help'', ''help''} then ([], 0)
          else ([], 2))"

subsection \<open>Laws\<close>

text \<open>
  The help text promises exit code 2 for flag and argument errors. The command gives 2 only when
  the subcommand is missing or unknown: errors of the report's own flags and arguments end with 1.
\<close>

lemma bench_exit_codes:
  "snd (bench_main P e args) = 0 \<longleftrightarrow>
     (\<exists>sub rest. args = sub # rest \<and> (sub \<in> {''-h'', ''--help'', ''help''} \<or>
        sub = ''report'' \<and> snd (reportCmd P e rest) = None))"
  "snd (bench_main P e args) = 2 \<longleftrightarrow>
     args = [] \<or> hd args \<notin> {''report'', ''-h'', ''--help'', ''help''}"
  by (cases args; auto simp: bench_main_def split: prod.split)+

lemma bad_flags_exit_1:
  assumes "parse_flags (bench_flagset P) args bench_defaults = Inl err"
  shows "snd (bench_main P e (''report'' # args)) = 1"
  using assms by (simp add: bench_main_def reportCmd_def)

text \<open>
  A report that succeeds wrote both files and the line, with one and the same result, computed
  from a valid scenario.
\<close>

lemma report_success:
  assumes "reportCmd P e args = (out, None)"
  shows "\<exists>x r t res. parse_flags (bench_flagset P) args bench_defaults = Inr x \<and>
    Validate (scenario_of (bf_report x)) = None \<and>
    readReported e (rf_statusJSON (bf_report x)) = Inr (r, t) \<and> res = bench_report_of e x r t \<and>
    out = [MadeDir (rf_outDir (bf_report x)),
      Wrote (joinPath e (rf_outDir (bf_report x)) ''results.json'') res,
      Wrote (joinPath e (rf_outDir (bf_report x)) ''SUMMARY.md'') res, Printed res]"
  using assms
  by (auto simp: reportCmd_def Let_def split: sum.splits option.splits if_splits prod.splits)

text \<open>An object with a status reads like the status itself, unless that has a status of its own.\<close>

lemma full_object_reads_like_status:
  assumes "readFile e p = Inr raw" and "parseJSON e raw = Some (JObject kvs)"
    and "last_value ''status'' kvs = Some (JObject st)"
    and "readFile e p' = Inr raw'" and "parseJSON e raw' = Some (JObject st)" and "last_value ''status'' st = None"
  shows "readReported e p = readReported e p'"
  using assms by (simp add: readReported_def)

text \<open>The workload generator creates no pod unless its command line parses.\<close>

lemma workload_main_pods:
  "fst (workload_main oor P e args) \<noteq> [] \<Longrightarrow>
    \<exists>opts. parse_flags (workload_flags P) args default_options = Inr opts \<and>
      fst (workload_main oor P e args) = fst (run_workload oor e opts)"
  by (auto simp: workload_main_def split: sum.splits flag_error.splits prod.splits)

end
