(* ===== verification/Rendering.thy ===== *)
theory Rendering
  imports Commands ReconcileLaws
begin

text \<open>
  Numbers in texts: the message of the QuotaExceeded condition, and the summary and the printed
  line of the benchmark's report (\<open>test/bench/cmd/gwb-bench/main.go\<close>). A reader of fixed-point
  figures gets back what was printed, to half a unit of the last place.
\<close>

subsection \<open>Reading a fixed-point figure\<close>

definition is_digit :: "char \<Rightarrow> bool" where
  "is_digit c \<longleftrightarrow> 48 \<le> (of_char c :: int) \<and> (of_char c :: int) \<le> 57"

text \<open>Digits, possibly a point and digits; with what follows.\<close>

definition read_unsigned :: "string \<Rightarrow> rat \<times> string" where
  "read_unsigned s =
     (let i = takeWhile is_digit s; r = dropWhile is_digit s
      in case r of
           [] \<Rightarrow> (of_int (digits_value i), r)
         | c # t \<Rightarrow>
             if c = CHR ''.'' then
               (let f = takeWhile is_digit t
                in (of_int (digits_value i) + of_int (digits_value f) / 10 ^ length f, dropWhile is_digit t))
             else (of_int (digits_value i), r))"

definition read_fixed :: "string \<Rightarrow> rat \<times> string" where
  "read_fixed s =
     (case s of
        [] \<Rightarrow> read_unsigned s
      | c # t \<Rightarrow>
          if c = CHR ''-'' then (case read_unsigned t of (v, r) \<Rightarrow> (- v, r))
          else if c = CHR ''+'' then read_unsigned t
          else read_unsigned s)"

lemma decimal_digits: "0 \<le> n \<Longrightarrow> list_all is_digit (decimal n)"
proof (induction n rule: decimal.induct)
  case (1 n)
  have d: "is_digit (char_of (48 + k))" if "0 \<le> k" "k < 10" for k :: int
    using that by (simp add: is_digit_def)
  show ?case
  proof (cases "n < 10")
    case True
    then show ?thesis using d [of n] 1 by (simp add: decimal.simps [of n])
  next
    case False
    then show ?thesis using d [of "n mod 10"] 1 by (simp add: decimal.simps [of n])
  qed
qed

lemma padded_digits: "0 \<le> n \<Longrightarrow> list_all is_digit (pad_zeros k (decimal n))"
  using decimal_digits [of n] by (auto simp: pad_zeros_def list_all_iff is_digit_def [of "CHR ''0''"])

lemma decimal_nonempty: "decimal n \<noteq> []"
  by (simp add: decimal.simps [of n])

text \<open>A text that a figure can stand before.\<close>

definition ends_figure :: "string \<Rightarrow> bool" where
  "ends_figure s \<longleftrightarrow> (case s of [] \<Rightarrow> True | c # t \<Rightarrow> \<not> is_digit c)"

lemma take_digits:
  assumes "list_all is_digit d" and "ends_figure r"
  shows "takeWhile is_digit (d @ r) = d" and "dropWhile is_digit (d @ r) = r"
  using assms by (induction d; cases r; simp add: ends_figure_def)+

lemma read_decimal_places:
  assumes "0 \<le> x" and "0 < n" and "ends_figure r"
  shows "read_unsigned (format_decimal n x @ r) = (of_int (round_even (x * 10 ^ n)) / 10 ^ n, r)"
proof -
  let ?v = "round_even (x * 10 ^ n)"
  have v: "0 \<le> ?v" using round_even_mono [of 0 "x * 10 ^ n"] assms(1) round_even_of_int [of 0] by simp
  then have q: "0 \<le> ?v div 10 ^ n" "0 \<le> ?v mod 10 ^ n" "?v mod 10 ^ n < 10 ^ n"
    by (simp_all add: pos_imp_zdiv_nonneg_iff)
  have p: "ends_figure (CHR ''.'' # t)" for t by (simp add: ends_figure_def is_digit_def)
  have f: "format_decimal n x @ r = decimal (?v div 10 ^ n) @ CHR ''.'' # (pad_zeros n (decimal (?v mod 10 ^ n)) @ r)"
    using assms(2) by (simp add: format_decimal_def Let_def)
  have "of_int (?v div 10 ^ n) + of_int (?v mod 10 ^ n) / 10 ^ n = (of_int ?v / 10 ^ n :: rat)"
  proof -
    have "(of_int ?v :: rat) = of_int (?v div 10 ^ n * 10 ^ n + ?v mod 10 ^ n)" by (simp only: div_mult_mod_eq)
    then show ?thesis by (simp add: add_divide_distrib del: div_mult_mod_eq)
  qed
  then show ?thesis
    unfolding f read_unsigned_def Let_def
    by (simp add: take_digits [OF decimal_digits [OF q(1)] p] take_digits [OF padded_digits [OF q(2)] assms(3)]
        padded [OF q(2,3) assms(2)] digits_value_decimal [OF q(1)])
qed

lemma format_decimal_start: "0 \<le> x \<Longrightarrow> \<exists>c t. format_decimal n x = c # t \<and> is_digit c"
proof -
  assume x: "0 \<le> x"
  let ?v = "round_even (x * 10 ^ n)"
  have "0 \<le> ?v" using round_even_mono [of 0 "x * 10 ^ n"] x round_even_of_int [of 0] by simp
  then have "list_all is_digit (decimal (?v div 10 ^ n))" by (simp add: decimal_digits pos_imp_zdiv_nonneg_iff)
  then show ?thesis using decimal_nonempty [of "?v div 10 ^ n"]
    by (cases "decimal (?v div 10 ^ n)") (auto simp: format_decimal_def Let_def)
qed

lemma fixed_reads_back:
  assumes "0 < n" and "ends_figure r"
  shows "read_fixed (format_fixed n (Fin x) @ r) = (of_int (round_even (x * 10 ^ n)) / 10 ^ n, r)"
proof (cases "x < 0")
  case True
  then show ?thesis
    using read_decimal_places [of "- x" n r] assms by (simp add: read_fixed_def round_even_minus)
next
  case False
  obtain c t where c: "format_decimal n x = c # t" "is_digit c" using format_decimal_start [of x n] False by auto
  then have "c \<noteq> CHR ''-''" "c \<noteq> CHR ''+''" by (auto simp: is_digit_def)
  then show ?thesis
    using read_decimal_places [of x n r] assms False c(1) by (simp add: read_fixed_def)
qed

lemma fixed_error: "\<bar>of_int (round_even (x * 10 ^ n)) / 10 ^ n - x\<bar> \<le> 1 / (2 * 10 ^ n)"
proof -
  let ?v = "of_int (round_even (x * 10 ^ n)) :: rat"
  have "?v / 10 ^ n - x = (?v - x * 10 ^ n) / 10 ^ n" by (simp add: diff_divide_distrib)
  then have "\<bar>?v / 10 ^ n - x\<bar> = \<bar>?v - x * 10 ^ n\<bar> / 10 ^ n" by (simp only: abs_divide) simp
  also have "\<dots> \<le> (1 / 2) / 10 ^ n" by (intro divide_right_mono round_even_error) simp
  finally show ?thesis by simp
qed

subsection \<open>The message of the condition\<close>

definition message_figures :: "string \<Rightarrow> rat \<times> rat option" where
  "message_figures msg =
     (case read_fixed (drop (length ''Consumed '') msg) of (v, rest) \<Rightarrow>
        (v, if take (length '' of '') rest = '' of ''
          then Some (fst (read_fixed (drop (length '' of '') rest))) else None))"

lemma message_reads_back:
  assumes "consumed r = Fin c" and "fadd (consumed r) (remaining r) = Fin t"
  shows "\<exists>v w. message_figures (cond_message (quota_condition r now)) = (v, w) \<and> \<bar>v - c\<bar> \<le> 1 / 2000 \<and>
    (if over r then w = None else \<exists>u. w = Some u \<and> \<bar>u - t\<bar> \<le> 1 / 2000)"
proof -
  have e: "ends_figure (CHR '' '' # s)" for s by (simp add: ends_figure_def is_digit_def)
  have n: "0 < (3 :: nat)" by simp
  note c = fixed_reads_back [OF n e, of c] and t = fixed_reads_back [OF n e, of t]
  have "message_figures (cond_message (quota_condition r now)) =
      (of_int (round_even (c * 10 ^ 3)) / 10 ^ 3,
       if over r then None else Some (of_int (round_even (t * 10 ^ 3)) / 10 ^ 3))"
    using assms by (simp add: message_figures_def quota_condition_def c t del: format_fixed.simps power_numeral)
  moreover have "\<bar>of_int (round_even (y * 10 ^ 3)) / 10 ^ 3 - y\<bar> \<le> 1 / 2000" for y
    using fixed_error [of y 3] by simp
  ultimately show ?thesis by (auto simp del: power_numeral)
qed

subsection \<open>The report of the benchmark\<close>

text \<open>The verbs \<open>%g\<close> and \<open>%s\<close> on a float and a duration are parameters.\<close>

record formats =
  formatG :: "float64 \<Rightarrow> string"
  durationString :: "duration \<Rightarrow> string"

text \<open>The verb \<open>%+.nf\<close>: with the sign of positive numbers, too.\<close>

fun format_plus :: "nat \<Rightarrow> float64 \<Rightarrow> string" where
  "format_plus n NaN = ''+NaN''"
| "format_plus n PInf = ''+Inf''"
| "format_plus n NInf = ''-Inf''"
| "format_plus n NegZero = ''-'' @ format_decimal n 0"
| "format_plus n (Fin x) = (if x < 0 then ''-'' @ format_decimal n (- x) else ''+'' @ format_decimal n x)"

definition newline :: char where "newline = CHR 0x0A"

definition md_row :: "string \<Rightarrow> string \<Rightarrow> string" where
  "md_row name v = ''| '' @ name @ '' | '' @ v @ '' |''"

text \<open>The minus sign in the row of the difference, three bytes in UTF-8.\<close>

definition minus_sign :: string where
  "minus_sign = [CHR 0xE2, CHR 0x88, CHR 0x92]"

definition summary_scenario :: "formats \<Rightarrow> report_result \<Rightarrow> string list" where
  "summary_scenario F r =
     [''# Benchmark Summary'', [], ''Generated: '' @ res_generatedAt r, []] @
     (if res_label r \<noteq> [] then [''Label: '' @ CHR 0x60 # res_label r @ [CHR 0x60], []] else []) @
     [''## Scenario'', [], ''| Parameter | Value |'', ''|---|---|'',
      md_row ''count'' (signed_decimal (sint (sc_count (res_scenario r)))),
      md_row ''rate (pods/s)'' (formatG F (sc_rate (res_scenario r))),
      md_row ''runtime'' (durationString F (sc_runtime (res_scenario r))),
      md_row ''gpus per pod'' (formatG F (sc_gpus (res_scenario r))),
      md_row ''elapsed at snapshot'' (format_fixed 1 (res_elapsedSeconds r) @ ''s''), [],
      ''## Result'', [], ''| Metric | Value |'', ''|---|---|'']"

definition summary_lines :: "formats \<Rightarrow> report_result \<Rightarrow> string list" where
  "summary_lines F r = summary_scenario F r @
     [md_row ''reported GPU-hours'' (format_fixed 6 (res_reported r)),
      md_row ''expected GPU-hours'' (format_fixed 6 (res_expected r)),
      md_row (''delta (reported '' @ minus_sign @ '' expected)'') (format_plus 6 (res_delta r)),
      md_row ''accuracy ratio'' (format_fixed 4 (res_accuracy r)),
      md_row ''tracked pods'' (signed_decimal (sint (res_tracked r))), [],
      ''A negative delta is the common case on kind: kubelet start-up '' @
      ''lag means the controller observes a pod a fraction of a '' @
      ''second after create-time. See docs/benchmark-methodology.md '' @
      ''for the accuracy model.'']"

definition writeSummaryMD :: "formats \<Rightarrow> report_result \<Rightarrow> string" where
  "writeSummaryMD F r = concat (map (\<lambda>l. l @ [newline]) (summary_lines F r))"

definition report_line :: "report_result \<Rightarrow> string" where
  "report_line r =
     ''reported='' @ format_fixed 6 (res_reported r) @ '' expected='' @ format_fixed 6 (res_expected r) @
     '' delta='' @ format_plus 6 (res_delta r) @ '' accuracy='' @ format_fixed 4 (res_accuracy r) @
     '' tracked='' @ signed_decimal (sint (res_tracked r)) @ [newline]"

text \<open>A reader of the table: the figure of the first line that starts a row of a name.\<close>

fun text_lines :: "string \<Rightarrow> string list" where
  "text_lines [] = [[]]"
| "text_lines (c # s) = (if c = newline then [] # text_lines s
     else case text_lines s of [] \<Rightarrow> [[c]] | l # ls \<Rightarrow> (c # l) # ls)"

definition row_start :: "string \<Rightarrow> string" where
  "row_start name = ''| '' @ name @ '' | ''"

definition row_figure :: "string \<Rightarrow> string \<Rightarrow> rat option" where
  "row_figure name t =
     map_option (\<lambda>l. fst (read_fixed (drop (length (row_start name)) l)))
       (List.find (\<lambda>l. take (length (row_start name)) l = row_start name) (text_lines t))"

lemma text_lines_line: "newline \<notin> set l \<Longrightarrow> text_lines (l @ newline # s) = l # text_lines s"
  by (induction l) auto

lemma text_lines_concat:
  "\<forall>l \<in> set ls. newline \<notin> set l \<Longrightarrow> text_lines (concat (map (\<lambda>l. l @ [newline]) ls)) = ls @ [[]]"
  by (induction ls) (auto simp: text_lines_line)

lemma digits_no_newline: "list_all is_digit s \<Longrightarrow> newline \<notin> set s"
  by (auto simp: list_all_iff is_digit_def newline_def)

lemma format_decimal_no_newline: "0 \<le> x \<Longrightarrow> newline \<notin> set (format_decimal n x)"
proof -
  assume x: "0 \<le> x"
  let ?v = "round_even (x * 10 ^ n)"
  have "0 \<le> ?v" using round_even_mono [of 0 "x * 10 ^ n"] x round_even_of_int [of 0] by simp
  then have "newline \<notin> set (decimal (?v div 10 ^ n))" "newline \<notin> set (pad_zeros n (decimal (?v mod 10 ^ n)))"
    by (intro digits_no_newline decimal_digits padded_digits; simp add: pos_imp_zdiv_nonneg_iff)+
  then show ?thesis by (auto simp: format_decimal_def Let_def newline_def)
qed

lemma number_no_newline:
  "newline \<notin> set (format_fixed n x)" "newline \<notin> set (format_plus n x)" "newline \<notin> set (signed_decimal i)"
proof -
  show "newline \<notin> set (format_fixed n x)" "newline \<notin> set (format_plus n x)"
    using format_decimal_no_newline [of _ n] by (cases x; auto simp: newline_def)+
  show "newline \<notin> set (signed_decimal i)"
    using digits_no_newline [OF decimal_digits, of i] digits_no_newline [OF decimal_digits, of "- i"]
    by (auto simp: signed_decimal_def newline_def)
qed

text \<open>Every line of the summary is one line, if the texts put into it are.\<close>

definition plain_texts :: "formats \<Rightarrow> report_result \<Rightarrow> bool" where
  "plain_texts F r \<longleftrightarrow> newline \<notin> set (res_generatedAt r) \<and> newline \<notin> set (res_label r) \<and>
     (\<forall>x. newline \<notin> set (formatG F x)) \<and> (\<forall>d. newline \<notin> set (durationString F d))"

lemma md_row_no_newline: "newline \<notin> set (md_row name v) \<longleftrightarrow> newline \<notin> set name \<and> newline \<notin> set v"
  by (auto simp: md_row_def newline_def)

lemma summary_lines_plain:
  assumes "plain_texts F r"
  shows "list_all (\<lambda>l. newline \<notin> set l) (summary_lines F r)"
proof -
  have c: "newline \<notin> set minus_sign" by (simp add: newline_def minus_sign_def)
  show ?thesis
    using assms number_no_newline
    unfolding summary_lines_def summary_scenario_def plain_texts_def
    by (simp add: md_row_no_newline c) (simp add: newline_def)
qed

lemma summary_text_lines:
  "plain_texts F r \<Longrightarrow> text_lines (writeSummaryMD F r) = summary_lines F r @ [[]]"
  unfolding writeSummaryMD_def by (rule text_lines_concat) (simp add: summary_lines_plain [unfolded list_all_iff])

lemma row_figure_of:
  assumes "text_lines t = pre @ md_row name v # post" and "\<forall>l \<in> set pre. take (length (row_start name)) l \<noteq> row_start name"
  shows "row_figure name t = Some (fst (read_fixed (v @ '' |'')))"
proof -
  have h: "take (length (row_start name)) (md_row name v) = row_start name"
    "drop (length (row_start name)) (md_row name v) = v @ '' |''"
    by (simp_all add: row_start_def md_row_def)
  have "List.find (\<lambda>l. take (length (row_start name)) l = row_start name) (pre @ md_row name v # post) =
      Some (md_row name v)"
    using assms(2) h(1) by (induction pre) auto
  then show ?thesis using h(2) by (simp add: row_figure_def assms(1))
qed

lemma scenario_rows:
  "\<forall>l \<in> set (summary_scenario F r). take (length (row_start ''reported GPU-hours'')) l \<noteq> row_start ''reported GPU-hours''"
  "\<forall>l \<in> set (summary_scenario F r). take (length (row_start ''expected GPU-hours'')) l \<noteq> row_start ''expected GPU-hours''"
  by (auto simp: summary_scenario_def md_row_def row_start_def)

lemma md_row_start:
  "take (length (row_start ''expected GPU-hours'')) (md_row ''reported GPU-hours'' v) \<noteq> row_start ''expected GPU-hours''"
  by (simp add: md_row_def row_start_def)

lemma summary_reads_back:
  assumes "plain_texts F r" and "res_reported r = Fin x" and "res_expected r = Fin y"
  shows "\<exists>v w. row_figure ''reported GPU-hours'' (writeSummaryMD F r) = Some v \<and> \<bar>v - x\<bar> \<le> 1 / 2000000 \<and>
    row_figure ''expected GPU-hours'' (writeSummaryMD F r) = Some w \<and> \<bar>w - y\<bar> \<le> 1 / 2000000"
proof -
  have e: "ends_figure '' |''" by (simp add: ends_figure_def is_digit_def)
  have n: "0 < (6 :: nat)" by simp
  obtain post where lines: "text_lines (writeSummaryMD F r) = summary_scenario F r @
      md_row ''reported GPU-hours'' (format_fixed 6 (Fin x)) # md_row ''expected GPU-hours'' (format_fixed 6 (Fin y)) # post"
    using summary_text_lines [OF assms(1)] assms(2,3) by (simp add: summary_lines_def del: format_fixed.simps)
  have "row_figure ''reported GPU-hours'' (writeSummaryMD F r) = Some (fst (read_fixed (format_fixed 6 (Fin x) @ '' |'')))"
    by (rule row_figure_of [OF lines]) (simp add: scenario_rows)
  moreover have "row_figure ''expected GPU-hours'' (writeSummaryMD F r) = Some (fst (read_fixed (format_fixed 6 (Fin y) @ '' |'')))"
    by (rule row_figure_of [of _ "summary_scenario F r @ [md_row ''reported GPU-hours'' (format_fixed 6 (Fin x))]" _ _ post])
      (use scenario_rows(2) [of F r] in \<open>simp_all add: lines ball_Un md_row_start del: format_fixed.simps\<close>)
  moreover have "\<bar>of_int (round_even (z * 10 ^ 6)) / 10 ^ 6 - z\<bar> \<le> 1 / 2000000" for z
    using fixed_error [of z 6] by simp
  ultimately show ?thesis
    unfolding fixed_reads_back [OF n e] fst_conv by (auto simp del: power_numeral)
qed

end
