(* ===== verification/TestUtils.thy ===== *)
theory TestUtils
  imports Prelude "HOL-Library.Sublist"
begin

text \<open>
  The helpers of the end-to-end tests (\<open>test/utils/utils.go\<close>): splitting output into lines,
  finding the project directory, uncommenting code in a file, and the sequences of shell
  commands. Running a command and the file system are parameters.
\<close>

subsection \<open>Strings\<close>

definition NL :: char where "NL = char_of (10 :: nat)"
definition CR :: char where "CR = char_of (13 :: nat)"

text \<open>\<open>strings.Split\<close> at a single character.\<close>

fun split_at :: "char \<Rightarrow> string \<Rightarrow> string list" where
  "split_at c [] = [[]]"
| "split_at c (x # xs) =
     (if x = c then [] # split_at c xs
      else case split_at c xs of [] \<Rightarrow> [[x]] | l # ls \<Rightarrow> (x # l) # ls)"

definition GetNonEmptyLines :: "string \<Rightarrow> string list" where
  "GetNonEmptyLines s = List.filter (\<lambda>l. l \<noteq> []) (split_at NL s)"

text \<open>\<open>strings.Index\<close>: the first position at which the target begins.\<close>

fun index_of :: "string \<Rightarrow> string \<Rightarrow> nat option" where
  "index_of t [] = (if t = [] then Some 0 else None)"
| "index_of t (x # xs) = (if prefix t (x # xs) then Some 0 else map_option Suc (index_of t xs))"

definition contains :: "string \<Rightarrow> string \<Rightarrow> bool" where
  "contains s t \<longleftrightarrow> index_of t s \<noteq> None"

text \<open>\<open>strings.ReplaceAll\<close> of a non-empty string by nothing, left to right.\<close>

fun remove_all :: "nat \<Rightarrow> string \<Rightarrow> string \<Rightarrow> string" where
  "remove_all skip t [] = []"
| "remove_all (Suc k) t (x # xs) = remove_all k t xs"
| "remove_all 0 t (x # xs) =
     (if prefix t (x # xs) then remove_all (length t - 1) t xs else x # remove_all 0 t xs)"

definition project_dir :: "goerr + string \<Rightarrow> goerr + string" where
  "project_dir wd =
     (case wd of
        Inl e \<Rightarrow> Inl (Wrap ''failed to get current working directory'' e)
      | Inr d \<Rightarrow> Inr (remove_all 0 ''/test/e2e'' d))"

text \<open>\<open>strings.TrimPrefix\<close>.\<close>

definition TrimPrefix :: "string \<Rightarrow> string \<Rightarrow> string" where
  "TrimPrefix s p = (if prefix p s then drop (length p) s else s)"

text \<open>
  The lines of a \<open>bufio.Scanner\<close>: no line for empty input, none after a final line break, and a
  carriage return before a line break is dropped. (Lines longer than the scanner's buffer of
  64 KiB, at which it stops, are outside the model.)
\<close>

definition drop_cr :: "string \<Rightarrow> string" where
  "drop_cr l = (if l \<noteq> [] \<and> last l = CR then butlast l else l)"

definition scan_lines :: "string \<Rightarrow> string list" where
  "scan_lines s =
     (let ls = split_at NL s in map drop_cr (if last ls = [] then butlast ls else ls))"

fun join :: "char \<Rightarrow> string list \<Rightarrow> string" where
  "join c [] = []"
| "join c [l] = l"
| "join c (l # ls) = l @ c # join c ls"

subsection \<open>Uncommenting\<close>

datatype uncomment_error = ReadFailed goerr | TargetNotFound string | WriteFailed goerr

text \<open>What is written to the file, if anything; the buffer never fails to grow.\<close>

definition UncommentCode ::
    "goerr + string \<Rightarrow> (string \<Rightarrow> goerr option) \<Rightarrow> string \<Rightarrow> string \<Rightarrow> string option \<times> uncomment_error option" where
  "UncommentCode content write target pre =
     (case content of
        Inl e \<Rightarrow> (None, Some (ReadFailed e))
      | Inr s \<Rightarrow>
          (case index_of target s of
             None \<Rightarrow> (None, Some (TargetNotFound target))
           | Some i \<Rightarrow>
               (if scan_lines target = [] then (None, None)
                else
                  (let out = take i s @ join NL (map (\<lambda>l. TrimPrefix l pre) (scan_lines target))
                         @ drop (i + length target) s
                   in case write out of
                        Some e \<Rightarrow> (None, Some (WriteFailed e))
                      | None \<Rightarrow> (Some out, None)))))"

subsection \<open>Commands\<close>

text \<open>
  A command line is run in the project directory; its output comes with an error or without.
  The helpers run one after the other, and the log keeps the commands. (The quotation marks of
  the error text are left out.)
\<close>

type_synonym runner = "string list \<Rightarrow> nat \<Rightarrow> string \<times> goerr option"

definition certmanagerURL :: string where
  "certmanagerURL = ''https://github.com/cert-manager/cert-manager/releases/download/v1.20.0/cert-manager.yaml''"

definition Run :: "runner \<Rightarrow> string list \<Rightarrow> (string list list, string \<times> goerr option) state" where
  "Run r cmd = State (\<lambda>log. case r cmd (length log) of (out, e) \<Rightarrow>
     ((out, map_option (Wrap (join (CHR '' '') cmd @ '' failed with error '' @ out)) e), log @ [cmd]))"

definition UninstallCertManager :: "runner \<Rightarrow> (string list list, unit) state" where
  "UninstallCertManager r = do {
     _ \<leftarrow> Run r [''kubectl'', ''delete'', ''-f'', certmanagerURL];
     _ \<leftarrow> Run r [''kubectl'', ''delete'', ''lease'', ''cert-manager-cainjector-leader-election'',
       ''-n'', ''kube-system'', ''--ignore-not-found'', ''--force'', ''--grace-period=0''];
     _ \<leftarrow> Run r [''kubectl'', ''delete'', ''lease'', ''cert-manager-controller'',
       ''-n'', ''kube-system'', ''--ignore-not-found'', ''--force'', ''--grace-period=0''];
     State_Monad.return ()
   }"

definition InstallCertManager :: "runner \<Rightarrow> (string list list, goerr option) state" where
  "InstallCertManager r = do {
     (_, e) \<leftarrow> Run r [''kubectl'', ''apply'', ''-f'', certmanagerURL];
     case e of
       Some err \<Rightarrow> State_Monad.return (Some err)
     | None \<Rightarrow> do {
         (_, e) \<leftarrow> Run r [''kubectl'', ''wait'', ''deployment.apps/cert-manager-webhook'', ''--for'',
           ''condition=Available'', ''--namespace'', ''cert-manager'', ''--timeout'', ''5m''];
         State_Monad.return e
       }
   }"

definition certManagerCRDs :: "string list" where
  "certManagerCRDs = [''certificates.cert-manager.io'', ''issuers.cert-manager.io'',
     ''clusterissuers.cert-manager.io'', ''certificaterequests.cert-manager.io'',
     ''orders.acme.cert-manager.io'', ''challenges.acme.cert-manager.io'']"

definition IsCertManagerCRDsInstalled :: "runner \<Rightarrow> (string list list, bool) state" where
  "IsCertManagerCRDsInstalled r = do {
     (out, e) \<leftarrow> Run r [''kubectl'', ''get'', ''crds''];
     State_Monad.return (e = None \<and>
       list_ex (\<lambda>crd. list_ex (\<lambda>line. contains line crd) (GetNonEmptyLines out)) certManagerCRDs)
   }"

definition LoadImageToKindClusterWithName ::
    "runner \<Rightarrow> (string \<Rightarrow> string option) \<Rightarrow> string \<Rightarrow> (string list list, goerr option) state" where
  "LoadImageToKindClusterWithName r env name = do {
     let cluster = (case env ''KIND_CLUSTER'' of Some v \<Rightarrow> v | None \<Rightarrow> ''kind'');
     let binary = (case env ''KIND'' of Some v \<Rightarrow> v | None \<Rightarrow> ''kind'');
     (_, e) \<leftarrow> Run r [binary, ''load'', ''docker-image'', name, ''--name'', cluster];
     State_Monad.return e
   }"

subsection \<open>Laws\<close>

lemma split_at_not_Nil [simp]: "split_at c s \<noteq> []"
  by (induction s) (auto split: list.split)

lemma split_at_free: "l \<in> set (split_at c s) \<Longrightarrow> c \<notin> set l"
proof (induction s arbitrary: l)
  case (Cons x xs)
  then show ?case by (cases "split_at c xs") (auto split: if_splits)
qed simp

lemma split_at_append: "c \<notin> set l \<Longrightarrow> split_at c (l @ c # s) = l # split_at c s"
  by (induction l) auto

lemma split_at_single: "c \<notin> set l \<Longrightarrow> split_at c l = [l]"
  by (induction l) auto

lemma split_at_join:
  "ls \<noteq> [] \<Longrightarrow> \<forall>l \<in> set ls. c \<notin> set l \<Longrightarrow> split_at c (join c ls) = ls"
  by (induction c ls rule: join.induct) (auto simp: split_at_append split_at_single)

lemma join_split_at: "join c (split_at c s) = s"
proof (induction s)
  case (Cons x xs)
  then show ?case
  proof (cases "split_at c xs")
    case (Cons l ls)
    then show ?thesis using Cons.IH by (cases ls) auto
  qed simp
qed simp

lemma nonempty_lines: "l \<in> set (GetNonEmptyLines s) \<Longrightarrow> l \<noteq> [] \<and> NL \<notin> set l"
  using split_at_free by (auto simp: GetNonEmptyLines_def)

lemma index_of_Some:
  "index_of t s = Some i \<Longrightarrow> s = take i s @ t @ drop (i + length t) s"
proof (induction s arbitrary: i)
  case (Cons x xs)
  show ?case
  proof (cases "prefix t (x # xs)")
    case True
    then have "i = 0" using Cons.prems by simp
    with True show ?thesis by (auto simp: prefix_def)
  next
    case False
    then obtain j where "i = Suc j" "index_of t xs = Some j" using Cons.prems by auto
    then show ?thesis using Cons.IH [of j] by simp
  qed
qed (auto split: if_splits)

lemma index_of_None: "index_of t s = None \<Longrightarrow> s \<noteq> a @ t @ b"
proof (induction s arbitrary: a)
  case (Cons x xs)
  then have np: "\<not> prefix t (x # xs)" and n: "index_of t xs = None" by (auto split: if_splits)
  show ?case
  proof
    assume eq: "x # xs = a @ t @ b"
    show False
    proof (cases a)
      case Nil
      then show ?thesis using eq np by (simp add: prefix_def)
    next
      case (Cons y ys)
      then show ?thesis using eq Cons.IH [OF n, of ys] by simp
    qed
  qed
qed (auto split: if_splits)

text \<open>
  Round trip: a block of lines that was commented out with a prefix, at its first occurrence in
  a file, is put back by \<open>UncommentCode\<close>, and the rest of the file stays. (The last line of the
  block is not empty, and no line ends in a carriage return.)
\<close>

definition commented :: "string \<Rightarrow> string list \<Rightarrow> string" where
  "commented pre ls = join NL (map (\<lambda>l. pre @ l) ls)"

lemma uncomment_round_trip:
  assumes ls: "ls \<noteq> []" "\<forall>l \<in> set ls. NL \<notin> set l \<and> (pre @ l = [] \<or> last (pre @ l) \<noteq> CR)"
    and pre: "NL \<notin> set pre" "pre @ last ls \<noteq> []"
    and at: "index_of (commented pre ls) (a @ commented pre ls @ b) = Some (length a)"
    and wr: "write (a @ join NL ls @ b) = None"
  shows "UncommentCode (Inr (a @ commented pre ls @ b)) write (commented pre ls) pre =
    (Some (a @ join NL ls @ b), None)"
proof -
  have sp: "split_at NL (commented pre ls) = map (\<lambda>l. pre @ l) ls"
    unfolding commented_def using ls pre(1) by (intro split_at_join) auto
  have "map drop_cr (map (\<lambda>l. pre @ l) ls) = map (\<lambda>l. pre @ l) ls"
    using ls(2) by (auto simp: drop_cr_def)
  then have sc: "scan_lines (commented pre ls) = map (\<lambda>l. pre @ l) ls"
    using ls(1) pre(2) by (auto simp: scan_lines_def sp last_map Let_def)
  have "map (\<lambda>l. TrimPrefix l pre) (map (\<lambda>l. pre @ l) ls) = ls"
    by (simp add: TrimPrefix_def comp_def)
  then show ?thesis
    using at wr ls(1) by (simp add: UncommentCode_def sc)
qed

text \<open>Whatever the target is, text outside of it is never changed.\<close>

lemma uncomment_frame:
  assumes "UncommentCode (Inr s) write target pre = (Some out, err)"
  shows "\<exists>a b mid. s = a @ target @ b \<and> out = a @ mid @ b"
  using assms index_of_Some [of target s]
  by (fastforce simp: UncommentCode_def Let_def split: option.splits if_splits)

text \<open>An empty target is found everywhere, and nothing is written.\<close>

lemma uncomment_empty: "UncommentCode (Inr s) write [] pre = (None, None)"
  by (cases s) (simp_all add: UncommentCode_def scan_lines_def)

text \<open>A target that ends in a line break loses it: the next line is joined to the last one.\<close>

lemma uncomment_joins_lines:
  assumes "NL \<notin> set l" and "l = [] \<or> last l \<noteq> CR" and "write (TrimPrefix l pre @ b) = None"
  shows "UncommentCode (Inr (l @ NL # b)) write (l @ [NL]) pre = (Some (TrimPrefix l pre @ b), None)"
proof -
  have "split_at NL (l @ [NL]) = [l, []]" using split_at_append [OF assms(1), of "[]"] by simp
  then have sc: "scan_lines (l @ [NL]) = [l]"
    using assms(2) by (auto simp: scan_lines_def Let_def drop_cr_def)
  have "prefix (l @ [NL]) (l @ NL # b)" by (simp add: prefix_def)
  then have "index_of (l @ [NL]) (l @ NL # b) = Some 0" by (cases l) auto
  then show ?thesis using assms(3) by (simp add: UncommentCode_def sc)
qed

end
