(* ===== verification/Spec2Isabelle.thy ===== *)
theory Spec2Isabelle
  imports Steady ScriptedServer PassLaws EndToEnd Wiring DeepCopy Startup IdealRun Rendering TestUtils
begin

text \<open>
  A verification library for the GPU workload budget operator: a Kubernetes controller that
  adds up the GPU-hours the pods of a budget consume in a rolling window, writes them to the
  budget's status, and evicts, pauses or reports the worst offender of a budget that has been
  over its quota for a grace period.

  The program. A reconcile pass (\<open>internal/controller\<close>) fetches a budget, keeps its
  finalizer, lists the pods its selector matches, translates each to the input of the
  accounting engine (\<open>pod_conversion.go\<close>, \<open>internal/accounting\<close>), patches the status,
  publishes gauges, and hands the worst offender to an enforcer (\<open>internal/enforcement\<close>). A
  webhook (\<open>internal/webhook/v1alpha1\<close>) admits only valid budgets; the harness in
  \<open>test/bench\<close> scores the accounting against an expected consumption.

  The theories, each with the operations of its source file under the names of the source.
  \<^item> \<open>Prelude\<close>: Go errors, and the scan loop that keeps the best element seen, with its contract
    as the locale \<open>strict_weak_order\<close>.
  \<^item> \<open>Float64\<close>, \<open>Float64_Laws\<close>: IEEE binary64 with rational values, as Go computes with it
    (nearest-even rounding, subnormals, infinities, NaN, signed zero), the conversion to
    \<open>int64\<close> and the fixed-point verbs; monotonicity, exactness and error of rounding.
  \<^item> \<open>GoTime\<close>, \<open>Calendar\<close>: instants as nanoseconds since the zero time, durations as signed
    64-bit words, \<open>Add\<close>, the saturating \<open>Sub\<close>, \<open>Hours\<close>, \<open>Seconds\<close> and the RFC 3339 format;
    the calendar of the format inverts the count of days, and its times read back.
  \<^item> \<open>K8sApi\<close>: the types of \<open>api/v1alpha1\<close> and the fields read of pods; the boundary to foreign
    code: pure library functions (record \<open>k8s\<close>), calls of the API server and the clocks
    (record \<open>api\<close>) over an opaque outside world, the log of all calls with their answers, and
    the trace logic \<open>emits\<close>.
  \<^item> \<open>Accounting\<close>, \<open>Accuracy\<close>: \<open>accounting.go\<close>; usage as clipped overlap, bounds, monotonicity,
    consistency of the flags (locale \<open>usage_meter\<close>), the rounding error of a sum, exactness on
    whole hours.
  \<^item> \<open>PodConversion\<close>: \<open>pod_conversion.go\<close>; the loops are scans for the earliest start and the
    latest finish.
  \<^item> \<open>Webhook\<close>: the validator, its errors in order, and the admission history (locale
    \<open>admission_validator\<close>).
  \<^item> \<open>Enforcement\<close>: the three enforcers as interpretations of the locale \<open>enforcer\<close>, and the
    exact result and calls on each branch as relations.
  \<^item> \<open>Metrics\<close>: \<open>metrics.go\<close> and \<open>publishMetrics\<close>; the series a trace leaves.
  \<^item> \<open>Controller\<close>: every operation of \<open>gpuworkloadbudget_controller.go\<close> in a state monad.
  \<^item> \<open>Offender\<close>: the ranking is the scan under "more hours, then smaller name".
  \<^item> \<open>ReconcileSpec\<close>: the specification of a pass, a relation between its calls and its result
    with one rule per way through the code, and the refinement of the reconciler to it.
  \<^item> \<open>ReconcileLaws\<close>: the trace properties of a pass, proved on the rules.
  \<^item> \<open>StatusLaws\<close>, \<open>Quantities\<close>: conditions, the grace clock over many passes, the window and
    grace durations with their wrap-around, rounding to milli-units, the pod watch.
  \<^item> \<open>PassLaws\<close>: the work a pass can do, and what the webhook's checks buy the reconciler.
  \<^item> \<open>ApiServer\<close>: the API server's store as the operator meets it: the versions of every budget
    with their revisions, a cache that lags behind them, the steps of other clients, and how
    each call is answered, failures and lost answers included. \<open>ServedRuns\<close>: the interface to
    such a server (locale \<open>conforming_server\<close>) and, function by function, that the operator's
    code leaves traces the server served. \<open>Operator\<close>: the life of the operator as a transition
    system (passes, pod events, other clients, restarts) and its invariant. \<open>OperatorLaws\<close>:
    what a pass does to the store. \<open>ScriptedServer\<close>: an executable server that plays a script of
    client steps and failures and interprets the interface.
  \<^item> \<open>GoHeap\<close>, \<open>DeepCopy\<close>: Go's heap (cells, addresses, pointers, slices) with the interfaces
    \<open>heap_value\<close> (what a value in the heap hangs on) and, extending it, \<open>deep_copy\<close> of a copying
    method (an equal value in cells of its own), and the generated
    copies of \<open>zz_generated.deepcopy.go\<close>, each proved to satisfy it; the structs are related to
    the records of \<open>K8sApi\<close> by their meaning.
  \<^item> \<open>GoFlags\<close>, \<open>Startup\<close>: command lines as Go's \<open>flag\<close> package reads them; \<open>cmd/main.go\<close> (flags,
    TLS and server options, manager options, the start-up calls and their exits), the scheme
    registration of \<open>groupversion_info.go\<close> and the registrations of the controller
    (\<open>SetupWithManager\<close>) and of the webhook.
  \<^item> \<open>Bench\<close>, \<open>Workload\<close>: \<open>test/bench/harness.go\<close> and the flag checks of its command, and
    \<open>test/workload-generator/main.go\<close>. \<open>IdealRun\<close>: the harness against the accounting engine.
    \<open>Commands\<close>: the two commands as processes (flags, exit codes, the report that
    \<open>test/bench/cmd/gwb-bench/main.go\<close> writes). \<open>Rendering\<close>: the summary and the printed line of
    that report, and the message of the condition, with a reader that gets the figures back.
    \<open>TestUtils\<close>: \<open>test/utils/utils.go\<close>.
  \<^item> \<open>Reference\<close>, \<open>Cluster\<close>: an instance of the foreign library with its documented behaviour,
    an honest API server under which whole passes of the reconciler run, and the sample values
    of the witnesses. \<open>Draining\<close>, \<open>Steady\<close>: enforcement over
    many such passes, and passes with nothing new to report.
  \<^item> \<open>EndToEnd\<close>: pod translation, accounting, quantities and the pass composed, against a
    calculation without floats on the exact values of the quantities: how far the status may be
    off, and when the decision over the quota is the exact one.
  \<^item> \<open>Wiring\<close>: the dependencies of the reconciler and of the enforcers as Go's interface values,
    which may be nil, with the panics of calls on them; on the reconciler that \<open>cmd/main.go\<close>
    builds, the enforcement step is the one of \<open>Controller\<close>.

  Modelling choices. A pass is a function of the outside world; since an arbitrary server and
  arbitrary clocks are parameters, every statement of the form \<open>emits m Q\<close> covers all
  interleavings of a pass with other clients and all failures of its calls. Nothing runs on
  fuel: all loops are structural recursions over lists or indices. Integers keep their width
  (\<open>int32\<close> fields, \<open>int64\<close> durations and quantities); instants are unbounded, as the years of
  Kubernetes timestamps are far from the range of Go's. Float expressions are evaluated
  operation by operation, as on amd64; a Go compiler for a target with fused multiply-add may
  round differently. The result of a conversion to \<open>int64\<close> that does not fit is a parameter,
  because Go leaves it open. The laws of the stored status are about a server that keeps
  whole seconds of the timestamps it is sent. The laws about exact hours are about quantities
  whose float is their value up to a number of roundings, and about at most \<open>2^20\<close> roundings in
  all, which leaves room for a million pods.

  The operator's reads come from a cache (\<open>mgr.GetClient\<close> in \<open>cmd/main.go\<close>). In \<open>ApiServer\<close> the
  cache shows an earlier version of each budget and only ever moves forward, an update is
  taken only at the revision that was read, a status patch is taken at any revision, and a
  budget marked for deletion disappears with its last finalizer. The passes and events of one
  operator follow one another, as its work queue makes them for each budget; a crash in the
  middle of a pass has the effect of a pass whose remaining calls fail, followed by a restart.
  Of the other clients it is assumed that what they create or edit passes the webhook (it is
  switched on) and that none takes the operator's finalizer away; what happens to a budget that
  was stored without the webhook is a property of its own.

  On Go's heap, a struct passed by pointer to \<open>DeepCopyInto\<close> is read once at the call and the
  result is what is written to \<open>*out\<close>; both pointers are distinct in all calls of the code. The
  copying methods of \<open>apimachinery\<close>'s structs are parameters that satisfy the interface. The
  reconciler itself works on values: the isolation of copies is what makes that faithful for the
  base of its patches. At start-up, the calls of \<open>controller-runtime\<close> answer from an opaque
  outside world; the handles they return are only passed on.

  Not modelled: logging and progress messages; what the manager does once it runs (its watches,
  the timing of its queue and leader election, which are \<open>controller-runtime\<close>'s); in the tools under \<open>test\<close>, the
  textual formats of durations and of shortest numbers and the syntax of JSON, which are
  parameters, and the help texts; the Go test files.
\<close>

section \<open>The reconcile pass\<close>

text \<open>C1: Refinement. For every API server, clock and library, each run of \<open>Reconcile\<close> appends
  to the trace exactly one of the call sequences of the specification (gone, fetch failed,
  released, guard added, degraded, reported, enforced, each with its errors), with the result
  that the specification pairs with it.\<close>

theorem reconcile_refines: "emits (Reconcile L A ns n) (reconcile_spec L ns n)"
  by (rule Reconcile_spec)

text \<open>C2: Safety. Every eviction and every pod patch of a pass comes after a clock reading, a
  successful listing and a successful status write of the same pass; the accounting of that
  listing is over the quota, the stored budget has been flagged for at least its grace
  period, and the call concerns the worst offender of that listing.\<close>

theorem enforcement_justified: "emits (Reconcile L A ns n) (\<lambda>r cs. justified L cs)"
  by (rule emits_conseq [OF Reconcile_spec]) (rule reconcile_spec_justified)

text \<open>C3: Progress. When a pass has listed the pods, is over the quota, has stored a status whose
  flag has stood for the grace period and finds an offender, the rest of the pass makes the
  call its configured action owes to that pod (a pod that is already paused excepted).\<close>

theorem enforcement_when_due: "emits (Reconcile L A ns n) (\<lambda>r cs. enforced_when_due L cs)"
  by (rule emits_conseq [OF Reconcile_spec]) (rule reconcile_spec_enforced)

text \<open>C4: Safety and progress of the decision. In a pass over such pods whose exact consumption differs
  from the exact quota by more than that rounding error: while it is below the quota no pod is
  evicted or paused; once it has reached the quota, the stored flag has stood for the grace period
  and there is an offender, the call that the configured action owes to the offender is made.\<close>

theorem decision_is_exact: "emits (Reconcile L A ns n) (\<lambda>r cs. decided_exactly L value k m cs)"
  by (rule emits_conseq [OF Reconcile_spec]) (rule reconcile_spec_decided)

text \<open>C5: Liveness. Against an honest server, a guarded budget with the Evict action and a positive
  grace period that is over its quota at time \<open>start\<close> and at a time \<open>now\<close> after the grace
  period: the pass at \<open>start\<close> only flags it and leaves every pod alone, and the pass at \<open>now\<close>
  removes the worst offender from the cluster, and no other pod.\<close>

theorem two_passes_evict_the_offender:
  assumes "conditions_contract L" and "overspent L sel c start" and "overspent L sel c now"
    and "flagged_since L (cl_budget c) = None" and "configured_action (cl_budget c) = ActionEvict"
    and "0 < sint (gracePeriodSeconds (enforcement (spec (cl_budget c))))"
    and "whole_second start + sint (gracePeriodSeconds (enforcement (spec (cl_budget c)))) * 1000000000 \<le> now"
    and "offender L (cl_budget c) (listed L sel c) now = Some p"
  shows "cl_pods (pass_at L start c) = cl_pods c \<and>
    cl_pods (pass_at L now (pass_at L start c)) =
      List.filter (\<lambda>q. \<not> is_pod (pod_namespace p) (pod_name p) q) (cl_pods c)"
  using two_passes [OF assms] by blast

lemma two_passes_evict_the_offender_witness:
  "cl_pods (pass_at ref_lib 7200000000000 sample_cluster) = [sample_pod] \<and>
    cl_pods (pass_at ref_lib 10800000000000 (pass_at ref_lib 7200000000000 sample_cluster)) = []"
proof -
  have f: "flagged_since ref_lib (cl_budget sample_cluster) = None"
    by (simp add: flagged_since_def ref_lib_def ref_find_def sample_cluster_def samples)
  have a: "configured_action (cl_budget sample_cluster) = ActionEvict"
    "sint (gracePeriodSeconds (enforcement (spec (cl_budget sample_cluster)))) = 300"
    "cl_pods sample_cluster = [sample_pod]"
    by (simp_all add: configured_action_def sample_cluster_def samples)
  show ?thesis
    using two_passes_evict_the_offender [OF ref_contract sample_overspent sample_overspent f,
        of 7200000000000 10800000000000 sample_pod]
    unfolding sample_listed by (simp add: a sample_cluster_offender whole_second_def is_pod_def del: of_int_sint)
qed

text \<open>C6: Liveness of enforcement. Against an honest server, a flagged budget with the Evict action,
  and passes at any times after its grace period, more of them than there are pods: before one
  of them the budget is back below its quota or no running pod can be charged any more, and
  until then it has stayed flagged.\<close>

theorem evictions_drain_the_budget:
  assumes "conditions_contract L" and "armed L sel c deadline"
    and "\<forall>t \<in> set ts. deadline \<le> t \<and> t \<noteq> 0" and "length (cl_pods c) < length ts"
  shows "\<exists>k < length ts. armed L sel (passes_at L (take k ts) c) deadline \<and>
    set (cl_pods (passes_at L (take k ts) c)) \<subseteq> set (cl_pods c) \<and>
    (\<not> over_quota L sel (passes_at L (take k ts) c) (ts ! k) \<or>
     offender L (cl_budget (passes_at L (take k ts) c)) (listed L sel (passes_at L (take k ts) c)) (ts ! k) = None)"
  using assms by (rule drained)

lemma evictions_drain_the_budget_witness:
  "\<exists>k. k < 2 \<and>
    armed ref_lib sample_selector (passes_at ref_lib (take k [7200000000000, 10800000000000]) flagged_cluster) 7200000000000 \<and>
    set (cl_pods (passes_at ref_lib (take k [7200000000000, 10800000000000]) flagged_cluster)) \<subseteq> {sample_pod}"
proof -
  obtain k where k: "k < length [7200000000000, 10800000000000 :: gotime]"
      "armed ref_lib sample_selector (passes_at ref_lib (take k [7200000000000, 10800000000000]) flagged_cluster) 7200000000000"
      "set (cl_pods (passes_at ref_lib (take k [7200000000000, 10800000000000]) flagged_cluster)) \<subseteq> set (cl_pods flagged_cluster)"
    using evictions_drain_the_budget [OF ref_contract flagged_armed, of "[7200000000000, 10800000000000]"]
    unfolding flagged_pods by auto
  have "k < 2" using k(1) by simp
  then show ?thesis using k(2,3) unfolding flagged_pods by auto
qed

text \<open>C7: Termination and bounds. Whatever the server answers and however many pods there are, a pass
  ends after at most twelve calls: one listing, one metadata update, two status writes and one
  call that changes a pod at most.\<close>

theorem pass_work_bounded: "emits (Reconcile L A ns n) (\<lambda>r cs. work_bounded cs)"
  by (rule emits_conseq [OF Reconcile_spec]) (rule reconcile_spec_work)

text \<open>C8: Stability. Against an honest server, a pass that enforces nothing (the budget is within its
  quota, or its grace period is still running) and reports the accounting that the previous such
  pass reported, at whatever later time, stores the same budget again: specification, finalizers,
  amounts, counts and every condition with its transition time; and no pod has changed.\<close>

theorem unchanged_accounting_changes_nothing:
  assumes "conditions_contract L" and "calm L sel c now" and "calm L sel (pass_at L now c) now'"
    and "account_budget L (cl_budget c) now' (listed L sel c) = account_budget L (cl_budget c) now (listed L sel c)"
  shows "same_stored L (cl_budget (pass_at L now' (pass_at L now c))) (cl_budget (pass_at L now c)) \<and>
    cl_pods (pass_at L now' (pass_at L now c)) = cl_pods c"
  using steady_passes [OF assms] by blast

lemma unchanged_accounting_changes_nothing_witness:
  "same_stored ref_lib
    (cl_budget (pass_at ref_lib 10800000000000 (pass_at ref_lib 7200000000000 idle_cluster)))
    (cl_budget (pass_at ref_lib 7200000000000 idle_cluster))"
  using unchanged_accounting_changes_nothing [OF ref_contract idle_calm(1) idle_calm(3),
      of 7200000000000 10800000000000]
  unfolding idle_calm(2) [of 1, simplified] by (simp add: idle_account [of 10800000000000 7200000000000])

text \<open>C9: Error handling and requeueing. A pass fails only if one of its calls failed; without
  an error a budget that is missing or being deleted is not requeued, and any other one is, at
  the default or at the over-budget cadence.\<close>

theorem requeue_discipline: "emits (Reconcile L A ns n) (\<lambda>r cs. requeue_policy r cs)"
  by (rule emits_conseq [OF Reconcile_spec]) (rule reconcile_spec_policy)

text \<open>C10: Metrics. After a pass whose status write went through, the gauge series the pass leaves
  are the consumption, the remainder and the tracked pods of the accounting of its listing,
  under the labels of the stored budget, and nothing else (an enforcement changes none).\<close>

theorem gauges_match_accounting: "emits (Reconcile L A ns n) (\<lambda>r cs. gauges_current L cs)"
  by (rule emits_conseq [OF Reconcile_spec]) (rule reconcile_spec_gauges)

section \<open>The operator among other clients\<close>

text \<open>C11: Invariant of the operator's life. Whatever other clients do in between (but for taking the
  operator's finalizer away), however far the cache lags behind, and whichever calls fail or
  lose their answer: after any passes, pod events and restarts, every gauge series of the
  operator belongs to a stored budget that carries the finalizer. No deleted budget leaves a
  series behind.\<close>

theorem series_belong_to_guarded_budgets:
  assumes "finalizer_contract L" and "conforming_server others L A shown"
    and "operating others L A shown w" and "gauges (log w) (m, ls) = Some v"
  shows "\<exists>ns n b. ls = [ns, n] \<and> stored (shown (env w)) (ns, n) = Some b \<and> guarded L b"
  using conforming_server.operating_in_step [OF assms(2,1,3)] assms(4)
  by (fastforce simp: in_step_def tidy_def holds_guard_def split: option.splits)

lemma series_belong_to_guarded_budgets_witness:
  "\<exists>(w :: (rat, label_selector, rat scripted) world) b. gauges (log w) (consumedGPUHours, [''ml'', ''gpu'']) = Some (Fin 0) \<and>
    stored (sv_store (env w)) (''ml'', ''gpu'') = Some b \<and> guarded ref_lib b"
proof -
  obtain w b where w: "sample_run True [(0, Some live_budget)] interruption = (Inr defaultRequeueInterval, w)"
      "gauges (log w) (consumedGPUHours, [''ml'', ''gpu'']) = Some (Fin 0)"
    by (rule interrupted_run)
  have "lawful ref_lib (sv_store (sample_site [(0, Some live_budget)] interruption))"
    by (rule site_lawful) simp_all
  then have "operating True ref_lib (scripted_api True ref_lib) sv_store w"
    by (rule sample_operating [OF _ _ w(1)]) simp
  from series_belong_to_guarded_budgets [OF ref_finalizers scripted.conforming_server_axioms this w(2)]
  obtain b where "stored (sv_store (env w)) (''ml'', ''gpu'') = Some b" "guarded ref_lib b" by auto
  then show ?thesis using w(2) by (intro exI [of _ w] exI [of _ b]) simp
qed

text \<open>C12: Safety of a pass. Without other clients a pass for any budget, even one that reads an old
  version from the cache, leaves every stored budget that is not being deleted in place, with
  its specification, its deletion mark and all its finalizers: an update is only taken at the
  version that was read.\<close>

theorem live_budgets_survive_passes:
  assumes "finalizer_contract L" and "conforming_server False L A shown" and "lawful L (shown (env w))"
    and "run_state (Reconcile L A ns n) w = (r, w')"
    and "stored (shown (env w)) k = Some b" and "\<not> deleting b"
  shows "\<exists>b'. stored (shown (env w')) k = Some b' \<and> deletionTimestamp b' = deletionTimestamp b \<and>
    spec b' = spec b \<and> set (finalizers b) \<subseteq> set (finalizers b')"
proof -
  obtain cs where cs: "reconcile_spec L ns n r cs" "serves False L (shown (env w)) cs (shown (env w'))"
    by (rule conforming_server.pass_served [OF assms(2,4)])
  have "intact k b (shown (env w))" using assms(5) by (simp add: intact_def)
  from intact_pass [OF assms(1) cs assms(3) this assms(6)] show ?thesis by (simp add: intact_def)
qed

lemma live_budgets_survive_passes_witness:
  "\<exists>b'. stored (sv_store (env (snd (sample_run False [(0, Some dying_budget), (1, None), (2, Some live_budget)] []))))
      sample_key = Some b' \<and> spec b' = spec live_budget \<and> finalizerName \<in> set (finalizers b')"
proof -
  let ?vs = "[(0, Some dying_budget), (1, None), (2, Some live_budget)]"
  obtain r w' where r: "sample_run False ?vs [] = (r, w')" by force
  have law: "lawful ref_lib (sv_store (sample_site ?vs []))" by (rule site_lawful) auto
  have st: "stored (sv_store (sample_site ?vs [])) sample_key = Some live_budget"
    by (simp add: stored_def sample_site_def)
  from live_budgets_survive_passes [OF ref_finalizers scripted.conforming_server_axioms,
      of "\<lparr>env = sample_site ?vs [], log = []\<rparr>" "''ml''" "''gpu''" r w' sample_key live_budget]
  show ?thesis using law st r by (simp add: sample_run_def) (auto simp: live_budget_def)
qed

text \<open>C13: Liveness of a new budget. A pass for a budget without the finalizer that is not being deleted,
  once the cache shows it so, either ends in an error, with one of its calls failed, or it requeues
  the budget, which then carries the finalizer with an unchanged specification and has had a status
  written.\<close>

theorem new_budget_taken_up:
  assumes "finalizer_contract L" and "conforming_server False L A shown" and "lawful L (shown (env w))"
    and "versions (shown (env w)) (ns, n) = [(i, Some b)]" and "\<not> deleting b" and "\<not> guarded L b"
    and "run_state (Reconcile L A ns n) w = (r, w')" and "log w' = log w @ cs"
  shows "((\<exists>e. r = Inl e) \<and> list_ex ReconcileLaws.failed_call cs) \<or>
    ((r = Inr defaultRequeueInterval \<or> r = Inr overBudgetRequeueInterval) \<and>
     (\<exists>b'. stored (shown (env w')) (ns, n) = Some b' \<and> guarded L b' \<and> spec b' = spec b \<and> \<not> deleting b') \<and>
     (\<exists>base nb b'. PatchStatus base nb (Inr b') \<in> set cs \<and> key_of nb = (ns, n)))"
proof -
  obtain ds where ds: "log w' = log w @ ds" "reconcile_spec L ns n r ds"
      "serves False L (shown (env w)) ds (shown (env w'))"
    by (rule conforming_server.pass_served [OF assms(2,7)])
  have "ds = cs" using ds(1) assms(8) by simp
  then show ?thesis
    using onboarding_pass [OF assms(1) ds(2,3) assms(3-6)] reconcile_spec_policy [OF ds(2)]
    by (auto simp: requeue_policy_def)
qed

lemma new_budget_taken_up_witness:
  "\<exists>b'. stored (sv_store (env (snd (sample_run False [(0, Some sample_budget)] [])))) sample_key = Some b' \<and>
    guarded ref_lib b' \<and> spec b' = spec sample_budget"
proof -
  let ?run = "sample_run False [(0, Some sample_budget)] []"
  obtain w' where r: "?run = (Inr defaultRequeueInterval, w')" by (rule fresh_run)
  have law: "lawful ref_lib (sv_store (sample_site [(0, Some sample_budget)] []))"
    by (rule site_lawful) simp_all
  have vs: "versions (sv_store (sample_site [(0, Some sample_budget)] [])) (''ml'', ''gpu'') = [(0, Some sample_budget)]"
    by (simp add: sample_site_def sample_key_fold)
  have run: "run_state (Reconcile ref_lib (scripted_api False ref_lib) ''ml'' ''gpu'')
      \<lparr>env = sample_site [(0, Some sample_budget)] [], log = []\<rparr> = (Inr defaultRequeueInterval, w')"
    using r by (simp add: sample_run_def)
  show ?thesis
    using new_budget_taken_up [OF ref_finalizers scripted.conforming_server_axioms _ _ _ _ run, of 0 sample_budget "log w'"]
    unfolding r using vs by (auto simp: law sample_key_fold)
qed

text \<open>C14: Liveness of deletion. A pass for a guarded budget that is marked for deletion, once the
  cache shows it so, either ends in the error of a call that failed, or without an error and
  a requeue, with all gauge series of the budget gone and the finalizer taken from the stored
  budget, which is removed if no other finalizer is left.\<close>

theorem deletion_completes:
  assumes "conforming_server False L A shown" and "lawful L (shown (env w))"
    and "versions (shown (env w)) (ns, n) = [(i, Some b)]" and "deleting b" and "guarded L b"
    and "run_state (Reconcile L A ns n) w = (r, w')"
  shows "(\<exists>e cs. r = Inl e \<and> log w' = log w @ cs \<and> list_ex (failed_call (ns, n)) cs) \<or>
    (r = Inr 0 \<and> stored (shown (env w')) (ns, n) = settled (released L b) \<and>
     (\<forall>m \<in> {consumedGPUHours, remainingGPUHours, trackedPodsGauge, accountingAccuracyRatio}.
        gauges (log w') (m, [ns, n]) = None))"
proof -
  obtain cs where cs: "log w' = log w @ cs" "reconcile_spec L ns n r cs"
      "serves False L (shown (env w)) cs (shown (env w'))"
    by (rule conforming_server.pass_served [OF assms(1,6)])
  show ?thesis
    using deletion_pass [OF cs(2,3) assms(2-5)] by (auto simp: cs(1) gauges_append foldl_gauge_clear)
qed

lemma deletion_completes_witness:
  "stored (sv_store (env (snd (sample_run False [(0, Some dying_budget)] [])))) sample_key = None"
proof -
  obtain w' where r: "sample_run False [(0, Some dying_budget)] [] = (Inr 0, w')" by (rule dying_run)
  have law: "lawful ref_lib (sv_store (sample_site [(0, Some dying_budget)] []))" by (rule site_lawful) auto
  have gone: "settled (released ref_lib dying_budget) = None"
    by (simp add: settled_def released_def dying_budget_def live_budget_def deleting_def ref_lib_def)
  have vs: "versions (sv_store (sample_site [(0, Some dying_budget)] [])) (''ml'', ''gpu'') = [(0, Some dying_budget)]"
    by (simp add: sample_site_def sample_key_fold)
  from deletion_completes [OF scripted.conforming_server_axioms, of
      "\<lparr>env = sample_site [(0, Some dying_budget)] [], log = []\<rparr>" "''ml''" "''gpu''" 0 dying_budget "Inr 0" w']
  show ?thesis using law vs r gone by (auto simp: sample_run_def sample_key_fold)
qed



text \<open>C16: Error behaviour. A guarded budget marked for deletion whose specification the webhook does
  not accept (stored while the webhook was off, or before a check was added): every pass ends in
  an error and leaves its versions as they are, finalizer included. The handlers check updates
  of budgets that are being deleted like any others.\<close>

theorem invalid_budget_cannot_be_deleted:
  assumes "conforming_server False L A shown" and "versions (shown (env w)) (ns, n) = [(i, Some b)]"
    and "deleting b" and "guarded L b" and "snd (ValidateUpdate L b (released L b)) \<noteq> None"
    and "run_state (Reconcile L A ns n) w = (r, w')"
  shows "(\<exists>e. r = Inl e) \<and> versions (shown (env w')) (ns, n) = [(i, Some b)]"
proof -
  obtain cs where cs: "reconcile_spec L ns n r cs" "serves False L (shown (env w)) cs (shown (env w'))"
    by (rule conforming_server.pass_served [OF assms(1,6)])
  have "\<not> valid_spec L (spec b)" using assms(5) by (simp add: accepted_valid released_def)
  from stuck_pass [OF cs assms(2-4) this] show ?thesis .
qed

lemma invalid_budget_cannot_be_deleted_witness:
  "stored (sv_store (env (snd (run_state (Reconcile ref_lib (scripted_api False ref_lib) ''ml'' ''gpu'')
      \<lparr>env = sample_site [(0, Some invalid_budget)] [], log = []\<rparr>)))) sample_key = Some invalid_budget"
proof -
  obtain r w' where r: "run_state (Reconcile ref_lib (scripted_api False ref_lib) ''ml'' ''gpu'')
      \<lparr>env = sample_site [(0, Some invalid_budget)] [], log = []\<rparr> = (r, w')" by force
  have "snd (ValidateUpdate ref_lib invalid_budget (released ref_lib invalid_budget)) \<noteq> None"
    by (simp add: accepted_valid released_def)
  from invalid_budget_cannot_be_deleted [OF scripted.conforming_server_axioms _ _ _ this r, of 0]
  have "versions (sv_store (env w')) sample_key = [(0, Some invalid_budget)]"
    by (simp add: sample_site_def sample_key_fold)
  then show ?thesis unfolding r by (simp add: stored_def)
qed

section \<open>Accounting\<close>

text \<open>C17: Accuracy end to end. For pods and a budget as the API server holds them (their quantities
  converted with at most \<open>k\<close> roundings, at most \<open>m\<close> containers in a pod, a positive window that
  fits a duration, at most \<open>2^29\<close> GPU-hours and \<open>2^20\<close> roundings in all), the consumption that a pass
  writes to the status is the exact one, the sum over the pods of requested GPUs times hours from the
  observed start to the observed end inside the window, up to little more than half a milli-unit and
  a relative error of \<open>(k + m + 3 + n) * 2^-52\<close> for \<open>n\<close> pods.\<close>

theorem status_tells_exact_hours:
  assumes "metered L value k m b now pods"
  shows "\<exists>u. consumedGpuHours (status_after L b (account_budget L b now pods) conds) = newMilliQuantity L u \<and>
    \<bar>of_int (sint u) - 1000 * true_total value b now pods\<bar>
      \<le> 1 / 2 + 1 / 2 ^ 11 + margin (roundings k m pods) * (1000 * true_total value b now pods)"
  using status_hours [OF assms] by (simp add: status_after_def)

lemma status_tells_exact_hours_witness:
  "\<exists>u. consumedGpuHours (status_after ref_lib sample_budget
      (account_budget ref_lib sample_budget 7200000000000 [sample_pod]) []) = newMilliQuantity ref_lib u \<and>
    \<bar>of_int (sint u) - 2000\<bar> \<le> 1 / 2 + 1 / 2 ^ 11 + margin 6 * (2000 :: rat)"
  using status_tells_exact_hours [OF sample_metered, of "[]"] by (simp add: sample_total roundings_def)

text \<open>C18: Exactness. When every GPU count is integral and every overlap a number of whole hours,
  and the total is at most a trillion, there is no rounding at all: the status quantity is
  1000 milli-units per GPU-hour of the exact sum.\<close>

theorem whole_hours_exact:
  assumes "\<forall>p \<in> set pods. whole_hours (window_start b now) now p"
    and "exact_sum (window_start b now) now pods \<le> 10 ^ 12"
  shows "\<exists>n. exact_sum (window_start b now) now pods = of_int n \<and>
    gpuHoursToQuantity L (consumed (Compute b now pods)) = newMilliQuantity L (word_of_int (1000 * n))"
proof -
  have "exact_sum (window_start b now) now pods \<le> 2 ^ 53" using assms(2) by simp
  then obtain n where n: "exact_sum (window_start b now) now pods = of_int n" "0 \<le> n"
      "consumed (Compute b now pods) = Fin (of_int n)"
    using sum_whole [OF assms(1)] by auto
  then have "of_int n \<le> (of_int (10 ^ 12) :: rat)" using assms(2) by simp
  then have "n \<le> 10 ^ 12" by (simp only: of_int_le_iff)
  then have "word_of_int (sint (milli_units L (Fin (of_int n)))) = (word_of_int (1000 * n) :: 64 word)"
    using milli_units_whole [OF n(2), of L] by simp
  then show ?thesis using n by (auto simp: gpuHoursToQuantity_milli)
qed

lemma whole_hours_exact_witness:
  "\<exists>n. (8 :: rat) = of_int n \<and>
    gpuHoursToQuantity ref_lib (consumed (Compute sample_account 14400000000000 [sample_accounted])) =
      newMilliQuantity ref_lib (word_of_int (1000 * n))"
  using whole_hours_exact [of "[sample_accounted]" sample_account 14400000000000 ref_lib]
  unfolding sample_from sample_sum by (simp add: sample_whole del: Compute_simps)

text \<open>C19: Consistency of a result. For a quota that is a proper number and pods with proper GPU
  counts, consumption and remainder are never negative, and a budget is over exactly if
  nothing remains: rounding cannot make the two disagree.\<close>

theorem over_iff_nothing_remains:
  assumes "wf64 (acc_quota b)" and "acc_quota b \<noteq> NaN" and "acc_quota b \<noteq> PInf"
    and "\<forall>p \<in> set pods. acc_ok p"
  shows "nonneg64 (consumed (Compute b now pods)) \<and> nonneg64 (remaining (Compute b now pods)) \<and>
    over (Compute b now pods) = feq (remaining (Compute b now pods)) (Fin 0)"
  using Compute_flags [OF assms] by blast

lemma over_iff_nothing_remains_witness:
  "over (Compute sample_account 14400000000000 [sample_accounted]) =
    feq (remaining (Compute sample_account 14400000000000 [sample_accounted])) (Fin 0)"
  using over_iff_nothing_remains [of sample_account "[sample_accounted]" 14400000000000]
  by (simp add: sample_ok sample_account_def rep64_numeral del: Compute_simps)

text \<open>C20: Monotonicity. Pods that the API server has garbage-collected (any sub-list of the pods)
  can only lower the consumption, never raise it, and cannot turn a budget over.\<close>

theorem lost_pods_only_lower:
  assumes "subseq seen pods" and "\<forall>p \<in> set pods. acc_ok p"
  shows "fle (consumed (Compute b now seen)) (consumed (Compute b now pods)) \<and>
    (over (Compute b now seen) \<longrightarrow> over (Compute b now pods))"
  using window_meter.sum_subseq [OF assms] by (auto intro: fle_trans)

lemma lost_pods_only_lower_witness:
  "fle (consumed (Compute sample_account 14400000000000 []))
    (consumed (Compute sample_account 14400000000000 [sample_accounted]))"
  using lost_pods_only_lower [of "[]" "[sample_accounted]"] sample_ok by (simp del: Compute_simps)

section \<open>Translating pods\<close>

text \<open>C21: Equivalence. The translation of a pod is its reference: nothing without a positive GPU
  request or without any start; else it starts at the least non-zero start of any running,
  terminated or previously terminated container (at the pod's own start time if there is none),
  and ends only in a terminal phase, at the greatest non-zero finish of a terminated container
  (at its deletion timestamp if there is none).\<close>

theorem pod_translation_is_reference:
  "podToAccounting L p name =
     (if fle (gpuRequestTotal L p name) (Fin 0) then None
      else case (if observed_starts p = [] then startTime p else Some (Min (set (observed_starts p)))) of
          None \<Rightarrow> None
        | Some s \<Rightarrow> Some \<lparr>acc_id = pod_uid p, acc_start = s,
            acc_end = (if phase p = PodSucceeded \<or> phase p = PodFailed
              then if observed_finishes p = [] then pod_deletionTimestamp p
                else Some (Max (set (observed_finishes p)))
              else None),
            acc_gpus = gpuRequestTotal L p name\<rparr>)"
  unfolding podToAccounting_def Let_def start_is_earliest end_is_latest by (rule refl)

text \<open>C22: A pod that failed or succeeded without any finish time and is not being deleted has no
  end: its charge keeps growing with the time of the evaluation although it runs no more.\<close>

theorem unfinished_terminal_pod_keeps_running:
  assumes "podToAccounting L p name = Some a" and "phase p = PodFailed \<or> phase p = PodSucceeded"
    and "observed_finishes p = []" and "pod_deletionTimestamp p = None"
  shows "overlap a from to = to - max (acc_start a) from"
  using assms by (auto simp: overlap_def podToAccounting_Some(4) podEnd_scan)

lemma unfinished_terminal_pod_keeps_running_witness:
  "\<exists>a. podToAccounting ref_lib (sample_pod\<lparr>phase := PodFailed\<rparr>) ''nvidia.com/gpu'' = Some a \<and>
    overlap a 0 7200000000000 = 3600000000000 \<and> overlap a 0 36000000000000 = 32400000000000"
proof -
  have "podToAccounting ref_lib (sample_pod\<lparr>phase := PodFailed\<rparr>) ''nvidia.com/gpu'' =
      Some \<lparr>acc_id = ''uid-1'', acc_start = 3600000000000, acc_end = None, acc_gpus = Fin 2\<rparr>"
    by (simp add: podToAccounting_def gpuRequestTotal_def earliestContainerStart_def podEnd_def
        samples observe_status_def observe_finish_def go_defs round64_numeral)
  moreover have "observed_finishes (sample_pod\<lparr>phase := PodFailed\<rparr>) = []"
    by (simp add: observed_finishes_def samples)
  moreover have "pod_deletionTimestamp (sample_pod\<lparr>phase := PodFailed\<rparr>) = None"
    by (simp add: samples)
  ultimately show ?thesis
    using unfinished_terminal_pod_keeps_running
      [of ref_lib "sample_pod\<lparr>phase := PodFailed\<rparr>" "''nvidia.com/gpu''"]
    by auto
qed

section \<open>Choosing the offender\<close>

text \<open>C23: Optimality. The chosen pod is one of the listed pods, is not terminating and has a
  positive contribution; no other such pod contributes more, and among equal contributors
  it has the least name.\<close>

theorem worst_offender_is_worst:
  assumes "\<forall>q \<in> set pods. requests_ok L q"
    and "pickWorstOffender L pods res from now = Some p"
    and "q \<in> set pods" and "candidate L res from now q"
  shows "p \<in> set pods \<and> candidate L res from now p \<and>
    fle (usage_of L res from now q) (usage_of L res from now p) \<and>
    (feq (usage_of L res from now q) (usage_of L res from now p) \<longrightarrow> pod_name p \<le> pod_name q)"
  using pickWorstOffender_best [OF assms] pickWorstOffender_candidate [OF assms(2)] by blast

lemma worst_offender_is_worst_witness:
  "fle (usage_of ref_lib ''nvidia.com/gpu'' 0 7200000000000 sample_pod)
    (usage_of ref_lib ''nvidia.com/gpu'' 0 7200000000000 sample_pod)"
  using worst_offender_is_worst
    [of "[sample_pod]" ref_lib "''nvidia.com/gpu''" 0 7200000000000 sample_pod sample_pod] sample_requests
  by (simp add: sample_plain sample_pick sample_candidate)

section \<open>Enforcement\<close>

text \<open>C24: Contract of the enforcers. The enforcer of an action only touches the pod it was given,
  with at most one call, reports an action as done exactly if the call went through, and
  produces on every branch (missing pod, disruption budget, refused, already done) the
  outcome, event and error of that branch; an unknown action only alerts.\<close>

theorem enforcer_contract: "emits (New act L A b p now) (enforcement_spec L act b p now)"
  by (rule New_spec)

text \<open>C25: Refinement of the dependencies. On the reconciler as \<open>main\<close> builds it, the enforcement step with
  Go's interface values, and nil checks at every method call, is the step of the model: it never
  panics. Without the clientset it is still that step unless the configured action is Evict.\<close>

theorem main_wires_the_step:
  assumes "R = main_reconciler A s \<or> R = (main_reconciler A s)\<lparr>Clientset := None\<rparr> \<and> configured_action b \<noteq> ActionEvict"
  shows "reconciler_maybeEnforce R L b pods now = State_Monad.bind (maybeEnforce L A b pods now) (\<lambda>x. State_Monad.return (Inr x))"
  using assms main_wired [of A s L b pods now] clientset_unused [of b None "main_reconciler A s" L pods now]
  by (auto simp: calmly_def)

lemma main_wires_the_step_witness:
  "\<forall>A :: (rat, label_selector, unit) api.
    reconciler_maybeEnforce ((main_reconciler A ())\<lparr>Clientset := None\<rparr>) ref_lib (sample_flagged ActionPause) [sample_paused] 7200000000000 =
      State_Monad.bind (maybeEnforce ref_lib A (sample_flagged ActionPause) [sample_paused] 7200000000000)
        (\<lambda>x. State_Monad.return (Inr x))"
  by (intro allI main_wires_the_step) (simp add: configured_action_def sample_flagged_def samples)

text \<open>C26: Error behaviour of a missing recorder. With an open gate and an offender, a reconciler that was
  given no event recorder makes the call that is due to the pod; if that call goes through, the step
  panics right after it, and neither event, action counter nor enforcement time is recorded.\<close>

theorem missing_recorder_loses_the_record:
  assumes "gate L b now" and "offender L b pods now = Some p"
    and "configured_action b = ActionEvict \<or> configured_action b = ActionPause \<and> \<not> paused p"
    and "Client R = Some A" and "Clientset R = Some cs" and "Recorder R = None"
  shows "emits (reconciler_maybeEnforce R L b pods now) (\<lambda>x calls. \<exists>c rest.
    calls = c # rest \<and> (mutated_pod c \<longrightarrow> x = Inl NilDereference \<and> rest = []) \<and>
    due_call (configured_action b) b p now c)"
  using assms by (rule acted_unrecorded)

lemma missing_recorder_loses_the_record_witness:
  "\<forall>A :: (rat, label_selector, unit) api.
    emits (reconciler_maybeEnforce ((main_reconciler A ())\<lparr>Recorder := None\<rparr>) ref_lib (sample_flagged ActionEvict) [sample_paused] 7200000000000)
      (\<lambda>x calls. \<exists>c rest. calls = c # rest \<and> due_call ActionEvict (sample_flagged ActionEvict) sample_paused 7200000000000 c)"
proof
  fix A :: "(rat, label_selector, unit) api"
  have c: "configured_action (sample_flagged ActionEvict) = ActionEvict"
    by (simp add: configured_action_def sample_flagged_def samples)
  show "emits (reconciler_maybeEnforce ((main_reconciler A ())\<lparr>Recorder := None\<rparr>) ref_lib (sample_flagged ActionEvict) [sample_paused] 7200000000000)
      (\<lambda>x calls. \<exists>c rest. calls = c # rest \<and> due_call ActionEvict (sample_flagged ActionEvict) sample_paused 7200000000000 c)"
    by (rule emits_conseq [OF missing_recorder_loses_the_record [OF sample_gate sample_offender]])
      (auto simp: c main_reconciler_def)
qed

text \<open>C27: Round trip of the pause. Between the zero time and year 10000, a pause that is written
  names the budget, and its RFC 3339 time, read back by the calendar, is the time of the pass in
  whole seconds.\<close>

theorem pause_time_reads_back:
  assumes "0 \<le> now" and "now < 315537897600000000000"
  shows "emits (New ActionPause L A b p now) (\<lambda>r cs. \<forall>base new x. PatchPod base new x \<in> set cs \<longrightarrow>
    base = p \<and>
    fmlookup (pod_annotations new) AnnotationPausedBy = Some (budget_namespace b @ ''/'' @ budget_name b) \<and>
    (\<exists>s. fmlookup (pod_annotations new) AnnotationPausedAt = Some s \<and>
      parse_RFC3339 s = Some (whole_second now)))"
  by (rule emits_conseq [OF New_spec])
    (auto simp: enforcement_spec_def stamp_pause_annotations format_parse [OF assms] whole_second_def
      AnnotationPausedBy_def AnnotationPausedAt_def warning_def elim!: pause_spec.cases)

lemma pause_time_reads_back_witness:
  "\<exists>new x s. PatchPod sample_pod new x \<in> set (log (snd (run_state
      (New ActionPause ref_lib (scripted_api False ref_lib) sample_budget sample_pod 7200000000000)
      \<lparr>env = sample_site [] [], log = []\<rparr>))) \<and>
    fmlookup (pod_annotations new) AnnotationPausedAt = Some s \<and> parse_RFC3339 s = Some 7200000000000"
proof -
  let ?m = "New ActionPause ref_lib (scripted_api False ref_lib) sample_budget sample_pod 7200000000000"
  let ?w = "\<lparr>env = sample_site [] [], log = []\<rparr>"
  obtain x w' where r: "run_state ?m ?w = (x, w')" by force
  have "fmlookup (pod_annotations sample_pod) AnnotationPausedAt = None" by (simp add: samples)
  then have "\<exists>y. PatchPod sample_pod (stamp_pause sample_budget sample_pod 7200000000000) y \<in> set (log (snd (run_state ?m ?w)))"
    by (simp add: New_def pauser_Enforce_def do_patch_pod_def perform_def scripted_api_def next_turn_def
        sample_site_def record_event_def emit_def Let_def)
  then obtain y where y: "PatchPod sample_pod (stamp_pause sample_budget sample_pod 7200000000000) y \<in> set (log w')"
    unfolding r by auto
  have now: "(0 :: gotime) \<le> 7200000000000" "(7200000000000 :: gotime) < 315537897600000000000" by simp_all
  obtain cs where "log w' = log ?w @ cs"
      "\<forall>base new x. PatchPod base new x \<in> set cs \<longrightarrow> base = sample_pod \<and>
        fmlookup (pod_annotations new) AnnotationPausedBy =
          Some (budget_namespace sample_budget @ ''/'' @ budget_name sample_budget) \<and>
        (\<exists>s. fmlookup (pod_annotations new) AnnotationPausedAt = Some s \<and>
          parse_RFC3339 s = Some (whole_second 7200000000000))"
    by (rule emits_run [OF pause_time_reads_back [OF now] r])
  then obtain s where "fmlookup (pod_annotations (stamp_pause sample_budget sample_pod 7200000000000)) AnnotationPausedAt = Some s"
      "parse_RFC3339 s = Some 7200000000000"
    using y by (auto simp: whole_second_def)
  then show ?thesis using y unfolding r snd_conv by blast
qed

text \<open>C28: The pass with a paused worst offender. The pause is not repeated and no other pod is
  paused in its place; the action counter and the enforcement time are updated all the same.\<close>

theorem paused_offender_shields_the_rest:
  assumes "configured_action b = ActionPause" and "gate L b now"
    and "offender L b pods now = Some p" and "paused p"
  shows "emits (maybeEnforce L A b pods now) (\<lambda>e cs. \<exists>r. cs =
    [CounterInc enforcementActionsTotal [budget_namespace b, budget_name b, ActionPause],
     PatchStatus b (stamped b now) r])"
  by (rule emits_conseq [OF maybeEnforce_spec])
    (use assms in \<open>auto elim!: enforce_specE pause_specE simp: enforcement_spec_def pause_outcome_def\<close>)

lemma paused_offender_shields_the_rest_witness:
  "\<forall>A :: (rat, label_selector, unit) api.
    emits (maybeEnforce ref_lib A (sample_flagged ActionPause) [sample_paused] 7200000000000)
      (\<lambda>e cs. \<exists>r. cs = [CounterInc enforcementActionsTotal [''ml'', ''gpu'', ActionPause],
        PatchStatus (sample_flagged ActionPause) (stamped (sample_flagged ActionPause) 7200000000000) r])"
proof -
  have c: "configured_action (sample_flagged ActionPause) = ActionPause"
    and n: "budget_namespace (sample_flagged ActionPause) = ''ml''" "budget_name (sample_flagged ActionPause) = ''gpu''"
    by (simp_all add: configured_action_def sample_flagged_def samples)
  have p: "paused sample_paused"
    by (simp add: paused_def sample_paused_def sample_noted_def)
  show ?thesis
    by (intro allI paused_offender_shields_the_rest [OF c sample_gate sample_offender p, unfolded n])
qed

section \<open>Status and grace period\<close>

text \<open>C29: Round trip of the condition's message. Read back as decimals, the consumption in the message
  of the QuotaExceeded condition is the consumption of the report to half a thousandth, and the
  message of a budget within its quota, and only that, also holds the sum of consumption and
  remainder, to half a thousandth of the float sum.\<close>

theorem condition_message_reads_back:
  assumes "consumed r = Fin c" and "fadd (consumed r) (remaining r) = Fin t"
  shows "\<exists>v w. message_figures (cond_message (quota_condition r now)) = (v, w) \<and> \<bar>v - c\<bar> \<le> 1 / 2000 \<and>
    (if over r then w = None else \<exists>u. w = Some u \<and> \<bar>u - t\<bar> \<le> 1 / 2000)"
  using assms by (rule message_reads_back)

lemma condition_message_reads_back_witness:
  "\<exists>v u. message_figures (cond_message (quota_condition
      \<lparr>consumed = Fin (7 / 4), remaining = Fin (1 / 4), tracked = 1, over = False\<rparr> 7200000000000)) = (v, Some u) \<and>
    \<bar>v - 7 / 4\<bar> \<le> 1 / 2000 \<and> \<bar>u - 2\<bar> \<le> 1 / 2000"
  using condition_message_reads_back [of "\<lparr>consumed = Fin (7 / 4), remaining = Fin (1 / 4), tracked = 1, over = False\<rparr>" "7 / 4" 2 7200000000000]
    round64_numeral [of "num.Bit0 num.One"] by auto



text \<open>C31: The grace period. After a first report over the quota at time \<open>start\<close> and any passes
  that are not within it, the gate is open exactly from the second of \<open>start\<close> plus the
  configured number of seconds on: the clock is not restarted, and enforcement is early by
  less than the second that the stored timestamp loses.\<close>

theorem gate_opens_after_grace:
  assumes "conditions_contract L" and "flagged_since L b = None" and "over r" and "start \<noteq> 0"
    and "list_all clocked ps" and "list_all not_within ps"
  shows "gate L (foldl (store L) b (Reported t1 t2 t3 r start # ps)) now =
    (whole_second start + sint (gracePeriodSeconds (enforcement (spec b))) * 1000000000 \<le> now)"
proof -
  have c: "list_all clocked (Reported t1 t2 t3 r start # ps)" using assms(4,5) by simp
  show ?thesis
    unfolding gate_flagged stores_ticks [OF assms(1) c]
    using assms(2,3) ticks_keep [OF assms(6)] by (simp add: sint_grace_of del: of_int_sint)
qed

lemma gate_opens_after_grace_witness:
  "gate ref_lib (foldl (store ref_lib) sample_budget
    [Reported 5 6 7 \<lparr>consumed = Fin 8, remaining = Fin 0, tracked = 1, over = True\<rparr> 9000000123, Enforced 10])
      309000000000 \<and>
   \<not> gate ref_lib (foldl (store ref_lib) sample_budget
    [Reported 5 6 7 \<lparr>consumed = Fin 8, remaining = Fin 0, tracked = 1, over = True\<rparr> 9000000123, Enforced 10])
      308999999999"
proof -
  have f: "flagged_since ref_lib sample_budget = None"
    by (simp add: flagged_since_def ref_lib_def ref_find_def samples)
  have s: "sint (gracePeriodSeconds (enforcement (spec sample_budget))) = 300"
    by (simp add: samples)
  show ?thesis
    using gate_opens_after_grace [OF ref_contract f, of
        "\<lparr>consumed = Fin 8, remaining = Fin 0, tracked = 1, over = True\<rparr>" 9000000123 "[Enforced 10]" 5 6 7]
    by (simp add: s whole_second_def del: of_int_sint foldl_Cons)
qed

text \<open>C32: Wrap-around. At 2562048 hours, a length the webhook admits, the duration has wrapped to
  a negative one: accounting uses the all-time window, while the ranking has an empty one, so
  that no pod is ever enforced against.\<close>

theorem window_overflow_disarms:
  assumes "windowHours (quota (spec b)) = 2562048"
  shows "0 < sint (windowHours (quota (spec b))) \<and>
    window_start \<lparr>acc_window = window_of b, acc_quota = q\<rparr> now = zero_time \<and>
    emits (maybeEnforce L A b pods now) (\<lambda>e cs. e = None \<and> cs = [])"
  using window_overflow(2) [OF assms] assms
  by (auto intro!: emits_conseq [OF maybeEnforce_spec] elim!: enforce_specE
      simp: window_overflow(3) [OF assms])

lemma window_overflow_disarms_witness:
  "\<forall>A :: (rat, label_selector, unit) api.
    emits (maybeEnforce ref_lib A
        (sample_budget\<lparr>spec := sample_spec\<lparr>quota := \<lparr>gpuHours = 1, windowHours = 2562048\<rparr>\<rparr>\<rparr>)
        [sample_pod] 7200000000000)
      (\<lambda>e cs. e = None \<and> cs = [])"
  by (intro allI window_overflow_disarms [THEN conjunct2, THEN conjunct2]) simp

section \<open>The pod watch\<close>

text \<open>C33: Functional behaviour. An event on a pod lists the budgets of its namespace once and
  enqueues exactly those whose selector is valid and matches the pod's labels, in order; when
  the listing fails it enqueues none.\<close>

theorem pod_events_reach_their_budgets: "emits (mapPodToBudgets L A (Some p)) (map_pod_spec L p)"
  by (rule mapPodToBudgets_spec)

section \<open>Admission\<close>

text \<open>C34: Error reporting. The errors name, in the fixed order of the checks and under the given
  path, exactly the fields that are violated, each once.\<close>

theorem validation_errors_complete:
  "map error_path (validateSpec L s path) =
     map (\<lambda>v. path @ fst v) (List.filter snd (violations L s))"
  by (rule validateSpec_paths)

text \<open>C35: Invariant. After any sequence of create, update and delete requests the stored budget,
  if there is one, has a valid specification.\<close>

theorem admitted_budgets_are_valid:
  assumes "foldl (admit (\<lambda>b. snd (ValidateCreate L b) = None)
    (\<lambda>a b. snd (ValidateUpdate L a b) = None) (\<lambda>b. snd (ValidateDelete b) = None)) None rs = Some b"
  shows "valid_spec L (spec b)"
  using budget_admission.history_good [OF _ assms] by simp

lemma admitted_budgets_are_valid_witness: "valid_spec ref_lib (spec sample_budget)"
proof (rule admitted_budgets_are_valid [where rs = "[CreateReq sample_budget]"])
  have "valid_spec ref_lib (spec sample_budget)"
    by (auto simp: valid_spec_def samples ref_lib_def ref_compile_def isEmptyLabelSelector_def)
  then show "foldl (admit (\<lambda>b. snd (ValidateCreate ref_lib b) = None)
      (\<lambda>a b. snd (ValidateUpdate ref_lib a b) = None) (\<lambda>b. snd (ValidateDelete b) = None)) None
      [CreateReq sample_budget] = Some sample_budget"
    by (simp add: ValidateCreate_def validateSpec_Nil)
qed

text \<open>C36: Composition of the webhook and the reconciler. If every budget the server hands to a pass
  would be admitted, a pass that gets as far as reading the clock lists pods by the selector of a
  budget it was handed (there is no invalid selector), and every enforcement it counts carries the
  action configured in the stored budget (nothing falls back to alerting).\<close>

theorem admitted_budgets_act_as_configured:
  "emits (Reconcile L A ns n) (\<lambda>r cs. admission_law L cs)"
  by (rule emits_conseq [OF Reconcile_spec]) (simp add: admission_law_def reconcile_spec_as_configured)

section \<open>Deep copies\<close>

text \<open>C37: Isolation of copies. The deep copy of a budget denotes the same budget as the original,
  shares no cell with it, and stays as it is whatever is written outside the cells that the copy
  allocated; the original is not changed by copying. So the base that a status patch is computed
  against keeps the old content while the reconciler changes the budget in place.\<close>

theorem deep_copy_isolated:
  assumes "library_copies C V" and "typed (mBudgetPtr V) h (Some l)"
    and "run_state (GPUWorkloadBudget_DeepCopy C (Some l)) h = (p, h1)"
    and "lim h1 \<le> lim h2" and "\<And>k. lim h \<le> k \<Longrightarrow> k < lim h1 \<Longrightarrow> cells h2 k = cells h1 k"
  shows "p \<noteq> None \<and> view (mBudgetPtr V) h2 p = view (mBudgetPtr V) h (Some l) \<and>
    refs (mBudgetPtr V) h2 p \<inter> refs (mBudgetPtr V) h (Some l) = {} \<and>
    view (mBudgetPtr V) h1 (Some l) = view (mBudgetPtr V) h (Some l)"
  using deep_copy.frozen_copy [OF budget_pointer_copy [OF assms(1)] assms(2-5)] DeepCopy_nil(1) [OF assms(3)]
  by simp
lemma deep_copy_isolated_witness:
  "\<exists>p h1. run_state (GPUWorkloadBudget_DeepCopy ref_copies (Some 0)) sample_heap = (p, h1) \<and>
    view (mBudgetPtr ref_meanings) (h1\<lparr>cells := (cells h1)(3 := ConditionArray [], 0 := LibCell (Inline []))\<rparr>) p =
      view (mBudgetPtr ref_meanings) sample_heap (Some 0)"
proof -
  obtain p h1 where r: "run_state (GPUWorkloadBudget_DeepCopy ref_copies (Some 0)) sample_heap = (p, h1)"
    by force
  show ?thesis
    using deep_copy_isolated [OF ref_library sample_typed(1) r,
        of "h1\<lparr>cells := (cells h1)(3 := ConditionArray [], 0 := LibCell (Inline []))\<rparr>"] r
    by (auto simp: sample_heap_def)
qed

text \<open>C38: Type preservation. Copying a list of budgets through the object interface gives the nil
  object for a nil list and never a typed nil; else a well-typed list with the same content (a nil
  slice of items staying nil), while every budget pointer that was well typed stays so.\<close>

theorem copied_lists_typed:
  assumes "library_copies C V" and "typed (mListPtr V) h q" and "typed (mBudgetPtr V) h p"
    and "run_state (GPUWorkloadBudgetList_DeepCopyObject C q) h = (ob, h1)"
  shows "(case ob of NilObject \<Rightarrow> q = None | BudgetObject _ \<Rightarrow> False
      | ListObject r \<Rightarrow> q \<noteq> None \<and> r \<noteq> None \<and> typed (mListPtr V) h1 r \<and>
          view (mListPtr V) h1 r = view (mListPtr V) h q) \<and>
    typed (mBudgetPtr V) h1 p"
proof -
  obtain r where r: "run_state (GPUWorkloadBudgetList_DeepCopy C q) h = (r, h1)"
    and ob: "ob = (if r \<noteq> None then ListObject r else NilObject)"
    using assms(4) by (auto simp: GPUWorkloadBudgetList_DeepCopyObject_def split: prod.splits)
  note c = copiedD [OF deep_copy.copies [OF list_pointer_copy [OF assms(1)] assms(2) r]]
  show ?thesis
    using c(2,3) DeepCopy_nil(2) [OF r] ob
      heap_value.later(1) [OF deep_copy_value [OF budget_pointer_copy [OF assms(1)]] assms(3) c(1)] by auto
qed
lemma copied_lists_typed_witness:
  "\<exists>r h1. run_state (GPUWorkloadBudgetList_DeepCopyObject ref_copies (Some 5)) sample_heap = (ListObject r, h1) \<and>
    typed (mListPtr ref_meanings) h1 r \<and> typed (mBudgetPtr ref_meanings) h1 (Some 0)"
proof -
  obtain ob h1 where r: "run_state (GPUWorkloadBudgetList_DeepCopyObject ref_copies (Some 5)) sample_heap = (ob, h1)"
    by force
  show ?thesis
    using copied_lists_typed [OF ref_library sample_typed(2,1) r] r by (cases ob) auto
qed

section \<open>Start-up\<close>


section \<open>The benchmark harness\<close>

text \<open>C40: Agreement of the harness and the engine. In an ideal run (every pod starts when it arrives
  and runs as long as configured, in whole seconds and whole GPUs, inside the window) the harness'
  expected hours and the consumption that the engine computes for the pods of the run give a score
  of one up to \<open>(n + 5) * 2^-53\<close>, whatever the moment of the snapshot.\<close>

theorem ideal_run_scores_one:
  assumes "ideal_scenario s g d R n" and "sint elapsed = T * 1000000000" and "0 < T"
    and "window_start b (t0 + T * 1000000000) \<le> t0"
  shows "\<exists>r. AccuracyRatio (consumed (Compute b (t0 + T * 1000000000) (ideal_pods g d R t0 n)))
      (ExpectedGPUHours s elapsed) = Fin r \<and> 1 - of_nat (n + 5) * eps \<le> r \<and> r \<le> 1"
  using assms by (rule ideal_run_score)
lemma ideal_run_scores_one_witness:
  "\<exists>r. AccuracyRatio (consumed (Compute sample_account 14400000000000 (ideal_pods 4 1 3600 7200000000000 2)))
      (ExpectedGPUHours \<lparr>sc_count = 2, sc_rate = Fin 1, sc_runtime = 3600000000000, sc_gpus = Fin 4\<rparr> 7200000000000) =
        Fin r \<and> 1 - 7 * eps \<le> r \<and> r \<le> 1"
proof -
  have one: "fdiv (Fin 1) (Fin 1) = Fin 1"
    using round64_rep64 [OF rep64_int [of 1]]
    by (simp add: fdiv_def is_inf_def is_zero64_def)
  show ?thesis
    using ideal_run_scores_one
      [of "\<lparr>sc_count = 2, sc_rate = Fin 1, sc_runtime = 3600000000000, sc_gpus = Fin 4\<rparr>" 4 1 3600 2
        7200000000000 7200 sample_account 7200000000000]
    by (simp add: ideal_scenario_def one sample_from del: Compute_simps)
qed

section \<open>The workload generator\<close>

end
